(* ===== verification/Prelude.thy ===== *)
theory Prelude
  imports Main
begin

text \<open>
  What every component of the development shares: the ways the C++ code can fail, results that
  carry such a failure, sequences of state-changing statements and runs of labelled steps, with
  the two arguments every state machine of the development uses.

  \<^item> \<open>error\<close> lists the abnormal ends the code can have: a failed glog \<open>CHECK\<close>, a
    \<open>LOG(FATAL)\<close>, an exception of a checked container access, and the undefined behaviours
    that a memory checker would report (use of a destroyed object, dereference of a null
    pointer, reading a member that was never set, division by zero, signed overflow), the exception
    of joining a thread twice, and \<open>std::terminate\<close>. \<open>Blocked\<close> marks a call that waits and
    that nobody wakes.
  \<^item> \<open>'a result\<close> is either an error or a value; \<open>bind_r\<close> stops at the first error.
  \<^item> \<open>block\<close> runs a list of statements in order, as the braces of a C++ body do.
  \<^item> \<open>run_of step guard\<close> runs a list of labels: it gives \<open>None\<close> when a step is not allowed and
    stops at the first error. \<open>guarded_system\<close> is the contract of a system whose allowed steps
    neither fail nor leave its invariant; \<open>progress_measure\<close> the contract of statements that
    only move a state forward in some order.
\<close>

section \<open>Errors and results\<close>

type_synonym addr = nat

datatype error =
    CheckFailed string
  | LogFatal string
  | UseAfterFree addr
  | NullDereference
  | Uninitialized
  | OutOfRange
  | DivisionByZero
  | SignedOverflow
  | Blocked
  | SystemError
  | Terminate

type_synonym 'a result = "error + 'a"

definition bind_r :: "'a result \<Rightarrow> ('a \<Rightarrow> 'b result) \<Rightarrow> 'b result" where
  "bind_r m f = (case m of Inl e \<Rightarrow> Inl e | Inr a \<Rightarrow> f a)"

lemma bind_r_simps [simp]:
  "bind_r (Inl e) f = Inl e"
  "bind_r (Inr a) f = f a"
  by (simp_all add: bind_r_def)

lemma bind_map_sum [simp]: "bind_r (map_sum id f m) g = bind_r m (\<lambda>a. g (f a))"
  by (cases m) simp_all

lemma map_sum_Inr: "map_sum f g z = Inr y \<longleftrightarrow> (\<exists>x. z = Inr x \<and> g x = y)"
  by (cases z) auto

lemma map_sum_as_bind: "map_sum id f m = bind_r m (\<lambda>a. Inr (f a))"
  by (cases m) simp_all

lemma bind_r_Inr_iff: "bind_r m f = Inr b \<longleftrightarrow> (\<exists>a. m = Inr a \<and> f a = Inr b)"
  by (cases m) auto

lemma bind_r_assoc: "bind_r (bind_r m f) g = bind_r m (\<lambda>a. bind_r (f a) g)"
  by (cases m) auto

lemma bind_r_ext: "(\<And>a. m = Inr a \<Longrightarrow> f a = g a) \<Longrightarrow> bind_r m f = bind_r m g"
  by (cases m) simp_all

definition check :: "bool \<Rightarrow> string \<Rightarrow> 'a result \<Rightarrow> 'a result" where
  "check b msg k = (if b then k else Inl (CheckFailed msg))"

lemma check_simps [simp]:
  "check True msg k = k"
  "check False msg k = Inl (CheckFailed msg)"
  by (simp_all add: check_def)

section \<open>Statements\<close>

type_synonym 's cmd = "'s \<Rightarrow> 's result"

fun block :: "'s cmd list \<Rightarrow> 's cmd" where
  "block [] s = Inr s"
| "block (c # cs) s = bind_r (c s) (block cs)"

lemma bind_r_block_Nil [simp]: "bind_r m (block []) = m"
  by (cases m) simp_all

lemma block_single: "block [c] = c"
  by (rule ext) simp

lemma block_append: "block (xs @ ys) s = bind_r (block xs s) (block ys)"
  proof (induction xs arbitrary: s)
  case (Cons c cs)
  then show ?case by (cases "c s") simp_all
qed simp

section \<open>Runs\<close>

fun run_of ::
  "('l \<Rightarrow> 's \<Rightarrow> 's result) \<Rightarrow> ('l \<Rightarrow> 's \<Rightarrow> bool) \<Rightarrow> 'l list \<Rightarrow> 's \<Rightarrow> 's result option" where
  "run_of step guard [] s = Some (Inr s)"
| "run_of step guard (l # ls) s =
     (if guard l s then (case step l s of Inl e \<Rightarrow> Some (Inl e) | Inr s' \<Rightarrow> run_of step guard ls s')
      else None)"

lemma run_of_weaken:
  "run_of step guard ls s = Some res \<Longrightarrow> (\<And>l s. guard l s \<Longrightarrow> guard' l s) \<Longrightarrow>
   run_of step guard' ls s = Some res"
  by (induction ls arbitrary: s) (auto split: if_splits sum.splits)

lemma run_of_append:
  "run_of step guard ls s = Some (Inr s') \<Longrightarrow>
   run_of step guard (ls @ ls') s = run_of step guard ls' s'"
  by (induction ls arbitrary: s) (auto split: if_splits sum.splits)

locale guarded_system =
  fixes step :: "'l \<Rightarrow> 's \<Rightarrow> 's result"
    and guard :: "'l \<Rightarrow> 's \<Rightarrow> bool"
    and inv :: "'s \<Rightarrow> bool"
  assumes step_inv: "inv s \<Longrightarrow> guard l s \<Longrightarrow> \<exists>s'. step l s = Inr s' \<and> inv s'"
begin

lemma run_inv: "inv s \<Longrightarrow> run_of step guard ls s = Some res \<Longrightarrow> \<exists>s'. res = Inr s' \<and> inv s'"
proof (induction ls arbitrary: s)
  case (Cons l ls)
  from Cons.prems have "guard l s" by (auto split: if_splits)
  with step_inv [OF Cons.prems(1)] obtain s' where "step l s = Inr s'" "inv s'" by blast
  with Cons show ?case by (auto split: if_splits)
qed auto

end

locale progress_measure =
  fixes before :: "'s \<Rightarrow> 's \<Rightarrow> bool"
  assumes before_refl: "before s s"
    and before_trans: "before s t \<Longrightarrow> before t u \<Longrightarrow> before s u"
begin

definition advances :: "'s cmd \<Rightarrow> bool" where
  "advances c \<longleftrightarrow> (\<forall>s s'. c s = Inr s' \<longrightarrow> before s s')"

lemma advances_I: "(\<And>s s'. c s = Inr s' \<Longrightarrow> before s s') \<Longrightarrow> advances c"
  by (simp add: advances_def)

lemma advances_D: "advances c \<Longrightarrow> c s = Inr s' \<Longrightarrow> before s s'"
  by (simp add: advances_def)

lemma advances_block: "(\<And>c. c \<in> set cs \<Longrightarrow> advances c) \<Longrightarrow> advances (block cs)"
proof (induction cs)
  case Nil
  show ?case by (simp add: advances_def before_refl)
next
  case (Cons c cs)
  have "advances c" "advances (block cs)" using Cons by simp_all
  then show ?case
    unfolding advances_def block.simps bind_r_Inr_iff by (blast intro: before_trans)
qed

lemma advances_run:
  "(\<And>l. advances (step l)) \<Longrightarrow> run_of step guard ls s = Some (Inr s') \<Longrightarrow> before s s'"
proof (induction ls arbitrary: s)
  case (Cons l ls)
  from Cons.prems(2) obtain t where "step l s = Inr t" "run_of step guard ls t = Some (Inr s')"
    by (auto split: if_splits sum.splits)
  with Cons show ?case by (blast intro: before_trans advances_D)
qed (simp add: before_refl)

end

section \<open>Lists\<close>

lemma count_list_remove1 [simp]:
  "count_list (remove1 x xs) y = (if x = y \<and> x \<in> set xs then count_list xs y - 1 else count_list xs y)"
proof (induction xs)
  case (Cons a xs)
  have "x \<in> set xs \<Longrightarrow> 0 < count_list xs x"
    by (metis count_list_0_iff neq0_conv)
  with Cons show ?case by auto
qed simp

lemma count_list_pos: "0 < count_list xs x \<longleftrightarrow> x \<in> set xs"
  by (metis count_list_0_iff neq0_conv)

section \<open>Machine integers\<close>

text \<open>
  \<open>int\<close> of the source is 32 bits, \<open>int64\<close> 64 bits, both two's complement. Values are kept
  as \<open>int\<close>; the range predicates say when an operation stays defined and \<open>to_int32\<close> is the
  conversion of a wider value.
\<close>

definition in_int32 :: "int \<Rightarrow> bool" where
  "in_int32 i \<longleftrightarrow> - (2 ^ 31) \<le> i \<and> i < 2 ^ 31"

definition in_int64 :: "int \<Rightarrow> bool" where
  "in_int64 i \<longleftrightarrow> - (2 ^ 63) \<le> i \<and> i < 2 ^ 63"

definition to_int32 :: "int \<Rightarrow> int" where
  "to_int32 i = (i + 2 ^ 31) mod 2 ^ 32 - 2 ^ 31"

lemma to_int32_id: "in_int32 i \<Longrightarrow> to_int32 i = i"
  by (simp add: in_int32_def to_int32_def)

lemma to_int32_range: "in_int32 (to_int32 i)"
proof -
  have "0 \<le> (i + 2 ^ 31) mod 2 ^ 32" "(i + 2 ^ 31) mod 2 ^ 32 < 2 ^ 32"
    by simp_all
  then show ?thesis by (simp add: in_int32_def to_int32_def)
qed

end
