(* ===== verification/Grpc_Types.thy ===== *)
theory Grpc_Types
  imports Prelude
begin

text \<open>
  The vocabulary the program takes from gRPC and protobuf: the four kinds of RPC, the status of
  a finished call, message descriptors, and the calls the program makes on gRPC's asynchronous
  server objects. gRPC itself is not part of the repository; what is kept of a call is its
  name, its arguments and the tag under which its completion is announced.
\<close>

datatype RpcType = NORMAL_RPC | CLIENT_STREAMING | SERVER_STREAMING | BIDI_STREAMING

datatype StatusCode =
    OK | CANCELLED | UNKNOWN | INVALID_ARGUMENT | DEADLINE_EXCEEDED | NOT_FOUND
  | ALREADY_EXISTS | PERMISSION_DENIED | RESOURCE_EXHAUSTED | FAILED_PRECONDITION | ABORTED
  | OUT_OF_RANGE | UNIMPLEMENTED | INTERNAL | UNAVAILABLE | DATA_LOSS | UNAUTHENTICATED

record Status =
  error_code :: StatusCode
  error_message :: string

definition Status_OK :: Status where
  "Status_OK = \<lparr>error_code = OK, error_message = []\<rparr>"

definition status_ok :: "Status \<Rightarrow> bool" where
  "status_ok s \<longleftrightarrow> error_code s = OK"

lemma status_ok_OK [simp]: "status_ok Status_OK"
  by (simp add: status_ok_def Status_OK_def)

text \<open>A message descriptor with the prototype protobuf's generated factory keeps for it.\<close>

record 'm Descriptor =
  full_name :: string
  prototype :: 'm

text \<open>The four asynchronous reader and writer objects of gRPC.\<close>

datatype stream_object = ResponseWriter | Reader | ReaderWriter | StreamWriter

text \<open>
  Calls on gRPC objects. A \<open>Request\<close> call names the method index, the object the incoming call
  is bound to (\<open>None\<close> is a null pointer) and the completion queue that announces it.
\<close>

datatype 'm grpc_call =
    AsyncNotifyWhenDone
  | RequestAsyncBidiStreaming nat "stream_object option" nat
  | RequestAsyncClientStreaming nat "stream_object option" nat
  | RequestAsyncUnary nat "stream_object option" nat
  | RequestAsyncServerStreaming nat "stream_object option" nat
  | ReadCall stream_object
  | WriteCall stream_object 'm
  | FinishStatus stream_object Status
  | FinishMessage stream_object 'm Status
  | FinishWithError stream_object Status

end
