(* ===== verification/Blocking_Queue.thy ===== *)
theory Blocking_Queue
  imports Prelude
begin

text \<open>
  \<open>common::BlockingQueue\<close> of \<open>src/async_grpc/common/blocking_queue.h\<close>: a first-in first-out
  queue with an optional capacity. Every operation holds the queue's mutex from its start to its
  end except while it waits, so an operation is one atomic step on the queue as it is when the
  wait ends; a wait with a time limit that runs out ends on a state where the awaited condition
  is false.
\<close>

section \<open>The queue and its operations\<close>

record 'a BlockingQueue =
  queue_size :: nat
  deque :: "'a list"

definition kInfiniteQueueSize :: nat where
  "kInfiniteQueueSize = 0"

definition new_queue_sized :: "nat \<Rightarrow> 'a BlockingQueue" where
  "new_queue_sized n = \<lparr>queue_size = n, deque = []\<rparr>"

definition new_queue :: "'a BlockingQueue" where
  "new_queue = new_queue_sized kInfiniteQueueSize"

definition QueueEmptyCondition :: "'a BlockingQueue \<Rightarrow> bool" where
  "QueueEmptyCondition q \<longleftrightarrow> deque q = []"

definition QueueNotFullCondition :: "'a BlockingQueue \<Rightarrow> bool" where
  "QueueNotFullCondition q \<longleftrightarrow>
     queue_size q = kInfiniteQueueSize \<or> length (deque q) < queue_size q"

text \<open>\<open>None\<close> is a call that has to go on waiting in this state.\<close>

definition Push :: "'a \<Rightarrow> 'a BlockingQueue \<Rightarrow> 'a BlockingQueue option" where
  "Push t q = (if QueueNotFullCondition q then Some (q\<lparr>deque := deque q @ [t]\<rparr>) else None)"

definition PushWithTimeout :: "'a \<Rightarrow> 'a BlockingQueue \<Rightarrow> bool \<times> 'a BlockingQueue" where
  "PushWithTimeout t q =
     (if \<not> QueueNotFullCondition q then (False, q)
      else (True, q\<lparr>deque := deque q @ [t]\<rparr>))"

definition Pop :: "'a BlockingQueue \<Rightarrow> ('a \<times> 'a BlockingQueue) option" where
  "Pop q = (case deque q of [] \<Rightarrow> None | t # ts \<Rightarrow> Some (t, q\<lparr>deque := ts\<rparr>))"

definition PopWithTimeout :: "'a BlockingQueue \<Rightarrow> 'a option \<times> 'a BlockingQueue" where
  "PopWithTimeout q =
     (case deque q of [] \<Rightarrow> (None, q) | t # ts \<Rightarrow> (Some t, q\<lparr>deque := ts\<rparr>))"

definition Peek :: "'a BlockingQueue \<Rightarrow> 'a option" where
  "Peek q = (case deque q of [] \<Rightarrow> None | t # _ \<Rightarrow> Some t)"

definition Size :: "'a BlockingQueue \<Rightarrow> nat" where
  "Size q = length (deque q)"

definition WaitUntilEmpty :: "'a BlockingQueue \<Rightarrow> unit option" where
  "WaitUntilEmpty q = (if QueueEmptyCondition q then Some () else None)"

lemmas queue_defs =
  kInfiniteQueueSize_def new_queue_sized_def new_queue_def QueueEmptyCondition_def
  QueueNotFullCondition_def Push_def PushWithTimeout_def Pop_def PopWithTimeout_def Peek_def
  Size_def WaitUntilEmpty_def

section \<open>The contract of a first-in first-out buffer\<close>

text \<open>
  What a client of a queue relies on: \<open>contents\<close> lists what the buffer holds, oldest first,
  an accepted push appends one item, a pop takes the oldest, and a pop waits only on an empty
  buffer. \<open>buffer_step\<close> is one attempt of some thread; an attempt that has to wait changes
  nothing. Beside the buffer it keeps what was accepted and what was delivered so far.
\<close>

datatype 'a buffer_op = DoPush 'a | DoPop

fun buffer_step ::
  "('a \<Rightarrow> 'q \<Rightarrow> 'q option) \<Rightarrow> ('q \<Rightarrow> ('a \<times> 'q) option) \<Rightarrow> 'a buffer_op \<Rightarrow>
   'q \<times> 'a list \<times> 'a list \<Rightarrow> 'q \<times> 'a list \<times> 'a list" where
  "buffer_step push pop (DoPush t) (q, accepted, delivered) =
     (case push t q of None \<Rightarrow> (q, accepted, delivered)
      | Some q' \<Rightarrow> (q', accepted @ [t], delivered))"
| "buffer_step push pop DoPop (q, accepted, delivered) =
     (case pop q of None \<Rightarrow> (q, accepted, delivered)
      | Some (t, q') \<Rightarrow> (q', accepted, delivered @ [t]))"

fun buffer_run ::
  "('a \<Rightarrow> 'q \<Rightarrow> 'q option) \<Rightarrow> ('q \<Rightarrow> ('a \<times> 'q) option) \<Rightarrow> 'a buffer_op list \<Rightarrow>
   'q \<times> 'a list \<times> 'a list \<Rightarrow> 'q \<times> 'a list \<times> 'a list" where
  "buffer_run push pop [] h = h"
| "buffer_run push pop (x # xs) h = buffer_run push pop xs (buffer_step push pop x h)"

locale fifo_buffer =
  fixes push :: "'a \<Rightarrow> 'q \<Rightarrow> 'q option"
    and pop :: "'q \<Rightarrow> ('a \<times> 'q) option"
    and contents :: "'q \<Rightarrow> 'a list"
    and invar :: "'q \<Rightarrow> bool"
  assumes push_contents: "push t q = Some q' \<Longrightarrow> contents q' = contents q @ [t]"
    and pop_contents: "pop q = Some (t, q') \<Longrightarrow> contents q = t # contents q'"
    and pop_None: "pop q = None \<longleftrightarrow> contents q = []"
    and push_invar: "invar q \<Longrightarrow> push t q = Some q' \<Longrightarrow> invar q'"
    and pop_invar: "invar q \<Longrightarrow> pop q = Some (t, q') \<Longrightarrow> invar q'"
begin

lemma step_history:
  "accepted = delivered @ contents q \<Longrightarrow> invar q \<Longrightarrow>
   buffer_step push pop x (q, accepted, delivered) = (q', accepted', delivered') \<Longrightarrow>
   accepted' = delivered' @ contents q' \<and> invar q'"
  by (cases x) (auto split: option.splits dest: push_contents pop_contents push_invar pop_invar)

lemma run_history:
  "accepted = delivered @ contents q \<Longrightarrow> invar q \<Longrightarrow>
   buffer_run push pop xs (q, accepted, delivered) = (q', accepted', delivered') \<Longrightarrow>
   accepted' = delivered' @ contents q' \<and> invar q'"
proof (induction xs arbitrary: q accepted delivered)
  case (Cons x xs)
  obtain q1 a1 d1 where st: "buffer_step push pop x (q, accepted, delivered) = (q1, a1, d1)"
    by (metis prod_cases3)
  with Cons.prems step_history have inv1: "a1 = d1 @ contents q1" "invar q1" by blast+
  from Cons.prems(3) st have "buffer_run push pop xs (q1, a1, d1) = (q', accepted', delivered')"
    by simp
  with inv1 show ?case by (rule Cons.IH)
qed simp

lemma pop_after_push: "push t q = Some q' \<Longrightarrow> pop q' \<noteq> None"
  by (simp add: push_contents pop_None)

end

definition within_capacity :: "nat \<Rightarrow> 'a BlockingQueue \<Rightarrow> bool" where
  "within_capacity n q \<longleftrightarrow>
     queue_size q = n \<and> (n = kInfiniteQueueSize \<or> length (deque q) \<le> n)"

interpretation bq: fifo_buffer Push Pop deque "within_capacity n" for n
  by unfold_locales
    (auto simp: queue_defs within_capacity_def split: if_splits list.splits)

text \<open>The variants with a time limit differ only in what they report on a wait.\<close>

lemma PushWithTimeout_Push:
  "PushWithTimeout t q = (case Push t q of None \<Rightarrow> (False, q) | Some q' \<Rightarrow> (True, q'))"
  by (simp add: queue_defs)

lemma PopWithTimeout_Pop:
  "PopWithTimeout q = (case Pop q of None \<Rightarrow> (None, q) | Some (t, q') \<Rightarrow> (Some t, q'))"
  by (auto simp: queue_defs split: list.splits)

lemma Push_unbounded [simp]:
  "queue_size q = 0 \<Longrightarrow> Push t q = Some (q\<lparr>deque := deque q @ [t]\<rparr>)"
  by (simp add: queue_defs)

section \<open>Properties\<close>

text \<open>C33. Whatever pushes and pops the threads attempt in whatever order on a queue constructed
  with a size, the items accepted so far are the items delivered so far, in the order of their
  acceptance, followed by the items still queued: nothing is lost, duplicated or reordered.
  A bounded queue never holds more than its size.\<close>

theorem queue_fifo_history:
  assumes "buffer_run Push Pop xs (new_queue_sized n, [], []) = (q, accepted, delivered)"
  shows "accepted = delivered @ deque q \<and> (n \<noteq> kInfiniteQueueSize \<longrightarrow> length (deque q) \<le> n)"
proof -
  have "within_capacity n (new_queue_sized n :: 'a BlockingQueue)"
    by (simp add: within_capacity_def queue_defs)
  with bq.run_history [OF _ _ assms, of n]
  have "accepted = delivered @ deque q" "within_capacity n q"
    by (simp_all add: queue_defs)
  then show ?thesis
    by (auto simp: within_capacity_def)
qed

theorem queue_fifo_history_witness:
  "buffer_run Push Pop [DoPush 1, DoPush 2, DoPush 3, DoPop, DoPush 4] (new_queue_sized 2, [], []) =
     (\<lparr>queue_size = 2, deque = [2, 4 :: int]\<rparr>, [1, 2, 4], [1]) \<and>
   ([1, 2, 4] :: int list) = [1] @ deque \<lparr>queue_size = 2, deque = [2, 4]\<rparr> \<and>
   length (deque \<lparr>queue_size = 2, deque = [2, 4 :: int]\<rparr>) \<le> 2"
proof -
  have run: "buffer_run Push Pop [DoPush 1, DoPush 2, DoPush 3, DoPop, DoPush 4]
          (new_queue_sized 2, [], []) = (\<lparr>queue_size = 2, deque = [2, 4 :: int]\<rparr>, [1, 2, 4], [1])"
    by (simp add: queue_defs)
  note hist = queue_fifo_history [OF run]
  have "(2::nat) \<noteq> kInfiniteQueueSize" by (simp add: kInfiniteQueueSize_def)
  with hist [THEN conjunct2] have "length (deque \<lparr>queue_size = 2, deque = [2, 4 :: int]\<rparr>) \<le> 2" by (rule mp)
  with run hist [THEN conjunct1] show ?thesis by (intro conjI)
qed

text \<open>A waiting call always has a partner that can run: a queue on which \<open>Push\<close> has to wait
  is bounded, full and not empty when its size is positive, so \<open>Pop\<close> returns its oldest item and
  the same \<open>Push\<close> then succeeds; a queue on which \<open>Pop\<close> has to wait accepts a \<open>Push\<close>.\<close>

lemma queue_no_deadlock:
  assumes "within_capacity n q"
  shows "(Push t q = None \<longrightarrow>
            length (deque q) = queue_size q \<and>
            (\<exists>q'. Pop q = Some (hd (deque q), q') \<and> Push t q' \<noteq> None)) \<and>
         (Pop q = None \<longrightarrow> Push t q \<noteq> None)"
  using assms
  by (cases "deque q") (auto simp: queue_defs within_capacity_def)

end
