(* ===== verification/Active_Rpcs.thy ===== *)
theory Active_Rpcs
  imports Prelude "HOL-Library.AList"
begin

text \<open>
  \<open>ActiveRpcs\<close> of \<open>src/async_grpc/rpc.h\<close> and \<open>rpc.cc\<close>: the objects of all in-flight RPCs of
  a service. The map from \<open>Rpc*\<close> to \<open>std::shared_ptr<Rpc>\<close> is an association list from the
  object's identity to the object the shared pointer owns. Every operation runs under the
  object's lock, so it is one step. A weak pointer is the identity of the object it points to.
\<close>

section \<open>The operations\<close>

record ActiveRpcs =
  rpcs :: "(addr \<times> addr) list"

definition new_ActiveRpcs :: ActiveRpcs where
  "new_ActiveRpcs = \<lparr>rpcs = []\<rparr>"

definition ActiveRpcs_Add :: "addr \<Rightarrow> ActiveRpcs \<Rightarrow> ActiveRpcs result" where
  "ActiveRpcs_Add rpc a =
     (if map_of (rpcs a) rpc \<noteq> None then Inl (CheckFailed ''RPC already active.'')
      else Inr (a\<lparr>rpcs := (rpc, rpc) # rpcs a\<rparr>))"

definition ActiveRpcs_Remove :: "addr \<Rightarrow> ActiveRpcs \<Rightarrow> bool \<times> ActiveRpcs" where
  "ActiveRpcs_Remove rpc a =
     (if map_of (rpcs a) rpc \<noteq> None then (True, a\<lparr>rpcs := AList.delete rpc (rpcs a)\<rparr>)
      else (False, a))"

definition ActiveRpcs_GetWeakPtr :: "addr \<Rightarrow> ActiveRpcs \<Rightarrow> addr result" where
  "ActiveRpcs_GetWeakPtr rpc a =
     (case map_of (rpcs a) rpc of
        None \<Rightarrow> Inl (CheckFailed ''it != rpcs_.end()'')
      | Some shared \<Rightarrow> Inr shared)"

definition ActiveRpcs_destroy :: "ActiveRpcs \<Rightarrow> unit result" where
  "ActiveRpcs_destroy a =
     (if rpcs a \<noteq> [] then Inl (LogFatal ''RPCs still in flight!'') else Inr ())"

definition active_keys :: "ActiveRpcs \<Rightarrow> addr set" where
  "active_keys a = fst ` set (rpcs a)"

definition owns_itself :: "ActiveRpcs \<Rightarrow> bool" where
  "owns_itself a \<longleftrightarrow> (\<forall>(k, v) \<in> set (rpcs a). k = v)"

section \<open>The contract of a registry of live objects\<close>

locale rpc_registry =
  fixes add :: "addr \<Rightarrow> 'r \<Rightarrow> 'r result"
    and remove :: "addr \<Rightarrow> 'r \<Rightarrow> bool \<times> 'r"
    and weak :: "addr \<Rightarrow> 'r \<Rightarrow> addr result"
    and keys :: "'r \<Rightarrow> addr set"
    and invar :: "'r \<Rightarrow> bool"
  assumes add_new: "k \<notin> keys a \<Longrightarrow> \<exists>a'. add k a = Inr a' \<and> keys a' = insert k (keys a)"
    and add_again: "k \<in> keys a \<Longrightarrow> \<exists>e. add k a = Inl e"
    and remove_result: "fst (remove k a) \<longleftrightarrow> k \<in> keys a"
    and remove_keys: "keys (snd (remove k a)) = keys a - {k}"
    and weak_active: "invar a \<Longrightarrow> k \<in> keys a \<Longrightarrow> weak k a = Inr k"
    and weak_gone: "k \<notin> keys a \<Longrightarrow> \<exists>e. weak k a = Inl e"
    and add_invar: "invar a \<Longrightarrow> add k a = Inr a' \<Longrightarrow> invar a'"
    and remove_invar: "invar a \<Longrightarrow> invar (snd (remove k a))"
begin

lemma weak_iff: "invar a \<Longrightarrow> (\<exists>p. weak k a = Inr p) \<longleftrightarrow> k \<in> keys a"
  using weak_active weak_gone by (metis Inl_Inr_False)

lemma weak_Inr_iff: "invar a \<Longrightarrow> weak k a = Inr p \<longleftrightarrow> p = k \<and> k \<in> keys a"
  using weak_active weak_gone by (metis Inl_Inr_False Inr_inject)

lemma add_Inr_iff: "(\<exists>a'. add k a = Inr a') \<longleftrightarrow> k \<notin> keys a"
  using add_new add_again by (metis Inl_Inr_False)

lemma add_keys: "add k a = Inr a' \<Longrightarrow> keys a' = insert k (keys a)"
  using add_new add_Inr_iff by (metis Inr_inject)

lemma add_remove:
  assumes "add k a = Inr a'"
  shows "fst (remove k a') \<and> keys (snd (remove k a')) = keys a"
proof -
  from assms have "k \<notin> keys a" using add_Inr_iff by blast
  then show ?thesis by (simp add: remove_result remove_keys add_keys [OF assms])
qed

lemma remove_twice: "\<not> fst (remove k (snd (remove k a)))"
  by (simp add: remove_result remove_keys)

end

lemma map_of_active: "map_of (rpcs a) k \<noteq> None \<longleftrightarrow> k \<in> active_keys a"
  by (auto simp: active_keys_def map_of_eq_None_iff)

lemma map_of_owner: "owns_itself a \<Longrightarrow> map_of (rpcs a) k = Some v \<Longrightarrow> v = k"
  by (auto simp: owns_itself_def dest: map_of_SomeD)

interpretation ar: rpc_registry ActiveRpcs_Add ActiveRpcs_Remove ActiveRpcs_GetWeakPtr
  active_keys owns_itself
proof unfold_locales
  fix k a
  assume "k \<notin> active_keys a"
  then show "\<exists>a'. ActiveRpcs_Add k a = Inr a' \<and> active_keys a' = insert k (active_keys a)"
    using map_of_active [of a k] by (simp add: ActiveRpcs_Add_def) (simp add: active_keys_def)
next
  fix k a
  assume "k \<in> active_keys a"
  then show "\<exists>e. ActiveRpcs_Add k a = Inl e"
    using map_of_active [of a k] by (simp add: ActiveRpcs_Add_def)
next
  fix k a
  show "fst (ActiveRpcs_Remove k a) \<longleftrightarrow> k \<in> active_keys a"
    using map_of_active [of a k] by (simp add: ActiveRpcs_Remove_def)
next
  fix k and a :: ActiveRpcs
  have "fst ` set (AList.delete k (rpcs a)) = fst ` set (rpcs a) - {k}"
    by (auto simp: AList.delete_eq image_iff)
  then show "active_keys (snd (ActiveRpcs_Remove k a)) = active_keys a - {k}"
    using map_of_active [of a k]
    by (auto simp: ActiveRpcs_Remove_def active_keys_def simp del: not_None_eq)
next
  fix k a
  assume "owns_itself a" "k \<in> active_keys a"
  then show "ActiveRpcs_GetWeakPtr k a = Inr k"
    using map_of_active [of a k] map_of_owner [of a k]
    by (auto simp: ActiveRpcs_GetWeakPtr_def split: option.splits)
next
  fix k a
  assume "k \<notin> active_keys a"
  then show "\<exists>e. ActiveRpcs_GetWeakPtr k a = Inl e"
    using map_of_active [of a k] by (auto simp: ActiveRpcs_GetWeakPtr_def)
next
  fix k a a'
  assume "owns_itself a" "ActiveRpcs_Add k a = Inr a'"
  then show "owns_itself a'"
    by (auto simp: ActiveRpcs_Add_def owns_itself_def split: if_splits)
next
  fix k a
  assume "owns_itself a"
  then show "owns_itself (snd (ActiveRpcs_Remove k a))"
    by (auto simp: ActiveRpcs_Remove_def owns_itself_def AList.delete_eq)
qed

section \<open>Properties\<close>

text \<open>C15. The registry does what the rest of the server relies on: \<open>Add\<close> succeeds exactly for an
  RPC that is not active and makes it active; \<open>Remove\<close> reports whether the RPC was active and
  makes it inactive, so a second \<open>Remove\<close> reports false; \<open>GetWeakPtr\<close> returns a pointer to the
  RPC itself exactly while it is active and fails its check otherwise; the destructor accepts
  exactly the registry with no RPC in flight.\<close>

theorem ActiveRpcs_contract:
  assumes "owns_itself a"
  shows "((\<exists>a'. ActiveRpcs_Add k a = Inr a') \<longleftrightarrow> k \<notin> active_keys a) \<and>
    (\<forall>a'. ActiveRpcs_Add k a = Inr a' \<longrightarrow>
       active_keys a' = insert k (active_keys a) \<and> owns_itself a') \<and>
    (fst (ActiveRpcs_Remove k a) \<longleftrightarrow> k \<in> active_keys a) \<and>
    active_keys (snd (ActiveRpcs_Remove k a)) = active_keys a - {k} \<and>
    \<not> fst (ActiveRpcs_Remove k (snd (ActiveRpcs_Remove k a))) \<and>
    (ActiveRpcs_GetWeakPtr k a = Inr p \<longleftrightarrow> p = k \<and> k \<in> active_keys a) \<and>
    (ActiveRpcs_destroy a = Inr () \<longleftrightarrow> active_keys a = {})"
  using assms ar.add_Inr_iff ar.add_keys ar.add_invar ar.remove_result ar.remove_keys
    ar.remove_twice ar.weak_Inr_iff
  by (auto simp: ActiveRpcs_destroy_def active_keys_def)

theorem ActiveRpcs_contract_witness:
  "owns_itself \<lparr>rpcs = [(3, 3), (5, 5)]\<rparr> \<and>
   active_keys (snd (ActiveRpcs_Remove 5 \<lparr>rpcs = [(3, 3), (5, 5)]\<rparr>)) = {3} \<and>
   (ActiveRpcs_GetWeakPtr 5 \<lparr>rpcs = [(3, 3), (5, 5)]\<rparr> = Inr 5)"
proof -
  have "owns_itself \<lparr>rpcs = [(3, 3), (5, 5)]\<rparr>"
    by (simp add: owns_itself_def)
  from this ActiveRpcs_contract [OF this, of 5 5] show ?thesis
    by (auto simp: active_keys_def)
qed

end
