(* ===== verification/Server_State.thy ===== *)
theory Server_State
  imports Prelude Grpc_Types Blocking_Queue Active_Rpcs
begin

text \<open>
  The state the server's components share: RPC objects with their events and send queue, the
  services with their registries, the event queues, and the boundary to gRPC.

  \<^item> An \<open>Rpc\<close> object is found by its identity (\<open>addr\<close>). Identities are never reused, so a
    pointer to a destroyed object is told from a pointer to any later one; every dereference of
    a raw pointer goes through \<open>get_rpc\<close>, which reports \<open>UseAfterFree\<close> for a destroyed
    object.
  \<^item> \<open>holders\<close> lists the strong references that live in local variables (the
    \<open>shared_ptr\<close>s obtained by \<open>lock()\<close>); an object lives as long as its registry or a holder
    owns it.
  \<^item> Handlers are user code: \<open>HandlerClass\<close> gives their methods as functions on the
    handler's own state, the server-wide execution context and the request, with the calls the
    method makes back into the framework as a list of \<open>handler_action\<close>s.
  \<^item> \<open>calls\<close> is the list of calls made on gRPC, \<open>outstanding\<close> the operations gRPC has not yet
    announced, \<open>started\<close> the RPCs whose call gRPC has started.
\<close>

section \<open>Events\<close>

datatype Event = NEW_CONNECTION | READ | WRITE_NEEDED | WRITE | FINISH | DONE

record CompletionQueueRpcEvent =
  cqe_event :: Event
  cqe_rpc_ptr :: addr
  cqe_ok :: bool
  cqe_pending :: bool

definition new_CompletionQueueRpcEvent :: "Event \<Rightarrow> addr \<Rightarrow> CompletionQueueRpcEvent" where
  "new_CompletionQueueRpcEvent event rpc =
     \<lparr>cqe_event = event, cqe_rpc_ptr = rpc, cqe_ok = False, cqe_pending = False\<rparr>"

text \<open>
  What an event queue holds: a pointer to an event embedded in its \<open>Rpc\<close> or to an
  \<open>InternalRpcEvent\<close> of its own, together with the deleter of the unique pointer.
\<close>

datatype DeleteAction = DELETE | DO_NOT_DELETE

datatype event_ptr = CqEvent addr Event | InternalEvent Event addr

type_synonym UniqueEventPtr = "event_ptr \<times> DeleteAction"

type_synonym EventQueue = "UniqueEventPtr BlockingQueue"

definition EventDeleter_deletes :: "DeleteAction \<Rightarrow> event_ptr option \<Rightarrow> bool" where
  "EventDeleter_deletes action e \<longleftrightarrow> e \<noteq> None \<and> action = DELETE"

section \<open>Handlers\<close>

datatype 'm handler_action = Act_Send 'm | Act_Finish Status | Act_GetWriter

record ('m, 'h, 'c) HandlerClass =
  hc_Initialize :: "'c \<Rightarrow> 'h \<times> 'c \<times> 'm handler_action list"
  hc_OnRequest :: "'h \<Rightarrow> 'c \<Rightarrow> 'm \<Rightarrow> 'h \<times> 'c \<times> 'm handler_action list"
  hc_OnReadsDone :: "'h \<Rightarrow> 'c \<Rightarrow> 'h \<times> 'c \<times> 'm handler_action list"
  hc_OnFinish :: "'h \<Rightarrow> 'c \<Rightarrow> 'h \<times> 'c \<times> 'm handler_action list"

record ('m, 'h, 'c) RpcHandlerInfo =
  request_descriptor :: "'m Descriptor"
  response_descriptor :: "'m Descriptor"
  handler_class :: "('m, 'h, 'c) HandlerClass"
  rpc_type :: RpcType
  fully_qualified_name :: string

section \<open>RPC objects\<close>

record 'm SendItem =
  si_msg :: "'m option"
  si_status :: Status

record ('m, 'h, 'c) Rpc =
  method_index :: nat
  server_completion_queue :: nat
  event_queue :: nat
  rpc_handler_info :: "('m, 'h, 'c) RpcHandlerInfo"
  service :: string
  new_connection_event :: CompletionQueueRpcEvent
  read_event :: CompletionQueueRpcEvent
  write_event :: CompletionQueueRpcEvent
  finish_event :: CompletionQueueRpcEvent
  done_event :: CompletionQueueRpcEvent
  request :: 'm
  response :: "'m option"
  handler :: "'h option"
  server_async_response_writer :: bool
  server_async_reader :: bool
  server_async_reader_writer :: bool
  server_async_writer :: bool
  send_queue :: "'m SendItem list"

section \<open>Services and the process state\<close>

text \<open>\<open>grpc_methods\<close> are the methods a service has announced to gRPC by \<open>AddMethod\<close>, in order.\<close>

record ('m, 'h, 'c) Service =
  rpc_handler_infos :: "(string \<times> ('m, 'h, 'c) RpcHandlerInfo) list"
  active_rpcs :: ActiveRpcs
  shutting_down :: bool
  grpc_methods :: "(string \<times> RpcType) list"

record ('m, 'h, 'c) world =
  heap :: "addr \<Rightarrow> ('m, 'h, 'c) Rpc option"
  next_addr :: addr
  services :: "string \<Rightarrow> ('m, 'h, 'c) Service"
  holders :: "addr list"
  num_event_threads :: nat
  current_event_queue_id :: int
  event_queues :: "nat \<Rightarrow> EventQueue"
  exec_context :: 'c
  calls :: "(addr \<times> 'm grpc_call \<times> Event) list"
  outstanding :: "(addr \<times> Event) list"
  started :: "addr list"

type_synonym ('m, 'h, 'c) wcmd = "('m, 'h, 'c) world cmd"

section \<open>Dereferencing\<close>

definition get_rpc :: "addr \<Rightarrow> ('m, 'h, 'c) world \<Rightarrow> ('m, 'h, 'c) Rpc result" where
  "get_rpc r w = (case heap w r of None \<Rightarrow> Inl (UseAfterFree r) | Some x \<Rightarrow> Inr x)"

definition put_rpc :: "addr \<Rightarrow> ('m, 'h, 'c) Rpc \<Rightarrow> ('m, 'h, 'c) world \<Rightarrow> ('m, 'h, 'c) world" where
  "put_rpc r x w = w\<lparr>heap := (heap w)(r \<mapsto> x)\<rparr>"

definition with_rpc ::
  "addr \<Rightarrow> (('m, 'h, 'c) Rpc \<Rightarrow> ('m, 'h, 'c) wcmd) \<Rightarrow> ('m, 'h, 'c) wcmd" where
  "with_rpc r f w = bind_r (get_rpc r w) (\<lambda>x. f x w)"

definition upd_rpc ::
  "addr \<Rightarrow> (('m, 'h, 'c) Rpc \<Rightarrow> ('m, 'h, 'c) Rpc) \<Rightarrow> ('m, 'h, 'c) wcmd" where
  "upd_rpc r f = with_rpc r (\<lambda>x w. Inr (put_rpc r (f x) w))"

definition deref :: "'a option \<Rightarrow> 'a result" where
  "deref p = (case p of None \<Rightarrow> Inl NullDereference | Some x \<Rightarrow> Inr x)"

lemma deref_simps [simp]:
  "deref None = Inl NullDereference"
  "deref (Some x) = Inr x"
  by (simp_all add: deref_def)

lemma with_rpc_Some [simp]: "heap w r = Some x \<Longrightarrow> with_rpc r f w = f x w"
  by (simp add: with_rpc_def get_rpc_def)

lemma with_rpc_None [simp]: "heap w r = None \<Longrightarrow> with_rpc r f w = Inl (UseAfterFree r)"
  by (simp add: with_rpc_def get_rpc_def)

lemma upd_rpc_Some [simp]: "heap w r = Some x \<Longrightarrow> upd_rpc r f w = Inr (put_rpc r (f x) w)"
  by (simp add: upd_rpc_def)

lemma put_rpc_fields [simp]:
  "heap (put_rpc r x w) = (heap w)(r \<mapsto> x)"
  "next_addr (put_rpc r x w) = next_addr w"
  "services (put_rpc r x w) = services w"
  "holders (put_rpc r x w) = holders w"
  "num_event_threads (put_rpc r x w) = num_event_threads w"
  "current_event_queue_id (put_rpc r x w) = current_event_queue_id w"
  "event_queues (put_rpc r x w) = event_queues w"
  "exec_context (put_rpc r x w) = exec_context w"
  "calls (put_rpc r x w) = calls w"
  "outstanding (put_rpc r x w) = outstanding w"
  "started (put_rpc r x w) = started w"
  by (simp_all add: put_rpc_def)

lemma put_rpc_twice [simp]: "put_rpc r y (put_rpc r x w) = put_rpc r y w"
  by (simp add: put_rpc_def)

end
