(* ===== verification/Rpc.thy ===== *)
theory Rpc
  imports Server_State
begin

text \<open>
  The class \<open>Rpc\<close> of \<open>src/async_grpc/rpc.h\<close> and \<open>rpc.cc\<close>, method by method. A method takes
  the identity of its object and changes the state; a method that only reads its object takes
  the object. The build without \<open>BUILD_TRACING\<close> is modelled, so handlers have no trace span.
\<close>

section \<open>The five events of an RPC\<close>

fun GetRpcEvent :: "Event \<Rightarrow> ('m, 'h, 'c) Rpc \<Rightarrow> CompletionQueueRpcEvent result" where
  "GetRpcEvent NEW_CONNECTION x = Inr (new_connection_event x)"
| "GetRpcEvent READ x = Inr (read_event x)"
| "GetRpcEvent WRITE_NEEDED x = Inl (LogFatal ''Rpc does not store Event::WRITE_NEEDED.'')"
| "GetRpcEvent WRITE x = Inr (write_event x)"
| "GetRpcEvent FINISH x = Inr (finish_event x)"
| "GetRpcEvent DONE x = Inr (done_event x)"

fun put_event :: "Event \<Rightarrow> CompletionQueueRpcEvent \<Rightarrow> ('m, 'h, 'c) Rpc \<Rightarrow> ('m, 'h, 'c) Rpc" where
  "put_event NEW_CONNECTION e x = x\<lparr>new_connection_event := e\<rparr>"
| "put_event READ e x = x\<lparr>read_event := e\<rparr>"
| "put_event WRITE_NEEDED e x = x"
| "put_event WRITE e x = x\<lparr>write_event := e\<rparr>"
| "put_event FINISH e x = x\<lparr>finish_event := e\<rparr>"
| "put_event DONE e x = x\<lparr>done_event := e\<rparr>"

definition GetRpcEventState :: "Event \<Rightarrow> ('m, 'h, 'c) Rpc \<Rightarrow> bool result" where
  "GetRpcEventState event x = bind_r (GetRpcEvent event x) (\<lambda>e. Inr (cqe_pending e))"

definition SetRpcEventState :: "addr \<Rightarrow> Event \<Rightarrow> bool \<Rightarrow> ('m, 'h, 'c) wcmd" where
  "SetRpcEventState r event pending = with_rpc r (\<lambda>x w.
     bind_r (GetRpcEvent event x) (\<lambda>e.
       Inr (put_rpc r (put_event event (e\<lparr>cqe_pending := pending\<rparr>) x) w)))"

definition IsRpcEventPending :: "Event \<Rightarrow> ('m, 'h, 'c) Rpc \<Rightarrow> bool result" where
  "IsRpcEventPending event x = GetRpcEventState event x"

definition IsAnyEventPending :: "('m, 'h, 'c) Rpc \<Rightarrow> bool result" where
  "IsAnyEventPending x =
     bind_r (IsRpcEventPending DONE x) (\<lambda>b. if b then Inr True else
     bind_r (IsRpcEventPending READ x) (\<lambda>b. if b then Inr True else
     bind_r (IsRpcEventPending WRITE x) (\<lambda>b. if b then Inr True else
     IsRpcEventPending FINISH x)))"

section \<open>Calls on gRPC\<close>

text \<open>A call of \<open>r\<close> on gRPC whose completion is announced with the tag \<open>GetRpcEvent(event)\<close>.\<close>

definition grpc_issue :: "addr \<Rightarrow> 'm grpc_call \<Rightarrow> Event \<Rightarrow> ('m, 'h, 'c) wcmd" where
  "grpc_issue r call event = with_rpc r (\<lambda>x w.
     bind_r (GetRpcEvent event x) (\<lambda>_.
       Inr (w\<lparr>calls := calls w @ [(r, call, event)],
              outstanding := outstanding w @ [(r, event)]\<rparr>)))"

definition streaming_interface :: "('m, 'h, 'c) Rpc \<Rightarrow> stream_object option" where
  "streaming_interface x =
     (case rpc_type (rpc_handler_info x) of
        BIDI_STREAMING \<Rightarrow> if server_async_reader_writer x then Some ReaderWriter else None
      | CLIENT_STREAMING \<Rightarrow> if server_async_reader x then Some Reader else None
      | NORMAL_RPC \<Rightarrow> if server_async_response_writer x then Some ResponseWriter else None
      | SERVER_STREAMING \<Rightarrow> if server_async_writer x then Some StreamWriter else None)"

definition async_reader_interface :: "('m, 'h, 'c) Rpc \<Rightarrow> stream_object option result" where
  "async_reader_interface x =
     (case rpc_type (rpc_handler_info x) of
        BIDI_STREAMING \<Rightarrow> Inr (if server_async_reader_writer x then Some ReaderWriter else None)
      | CLIENT_STREAMING \<Rightarrow> Inr (if server_async_reader x then Some Reader else None)
      | NORMAL_RPC \<Rightarrow>
          Inl (LogFatal ''For NORMAL_RPC no streaming reader interface exists.'')
      | SERVER_STREAMING \<Rightarrow>
          Inl (LogFatal ''For SERVER_STREAMING no streaming reader interface exists.''))"

definition async_writer_interface :: "('m, 'h, 'c) Rpc \<Rightarrow> stream_object option result" where
  "async_writer_interface x =
     (case rpc_type (rpc_handler_info x) of
        BIDI_STREAMING \<Rightarrow> Inr (if server_async_reader_writer x then Some ReaderWriter else None)
      | CLIENT_STREAMING \<Rightarrow> Inl (LogFatal
          ''For NORMAL_RPC and CLIENT_STREAMING no streaming writer interface exists.'')
      | NORMAL_RPC \<Rightarrow> Inl (LogFatal
          ''For NORMAL_RPC and CLIENT_STREAMING no streaming writer interface exists.'')
      | SERVER_STREAMING \<Rightarrow> Inr (if server_async_writer x then Some StreamWriter else None))"

section \<open>Construction\<close>

definition InitializeReadersAndWriters :: "RpcType \<Rightarrow> ('m, 'h, 'c) Rpc \<Rightarrow> ('m, 'h, 'c) Rpc" where
  "InitializeReadersAndWriters type x =
     (case type of
        BIDI_STREAMING \<Rightarrow> x\<lparr>server_async_reader_writer := True\<rparr>
      | CLIENT_STREAMING \<Rightarrow> x\<lparr>server_async_reader := True\<rparr>
      | NORMAL_RPC \<Rightarrow> x\<lparr>server_async_response_writer := True\<rparr>
      | SERVER_STREAMING \<Rightarrow> x\<lparr>server_async_writer := True\<rparr>)"

text \<open>The constructor; \<open>r\<close> is the identity of the object under construction.\<close>

definition new_Rpc ::
  "addr \<Rightarrow> nat \<Rightarrow> nat \<Rightarrow> nat \<Rightarrow> ('m, 'h, 'c) RpcHandlerInfo \<Rightarrow> string \<Rightarrow> ('m, 'h, 'c) Rpc" where
  "new_Rpc r index cq q info svc =
     InitializeReadersAndWriters (rpc_type info)
      \<lparr>method_index = index, server_completion_queue = cq, event_queue = q,
       rpc_handler_info = info, service = svc,
       new_connection_event = new_CompletionQueueRpcEvent NEW_CONNECTION r,
       read_event = new_CompletionQueueRpcEvent READ r,
       write_event = new_CompletionQueueRpcEvent WRITE r,
       finish_event = new_CompletionQueueRpcEvent FINISH r,
       done_event = new_CompletionQueueRpcEvent DONE r,
       request = prototype (request_descriptor info),
       response = Some (prototype (response_descriptor info)),
       handler = None,
       server_async_response_writer = False, server_async_reader = False,
       server_async_reader_writer = False, server_async_writer = False,
       send_queue = []\<rparr>"

definition Clone :: "addr \<Rightarrow> ('m, 'h, 'c) Rpc \<Rightarrow> ('m, 'h, 'c) Rpc" where
  "Clone r x = new_Rpc r (method_index x) (server_completion_queue x) (event_queue x)
     (rpc_handler_info x) (service x)"

definition SetEventQueue :: "nat \<Rightarrow> ('m, 'h, 'c) Rpc \<Rightarrow> ('m, 'h, 'c) Rpc" where
  "SetEventQueue q x = x\<lparr>event_queue := q\<rparr>"

section \<open>Sending\<close>

text \<open>Pushing onto an event queue; the queues of the server are unbounded.\<close>

definition push_event :: "nat \<Rightarrow> UniqueEventPtr \<Rightarrow> ('m, 'h, 'c) wcmd" where
  "push_event q e w =
     (case Push e (event_queues w q) of
        None \<Rightarrow> Inl Blocked
      | Some bq \<Rightarrow> Inr (w\<lparr>event_queues := (event_queues w)(q := bq)\<rparr>))"

definition Rpc_GetWeakPtr :: "addr \<Rightarrow> ('m, 'h, 'c) world \<Rightarrow> addr result" where
  "Rpc_GetWeakPtr r w = bind_r (get_rpc r w) (\<lambda>x.
     ActiveRpcs_GetWeakPtr r (active_rpcs (services w (service x))))"

definition EnqueueMessage :: "addr \<Rightarrow> 'm SendItem \<Rightarrow> ('m, 'h, 'c) wcmd" where
  "EnqueueMessage r item = upd_rpc r (\<lambda>x. x\<lparr>send_queue := send_queue x @ [item]\<rparr>)"

definition push_write_needed :: "addr \<Rightarrow> ('m, 'h, 'c) wcmd" where
  "push_write_needed r w = bind_r (Rpc_GetWeakPtr r w) (\<lambda>weak.
     with_rpc r (\<lambda>x. push_event (event_queue x) (InternalEvent WRITE_NEEDED weak, DELETE)) w)"

definition Rpc_Write :: "addr \<Rightarrow> 'm \<Rightarrow> ('m, 'h, 'c) wcmd" where
  "Rpc_Write r message = block
     [EnqueueMessage r \<lparr>si_msg = Some message, si_status = Status_OK\<rparr>,
      push_write_needed r]"

definition Rpc_Finish :: "addr \<Rightarrow> Status \<Rightarrow> ('m, 'h, 'c) wcmd" where
  "Rpc_Finish r status = block
     [EnqueueMessage r \<lparr>si_msg = None, si_status = status\<rparr>,
      push_write_needed r]"

definition SendUnaryFinish ::
  "addr \<Rightarrow> stream_object \<Rightarrow> Status \<Rightarrow> 'm option \<Rightarrow> ('m, 'h, 'c) wcmd" where
  "SendUnaryFinish r reader_writer status msg =
     (case msg of
        Some m \<Rightarrow> grpc_issue r (FinishMessage reader_writer m status) FINISH
      | None \<Rightarrow> grpc_issue r (FinishWithError reader_writer status) FINISH)"

definition PerformFinish :: "addr \<Rightarrow> 'm option \<Rightarrow> Status \<Rightarrow> ('m, 'h, 'c) wcmd" where
  "PerformFinish r message status = block
     [SetRpcEventState r FINISH True,
      with_rpc r (\<lambda>x.
        case rpc_type (rpc_handler_info x) of
          BIDI_STREAMING \<Rightarrow> (\<lambda>w. check (message = None) ''!message''
            (bind_r (deref (if server_async_reader_writer x then Some ReaderWriter else None)) (\<lambda>s.
               grpc_issue r (FinishStatus s status) FINISH w)))
        | CLIENT_STREAMING \<Rightarrow> block
            [upd_rpc r (\<lambda>x. x\<lparr>response := message\<rparr>),
             with_rpc r (\<lambda>x w.
               bind_r (deref (if server_async_reader x then Some Reader else None)) (\<lambda>s.
                 SendUnaryFinish r s status (response x) w))]
        | NORMAL_RPC \<Rightarrow> block
            [upd_rpc r (\<lambda>x. x\<lparr>response := message\<rparr>),
             with_rpc r (\<lambda>x w.
               bind_r (deref (if server_async_response_writer x then Some ResponseWriter else None)) (\<lambda>s.
                 SendUnaryFinish r s status (response x) w))]
        | SERVER_STREAMING \<Rightarrow> (\<lambda>w. check (message = None) ''!message''
            (bind_r (deref (if server_async_writer x then Some StreamWriter else None)) (\<lambda>s.
               grpc_issue r (FinishStatus s status) FINISH w))))]"

definition PerformWrite :: "addr \<Rightarrow> 'm option \<Rightarrow> Status \<Rightarrow> ('m, 'h, 'c) wcmd" where
  "PerformWrite r message status = with_rpc r (\<lambda>x w.
     check (message \<noteq> None) ''PerformWrite must be called with a non-null message''
     (check (rpc_type (rpc_handler_info x) \<noteq> NORMAL_RPC) ''rpc_type != NORMAL_RPC''
     (check (rpc_type (rpc_handler_info x) \<noteq> CLIENT_STREAMING) ''rpc_type != CLIENT_STREAMING''
     (block
       [SetRpcEventState r WRITE True,
        upd_rpc r (\<lambda>x. x\<lparr>response := message\<rparr>),
        with_rpc r (\<lambda>x w.
          bind_r (async_writer_interface x) (\<lambda>p.
          bind_r (deref p) (\<lambda>s.
          bind_r (deref (response x)) (\<lambda>m. grpc_issue r (WriteCall s m) WRITE w))))] w))))"

definition HandleSendQueue :: "addr \<Rightarrow> ('m, 'h, 'c) wcmd" where
  "HandleSendQueue r = with_rpc r (\<lambda>x w.
     case send_queue x of
       [] \<Rightarrow> Inr w
     | send_item # rest \<Rightarrow>
         bind_r (IsRpcEventPending WRITE x) (\<lambda>writing.
         bind_r (IsRpcEventPending FINISH x) (\<lambda>finishing.
           if writing \<or> finishing then Inr w
           else block
             [upd_rpc r (\<lambda>x. x\<lparr>send_queue := rest\<rparr>),
              (if si_msg send_item = None \<or>
                  rpc_type (rpc_handler_info x) = NORMAL_RPC \<or>
                  rpc_type (rpc_handler_info x) = CLIENT_STREAMING
               then PerformFinish r (si_msg send_item) (si_status send_item)
               else PerformWrite r (si_msg send_item) (si_status send_item))] w)))"

section \<open>Calling the handler\<close>

fun do_action :: "addr \<Rightarrow> 'm handler_action \<Rightarrow> ('m, 'h, 'c) wcmd" where
  "do_action r (Act_Send m) = Rpc_Write r m"
| "do_action r (Act_Finish status) = Rpc_Finish r status"
| "do_action r Act_GetWriter = (\<lambda>w. bind_r (Rpc_GetWeakPtr r w) (\<lambda>_. Inr w))"

definition run_actions :: "addr \<Rightarrow> 'm handler_action list \<Rightarrow> ('m, 'h, 'c) wcmd" where
  "run_actions r acts = block (map (do_action r) acts)"

definition call_handler ::
  "addr \<Rightarrow> (('m, 'h, 'c) Rpc \<Rightarrow> 'h \<Rightarrow> 'c \<Rightarrow> 'h \<times> 'c \<times> 'm handler_action list) \<Rightarrow>
   ('m, 'h, 'c) wcmd" where
  "call_handler r method = with_rpc r (\<lambda>x w.
     bind_r (deref (handler x)) (\<lambda>h.
       case method x h (exec_context w) of (h', c', acts) \<Rightarrow>
         block
           [upd_rpc r (\<lambda>x. x\<lparr>handler := Some h'\<rparr>),
            (\<lambda>w. Inr (w\<lparr>exec_context := c'\<rparr>)),
            run_actions r acts] w))"

definition OnRequest :: "addr \<Rightarrow> ('m, 'h, 'c) wcmd" where
  "OnRequest r = call_handler r (\<lambda>x h c.
     hc_OnRequest (handler_class (rpc_handler_info x)) h c (request x))"

definition OnReadsDone :: "addr \<Rightarrow> ('m, 'h, 'c) wcmd" where
  "OnReadsDone r = call_handler r (\<lambda>x. hc_OnReadsDone (handler_class (rpc_handler_info x)))"

definition OnFinish :: "addr \<Rightarrow> ('m, 'h, 'c) wcmd" where
  "OnFinish r = call_handler r (\<lambda>x. hc_OnFinish (handler_class (rpc_handler_info x)))"

section \<open>Requesting work from gRPC\<close>

definition RequestStreamingReadIfNeeded :: "addr \<Rightarrow> ('m, 'h, 'c) wcmd" where
  "RequestStreamingReadIfNeeded r =
     (let read = block
        [SetRpcEventState r READ True,
         with_rpc r (\<lambda>x w. bind_r (async_reader_interface x) (\<lambda>p.
           bind_r (deref p) (\<lambda>s. grpc_issue r (ReadCall s) READ w)))]
      in with_rpc r (\<lambda>x.
        case rpc_type (rpc_handler_info x) of
          BIDI_STREAMING \<Rightarrow> read
        | CLIENT_STREAMING \<Rightarrow> read
        | NORMAL_RPC \<Rightarrow> block [OnRequest r, OnReadsDone r]
        | SERVER_STREAMING \<Rightarrow> block [OnRequest r, OnReadsDone r]))"

definition OnConnection :: "addr \<Rightarrow> ('m, 'h, 'c) wcmd" where
  "OnConnection r = block
     [with_rpc r (\<lambda>x w.
        case handler x of
          Some _ \<Rightarrow> Inr w
        | None \<Rightarrow>
           (case hc_Initialize (handler_class (rpc_handler_info x)) (exec_context w) of
              (h, c, acts) \<Rightarrow> block
                [(\<lambda>w. Inr (w\<lparr>exec_context := c\<rparr>)),
                 run_actions r acts,
                 upd_rpc r (\<lambda>x. x\<lparr>handler := Some h\<rparr>)] w)),
      RequestStreamingReadIfNeeded r]"

definition RequestNextMethodInvocation :: "addr \<Rightarrow> ('m, 'h, 'c) wcmd" where
  "RequestNextMethodInvocation r = block
     [SetRpcEventState r DONE True,
      grpc_issue r AsyncNotifyWhenDone DONE,
      SetRpcEventState r NEW_CONNECTION True,
      with_rpc r (\<lambda>x.
        let i = method_index x; s = streaming_interface x; cq = server_completion_queue x in
        case rpc_type (rpc_handler_info x) of
          BIDI_STREAMING \<Rightarrow> grpc_issue r (RequestAsyncBidiStreaming i s cq) NEW_CONNECTION
        | CLIENT_STREAMING \<Rightarrow> grpc_issue r (RequestAsyncClientStreaming i s cq) NEW_CONNECTION
        | NORMAL_RPC \<Rightarrow> grpc_issue r (RequestAsyncUnary i s cq) NEW_CONNECTION
        | SERVER_STREAMING \<Rightarrow>
            grpc_issue r (RequestAsyncServerStreaming i s cq) NEW_CONNECTION)]"

end
