(* ===== verification/Service.thy ===== *)
theory Service
  imports Rpc
begin

text \<open>
  The class \<open>Service\<close> of \<open>src/async_grpc/service.h\<close> and \<open>service.cc\<close>: routing of events to
  their RPC and the lifetime of RPC objects. The event queue selector a service is given is
  \<open>Server::SelectNextEventQueueRoundRobin\<close> of \<open>server.cc\<close>, modelled here beside its caller.
\<close>

section \<open>Construction\<close>

definition new_Service ::
  "(string \<times> ('m, 'h, 'c) RpcHandlerInfo) list \<Rightarrow> ('m, 'h, 'c) Service" where
  "new_Service infos =
     \<lparr>rpc_handler_infos = infos, active_rpcs = new_ActiveRpcs, shutting_down = False,
      grpc_methods = map (\<lambda>(_, info). (fully_qualified_name info, rpc_type info)) infos\<rparr>"

section \<open>Choosing an event queue\<close>

definition SelectNextEventQueueRoundRobin ::
  "('m, 'h, 'c) world \<Rightarrow> (nat \<times> ('m, 'h, 'c) world) result" where
  "SelectNextEventQueueRoundRobin w =
     (let next = current_event_queue_id w + 1 in
      if \<not> in_int32 next then Inl SignedOverflow
      else if num_event_threads w = 0 then Inl DivisionByZero
      else let i = to_int32 (next mod 2 ^ 64 mod int (num_event_threads w));
               w' = w\<lparr>current_event_queue_id := i\<rparr> in
        if 0 \<le> i \<and> i < int (num_event_threads w) then Inr (nat i, w')
        else Inl OutOfRange)"

section \<open>Object lifetime\<close>

definition set_active :: "string \<Rightarrow> ActiveRpcs \<Rightarrow> ('m, 'h, 'c) world \<Rightarrow> ('m, 'h, 'c) world" where
  "set_active s a w = w\<lparr>services := (services w)(s := (services w s)\<lparr>active_rpcs := a\<rparr>)\<rparr>"

text \<open>\<open>active_rpcs_.Remove(rpc)\<close>: the object is destroyed unless somebody else still owns it.\<close>

definition remove_rpc :: "string \<Rightarrow> addr \<Rightarrow> ('m, 'h, 'c) wcmd" where
  "remove_rpc s r w =
     (case ActiveRpcs_Remove r (active_rpcs (services w s)) of (removed, a) \<Rightarrow>
        Inr ((set_active s a w)\<lparr>heap :=
          (if removed \<and> r \<notin> set (holders w) then (heap w)(r := None) else heap w)\<rparr>))"

text \<open>\<open>active_rpcs_.Add(std::move(new_rpc))\<close> of an object built by \<open>mk\<close> at a fresh identity.\<close>

definition add_rpc ::
  "string \<Rightarrow> (addr \<Rightarrow> ('m, 'h, 'c) Rpc) \<Rightarrow> ('m, 'h, 'c) world \<Rightarrow>
   (addr \<times> ('m, 'h, 'c) world) result" where
  "add_rpc s mk w =
     (let r = next_addr w in
      bind_r (ActiveRpcs_Add r (active_rpcs (services w s))) (\<lambda>a.
        Inr (r, set_active s a (w\<lparr>heap := (heap w)(r \<mapsto> mk r), next_addr := Suc r\<rparr>))))"

definition RemoveIfNotPending :: "string \<Rightarrow> addr \<Rightarrow> ('m, 'h, 'c) wcmd" where
  "RemoveIfNotPending s r = with_rpc r (\<lambda>x w.
     bind_r (IsAnyEventPending x) (\<lambda>pending. if \<not> pending then remove_rpc s r w else Inr w))"

section \<open>Serving\<close>

text \<open>One iteration of the inner loop of \<open>StartServing\<close>, then its two loops.\<close>

definition StartServing_one ::
  "string \<Rightarrow> nat \<Rightarrow> ('m, 'h, 'c) RpcHandlerInfo \<Rightarrow> nat \<Rightarrow> ('m, 'h, 'c) wcmd" where
  "StartServing_one s i info cq w =
     bind_r (SelectNextEventQueueRoundRobin w) (\<lambda>(q, w).
     bind_r (add_rpc s (\<lambda>r. new_Rpc r i cq q info s) w) (\<lambda>(r, w).
     RequestNextMethodInvocation r w))"

fun StartServing_methods ::
  "string \<Rightarrow> nat list \<Rightarrow> nat \<Rightarrow> (string \<times> ('m, 'h, 'c) RpcHandlerInfo) list \<Rightarrow> ('m, 'h, 'c) wcmd"
where
  "StartServing_methods s cqs i [] w = Inr w"
| "StartServing_methods s cqs i (info # infos) w =
     bind_r (block (map (StartServing_one s i (snd info)) cqs) w)
       (StartServing_methods s cqs (Suc i) infos)"

definition StartServing :: "string \<Rightarrow> nat list \<Rightarrow> ('m, 'h, 'c) wcmd" where
  "StartServing s completion_queues w =
     StartServing_methods s completion_queues 0 (rpc_handler_infos (services w s)) w"

definition StopServing :: "string \<Rightarrow> ('m, 'h, 'c) wcmd" where
  "StopServing s w =
     Inr (w\<lparr>services := (services w)(s := (services w s)\<lparr>shutting_down := True\<rparr>)\<rparr>)"

section \<open>Event handlers\<close>

definition HandleNewConnection :: "string \<Rightarrow> addr \<Rightarrow> bool \<Rightarrow> ('m, 'h, 'c) wcmd" where
  "HandleNewConnection s r ok w =
     (if shutting_down (services w s) then remove_rpc s r w
      else block
        [(if \<not> ok then remove_rpc s r else Inr),
         (if ok then OnConnection r else Inr),
         (\<lambda>w. bind_r (get_rpc r w) (\<lambda>x.
            bind_r (SelectNextEventQueueRoundRobin w) (\<lambda>(q, w).
            bind_r (add_rpc s (\<lambda>r'. SetEventQueue q (Clone r' x)) w) (\<lambda>(r', w).
            RequestNextMethodInvocation r' w))))] w)"

definition HandleRead :: "string \<Rightarrow> addr \<Rightarrow> bool \<Rightarrow> ('m, 'h, 'c) wcmd" where
  "HandleRead s r ok =
     (if ok then block [OnRequest r, RequestStreamingReadIfNeeded r]
      else block [OnReadsDone r, RemoveIfNotPending s r])"

definition HandleWrite :: "string \<Rightarrow> addr \<Rightarrow> bool \<Rightarrow> ('m, 'h, 'c) wcmd" where
  "HandleWrite s r ok = block [HandleSendQueue r, RemoveIfNotPending s r]"

definition HandleFinish :: "string \<Rightarrow> addr \<Rightarrow> bool \<Rightarrow> ('m, 'h, 'c) wcmd" where
  "HandleFinish s r ok = block [OnFinish r, RemoveIfNotPending s r]"

definition HandleDone :: "string \<Rightarrow> addr \<Rightarrow> bool \<Rightarrow> ('m, 'h, 'c) wcmd" where
  "HandleDone s r ok = RemoveIfNotPending s r"

fun HandleEvent :: "string \<Rightarrow> Event \<Rightarrow> addr \<Rightarrow> bool \<Rightarrow> ('m, 'h, 'c) wcmd" where
  "HandleEvent s NEW_CONNECTION r ok = HandleNewConnection s r ok"
| "HandleEvent s READ r ok = HandleRead s r ok"
| "HandleEvent s WRITE_NEEDED r ok = HandleWrite s r ok"
| "HandleEvent s WRITE r ok = HandleWrite s r ok"
| "HandleEvent s FINISH r ok = HandleFinish s r ok"
| "HandleEvent s DONE r ok = HandleDone s r ok"

end
