(* ===== verification/Event_Loop.thy ===== *)
theory Event_Loop
  imports Service
begin

text \<open>
  What the server's threads do. A completion queue thread takes a finished operation from gRPC
  and passes its event on (\<open>Server::RunCompletionQueue\<close>), an event thread takes one event from
  its queue and handles it (\<open>Server::RunEventQueue\<close> and the two \<open>Handle\<close> methods of
  \<open>rpc.cc\<close>), and any thread may use a \<open>Writer\<close> (\<open>rpc_handler.h\<close>). \<open>exec\<close> is one such
  step; \<open>enabled\<close> says which steps the environment may take:
  \<^item> gRPC announces an operation only after it was requested and once, and it announces the end
    of a call (\<open>DONE\<close>) only for a call that has started, which is what a successful
    \<open>NEW_CONNECTION\<close> says;
  \<^item> a \<open>Writer\<close> is obtained from a handler, so it exists only for an RPC whose handler does.
\<close>

section \<open>Strong references of local variables\<close>

definition owned :: "addr \<Rightarrow> ('m, 'h, 'c) world \<Rightarrow> bool" where
  "owned r w \<longleftrightarrow> (case heap w r of None \<Rightarrow> False
     | Some x \<Rightarrow> map_of (rpcs (active_rpcs (services w (service x)))) r \<noteq> None)"

definition hold :: "addr \<Rightarrow> ('m, 'h, 'c) world \<Rightarrow> ('m, 'h, 'c) world" where
  "hold r w = w\<lparr>holders := r # holders w\<rparr>"

definition release :: "addr \<Rightarrow> ('m, 'h, 'c) world \<Rightarrow> ('m, 'h, 'c) world" where
  "release r w =
     (let hs = remove1 r (holders w) in
      w\<lparr>holders := hs,
        heap := (if owned r w \<or> r \<in> set hs then heap w else (heap w)(r := None))\<rparr>)"

section \<open>Handling one event\<close>

definition CompletionQueueRpcEvent_Handle :: "addr \<Rightarrow> Event \<Rightarrow> ('m, 'h, 'c) wcmd" where
  "CompletionQueueRpcEvent_Handle r event = block
     [SetRpcEventState r event False,
      with_rpc r (\<lambda>x w. bind_r (GetRpcEvent event x) (\<lambda>e.
        HandleEvent (service x) (cqe_event e) (cqe_rpc_ptr e) (cqe_ok e) w))]"

definition InternalRpcEvent_Handle :: "Event \<Rightarrow> addr \<Rightarrow> ('m, 'h, 'c) wcmd" where
  "InternalRpcEvent_Handle event r w =
     (if heap w r \<noteq> None
      then bind_r (with_rpc r (\<lambda>x. HandleEvent (service x) event r True) (hold r w))
             (\<lambda>w. Inr (release r w))
      else Inr w)"

fun Handle :: "event_ptr \<Rightarrow> ('m, 'h, 'c) wcmd" where
  "Handle (CqEvent r event) = CompletionQueueRpcEvent_Handle r event"
| "Handle (InternalEvent event r) = InternalRpcEvent_Handle event r"

text \<open>One round of the loop of \<open>RunEventQueue\<close>: nothing happens when the wait times out.\<close>

definition RunEventQueue_step :: "nat \<Rightarrow> ('m, 'h, 'c) wcmd" where
  "RunEventQueue_step q w =
     (case PopWithTimeout (event_queues w q) of
        (None, bq) \<Rightarrow> Inr w
      | (Some (e, action), bq) \<Rightarrow> Handle e (w\<lparr>event_queues := (event_queues w)(q := bq)\<rparr>))"

section \<open>Taking an event from gRPC\<close>

definition PushToEventQueue :: "addr \<Rightarrow> Event \<Rightarrow> ('m, 'h, 'c) wcmd" where
  "PushToEventQueue r event =
     with_rpc r (\<lambda>x. push_event (event_queue x) (CqEvent r event, DO_NOT_DELETE))"

text \<open>The body of the loop of \<open>RunCompletionQueue\<close> for the tag of event \<open>event\<close> of \<open>r\<close>.\<close>

definition RunCompletionQueue_step :: "addr \<Rightarrow> Event \<Rightarrow> bool \<Rightarrow> ('m, 'h, 'c) wcmd" where
  "RunCompletionQueue_step r event ok = block
     [with_rpc r (\<lambda>x w. bind_r (GetRpcEvent event x) (\<lambda>e.
        Inr (put_rpc r (put_event event (e\<lparr>cqe_ok := ok\<rparr>) x) w))),
      PushToEventQueue r event]"

text \<open>
  gRPC's side of an announcement: the operation is no longer outstanding, a successful
  \<open>NEW_CONNECTION\<close> starts the call, and a received request has been parsed into the buffer the
  program passed for it (by \<open>Read\<close>, and by the request call of a method with a single request).
\<close>

definition receives_request :: "('m, 'h, 'c) Rpc \<Rightarrow> Event \<Rightarrow> bool" where
  "receives_request x event \<longleftrightarrow>
     event = READ \<or>
     event = NEW_CONNECTION \<and> rpc_type (rpc_handler_info x) \<in> {NORMAL_RPC, SERVER_STREAMING}"

definition grpc_announce :: "addr \<Rightarrow> Event \<Rightarrow> bool \<Rightarrow> 'm \<Rightarrow> ('m, 'h, 'c) world \<Rightarrow> ('m, 'h, 'c) world" where
  "grpc_announce r event ok m w =
     w\<lparr>outstanding := remove1 (r, event) (outstanding w),
       started := (if event = NEW_CONNECTION \<and> ok then r # started w else started w),
       heap := (case heap w r of
          Some x \<Rightarrow> if ok \<and> receives_request x event
                    then (heap w)(r \<mapsto> x\<lparr>request := m\<rparr>) else heap w
        | None \<Rightarrow> heap w)\<rparr>"

section \<open>Writers\<close>

text \<open>\<open>rpc_.lock()\<close> of a \<open>Writer\<close>, the body of its three methods, and the end of their scope.\<close>

definition Writer_lock :: "addr \<Rightarrow> ('m, 'h, 'c) wcmd" where
  "Writer_lock r w = Inr (if heap w r \<noteq> None then hold r w else w)"

definition Writer_Write :: "addr \<Rightarrow> 'm \<Rightarrow> ('m, 'h, 'c) wcmd" where
  "Writer_Write r message = Rpc_Write r message"

definition Writer_WritesDone :: "addr \<Rightarrow> ('m, 'h, 'c) wcmd" where
  "Writer_WritesDone r = Rpc_Finish r Status_OK"

text \<open>\<open>Finish\<close> also asks the handler for its trace span.\<close>

definition Writer_Finish :: "addr \<Rightarrow> Status \<Rightarrow> ('m, 'h, 'c) wcmd" where
  "Writer_Finish r status = block
     [Rpc_Finish r status,
      with_rpc r (\<lambda>x w. bind_r (deref (handler x)) (\<lambda>_. Inr w))]"

text \<open>A method of a \<open>Writer\<close> that no other thread interrupts, with its result.\<close>

definition Writer_method ::
  "addr \<Rightarrow> ('m, 'h, 'c) wcmd \<Rightarrow> ('m, 'h, 'c) world \<Rightarrow> (bool \<times> ('m, 'h, 'c) world) result" where
  "Writer_method r body w =
     (if heap w r \<noteq> None
      then bind_r (body (hold r w)) (\<lambda>w. Inr (True, release r w))
      else Inr (False, w))"

section \<open>Steps of the server\<close>

datatype 'm label =
    Announce addr Event bool 'm
  | Dispatch nat
  | WriterLock addr
  | WriterWrite addr 'm
  | WriterWritesDone addr
  | WriterFinish addr Status
  | WriterRelease addr
  | Stop string

fun exec :: "'m label \<Rightarrow> ('m, 'h, 'c) wcmd" where
  "exec (Announce r event ok m) w = RunCompletionQueue_step r event ok (grpc_announce r event ok m w)"
| "exec (Dispatch q) w = RunEventQueue_step q w"
| "exec (WriterLock r) w = Writer_lock r w"
| "exec (WriterWrite r m) w = Writer_Write r m w"
| "exec (WriterWritesDone r) w = Writer_WritesDone r w"
| "exec (WriterFinish r status) w = Writer_Finish r status w"
| "exec (WriterRelease r) w = Inr (release r w)"
| "exec (Stop s) w = StopServing s w"

fun enabled :: "'m label \<Rightarrow> ('m, 'h, 'c) world \<Rightarrow> bool" where
  "enabled (Announce r event ok m) w \<longleftrightarrow>
     (r, event) \<in> set (outstanding w) \<and> (event = DONE \<longrightarrow> r \<in> set (started w))"
| "enabled (Dispatch q) w \<longleftrightarrow> True"
| "enabled (WriterLock r) w \<longleftrightarrow>
     (case heap w r of None \<Rightarrow> r < next_addr w | Some x \<Rightarrow> handler x \<noteq> None)"
| "enabled (WriterWrite r m) w \<longleftrightarrow> r \<in> set (holders w)"
| "enabled (WriterWritesDone r) w \<longleftrightarrow> r \<in> set (holders w)"
| "enabled (WriterFinish r status) w \<longleftrightarrow> r \<in> set (holders w)"
| "enabled (WriterRelease r) w \<longleftrightarrow> r \<in> set (holders w)"
| "enabled (Stop s) w \<longleftrightarrow> True"

text \<open>A run: every step is enabled; the first error ends it.\<close>

definition run :: "'m label list \<Rightarrow> ('m, 'h, 'c) world \<Rightarrow> ('m, 'h, 'c) world result option" where
  "run = run_of exec enabled"

lemma run_append: "run ls w = Some (Inr w') \<Longrightarrow> run (ls @ ls') w = run ls' w'"
  by (simp add: run_def run_of_append)

end
