(* ===== verification/Ordered_Map.thy ===== *)
theory Ordered_Map
  imports Prelude "HOL-Library.List_Lexorder" "HOL-Library.Char_ord"
begin

text \<open>
  \<open>std::map\<close> with the operations the program uses: \<open>emplace\<close>, which keeps an existing entry,
  \<open>operator[]\<close> followed by a change of the element, and iteration in the order of the keys. A
  map is the list of its entries in that order. \<open>std::string\<close> is compared character by
  character, which is the lexicographic order of \<open>List_Lexorder\<close> and \<open>Char_ord\<close>.
\<close>

fun map_emplace :: "'k::linorder \<Rightarrow> 'v \<Rightarrow> ('k \<times> 'v) list \<Rightarrow> bool \<times> ('k \<times> 'v) list" where
  "map_emplace k v [] = (True, [(k, v)])"
| "map_emplace k v ((k', v') # m) =
     (if k < k' then (True, (k, v) # (k', v') # m)
      else if k = k' then (False, (k', v') # m)
      else case map_emplace k v m of (inserted, m') \<Rightarrow> (inserted, (k', v') # m'))"

fun map_modify :: "'k::linorder \<Rightarrow> 'v \<Rightarrow> ('v \<Rightarrow> 'v) \<Rightarrow> ('k \<times> 'v) list \<Rightarrow> ('k \<times> 'v) list" where
  "map_modify k d f [] = [(k, f d)]"
| "map_modify k d f ((k', v') # m) =
     (if k < k' then (k, f d) # (k', v') # m
      else if k = k' then (k', f v') # m
      else (k', v') # map_modify k d f m)"

definition map_ok :: "('k::linorder \<times> 'v) list \<Rightarrow> bool" where
  "map_ok m \<longleftrightarrow> sorted (map fst m) \<and> distinct (map fst m)"

section \<open>The contract of a map with ordered keys\<close>

lemma map_ok_Cons:
  "map_ok ((k, v) # m) \<longleftrightarrow> map_ok m \<and> (\<forall>k'. k' \<in> fst ` set m \<longrightarrow> k < k')"
  by (auto simp: map_ok_def less_le)

lemma map_ok_Nil [simp]: "map_ok []"
  by (simp add: map_ok_def)

lemma keys_emplace: "fst ` set (snd (map_emplace k v m)) = insert k (fst ` set m)"
  by (induction k v m rule: map_emplace.induct) (simp_all add: split_def insert_commute)

lemma keys_modify: "fst ` set (map_modify k d f m) = insert k (fst ` set m)"
  by (induction k d f m rule: map_modify.induct) auto

lemma map_of_absent: "map_ok ((k', v') # m) \<Longrightarrow> k < k' \<Longrightarrow> map_of m k = None"
  by (force simp: map_ok_Cons map_of_eq_None_iff)

locale ordered_map =
  fixes emplace :: "'k::linorder \<Rightarrow> 'v \<Rightarrow> 'm \<Rightarrow> bool \<times> 'm"
    and modify :: "'k \<Rightarrow> 'v \<Rightarrow> ('v \<Rightarrow> 'v) \<Rightarrow> 'm \<Rightarrow> 'm"
    and lookup :: "'m \<Rightarrow> 'k \<Rightarrow> 'v option"
    and entries :: "'m \<Rightarrow> ('k \<times> 'v) list"
    and ok :: "'m \<Rightarrow> bool"
  assumes emplace_new: "ok m \<Longrightarrow> fst (emplace k v m) \<longleftrightarrow> lookup m k = None"
    and emplace_lookup: "ok m \<Longrightarrow> lookup (snd (emplace k v m)) k' =
      (if k' = k \<and> lookup m k = None then Some v else lookup m k')"
    and modify_lookup: "ok m \<Longrightarrow> lookup (modify k d f m) k' =
      (if k' = k then Some (f (case lookup m k of None \<Rightarrow> d | Some v \<Rightarrow> v)) else lookup m k')"
    and emplace_ok: "ok m \<Longrightarrow> ok (snd (emplace k v m))"
    and modify_ok: "ok m \<Longrightarrow> ok (modify k d f m)"
    and entries_lookup: "ok m \<Longrightarrow> (k, v) \<in> set (entries m) \<longleftrightarrow> lookup m k = Some v"
    and entries_sorted: "ok m \<Longrightarrow> sorted (map fst (entries m)) \<and> distinct (map fst (entries m))"
begin

lemma emplace_again: "ok m \<Longrightarrow> \<not> fst (emplace k v' (snd (emplace k v m)))"
  by (simp add: emplace_new emplace_ok emplace_lookup)

lemma emplace_entry: "ok m \<Longrightarrow> \<exists>v'. (k, v') \<in> set (entries (snd (emplace k v m)))"
  by (auto simp: entries_lookup emplace_ok emplace_lookup)

end

lemma emplace_result: "map_ok m \<Longrightarrow> fst (map_emplace k v m) \<longleftrightarrow> map_of m k = None"
proof (induction k v m rule: map_emplace.induct)
  case (2 k v k' v' m)
  then show ?case using map_of_absent [of k' v' m k] by (auto simp: map_ok_Cons split: prod.splits)
qed simp

lemma map_of_emplace:
  "map_ok m \<Longrightarrow> map_of (snd (map_emplace k v m)) k' =
     (if k' = k \<and> map_of m k = None then Some v else map_of m k')"
proof (induction k v m rule: map_emplace.induct)
  case (2 k v k1 v1 m)
  then show ?case using map_of_absent [of k1 v1 m k] by (auto simp: map_ok_Cons split: prod.splits)
qed simp

lemma map_of_modify:
  "map_ok m \<Longrightarrow> map_of (map_modify k d f m) k' =
     (if k' = k then Some (f (case map_of m k of None \<Rightarrow> d | Some v \<Rightarrow> v)) else map_of m k')"
proof (induction k d f m rule: map_modify.induct)
  case (2 k d f k1 v1 m)
  then show ?case using map_of_absent [of k1 v1 m k] by (auto simp: map_ok_Cons)
qed simp

lemma map_ok_emplace: "map_ok m \<Longrightarrow> map_ok (snd (map_emplace k v m))"
proof (induction k v m rule: map_emplace.induct)
  case (2 k v k' v' m)
  then show ?case using keys_emplace [of k v m] by (simp add: map_ok_Cons split_def less_le) (meson less_le linorder_not_less order_trans)
qed (simp add: map_ok_def)

lemma map_ok_modify: "map_ok m \<Longrightarrow> map_ok (map_modify k d f m)"
proof (induction k d f m rule: map_modify.induct)
  case (2 k d f k' v' m)
  then show ?case using keys_modify [of k d f m] by (simp add: map_ok_Cons less_le) (meson less_le linorder_not_less order_trans)
qed (simp add: map_ok_def)

interpretation om: ordered_map map_emplace map_modify map_of "\<lambda>m. m" map_ok
  by unfold_locales
    (simp_all add: emplace_result map_of_emplace map_of_modify map_ok_emplace map_ok_modify,
     simp_all add: map_ok_def)

end
