(* ===== verification/Threads.thy ===== *)
theory Threads
  imports Prelude
begin

text \<open>
  The thread objects of \<open>src/async_grpc/completion_queue_thread.cc\<close> and \<open>event_queue_thread.cc\<close>.
  A \<open>std::thread\<close> behind its unique pointer is \<open>None\<close> before it is made, then joinable, then
  joined; joining it twice throws, and destroying it while it is joinable ends the process. The
  queue of a thread is its number. What the threads run are the steps of \<open>Event_Loop\<close>.

  \<open>thread_owner\<close> is the contract the objects share: start once, shut down once after that.
\<close>

section \<open>Threads of the standard library\<close>

datatype std_thread = Joinable | Joined

definition join :: "std_thread option \<Rightarrow> std_thread option result" where
  "join t = (case t of None \<Rightarrow> Inl NullDereference
     | Some Joined \<Rightarrow> Inl SystemError | Some Joinable \<Rightarrow> Inr (Some Joined))"

definition thread_destroy :: "std_thread option \<Rightarrow> unit result" where
  "thread_destroy t = (if t = Some Joinable then Inl Terminate else Inr ())"

text \<open>A loop over a vector of objects that changes each of them and stops at the first error.\<close>

fun for_each :: "('a \<Rightarrow> 'a result) \<Rightarrow> 'a list \<Rightarrow> 'a list result" where
  "for_each f [] = Inr []"
| "for_each f (t # ts) = bind_r (f t) (\<lambda>t'. bind_r (for_each f ts) (\<lambda>ts'. Inr (t' # ts')))"

section \<open>Completion queue threads\<close>

record CompletionQueueThread =
  cqt_completion_queue :: nat
  cqt_queue_shut_down :: bool
  worker_thread :: "std_thread option"

definition new_CompletionQueueThread :: "nat \<Rightarrow> CompletionQueueThread" where
  "new_CompletionQueueThread q =
     \<lparr>cqt_completion_queue = q, cqt_queue_shut_down = False, worker_thread = None\<rparr>"

definition completion_queue :: "CompletionQueueThread \<Rightarrow> nat" where
  "completion_queue t = cqt_completion_queue t"

definition CompletionQueueThread_Start :: "CompletionQueueThread \<Rightarrow> CompletionQueueThread result" where
  "CompletionQueueThread_Start t =
     check (worker_thread t = None) ''!worker_thread_'' (Inr (t\<lparr>worker_thread := Some Joinable\<rparr>))"

definition CompletionQueueThread_Shutdown :: "CompletionQueueThread \<Rightarrow> CompletionQueueThread result" where
  "CompletionQueueThread_Shutdown t =
     (let t = t\<lparr>cqt_queue_shut_down := True\<rparr> in
      bind_r (join (worker_thread t)) (\<lambda>th. Inr (t\<lparr>worker_thread := th\<rparr>)))"

section \<open>Event queue threads\<close>

record EventQueueThread =
  eqt_event_queue :: nat
  eqt_thread :: "std_thread option"

definition new_EventQueueThread :: "nat \<Rightarrow> EventQueueThread" where
  "new_EventQueueThread q = \<lparr>eqt_event_queue = q, eqt_thread = None\<rparr>"

definition EventQueueThread_Start :: "EventQueueThread \<Rightarrow> EventQueueThread result" where
  "EventQueueThread_Start t =
     check (eqt_thread t = None) ''!thread_'' (Inr (t\<lparr>eqt_thread := Some Joinable\<rparr>))"

definition EventQueueThread_Shutdown :: "EventQueueThread \<Rightarrow> EventQueueThread result" where
  "EventQueueThread_Shutdown t = bind_r (join (eqt_thread t)) (\<lambda>th. Inr (t\<lparr>eqt_thread := th\<rparr>))"

section \<open>What the objects promise\<close>

locale thread_owner =
  fixes start shutdown :: "'t \<Rightarrow> 't result" and thr :: "'t \<Rightarrow> std_thread option"
    and with_thread :: "std_thread \<Rightarrow> 't \<Rightarrow> 't" and stopped :: "'t \<Rightarrow> 't"
  assumes start_iff: "start t = Inr t' \<longleftrightarrow> thr t = None \<and> t' = with_thread Joinable t"
    and shutdown_iff: "shutdown t = Inr t' \<longleftrightarrow> thr t = Some Joinable \<and> t' = stopped t"
    and thr_with: "thr (with_thread th t) = Some th"
    and thr_stopped: "thr (stopped t) = Some Joined"
begin

lemma start_new: "list_all (\<lambda>t. thr t = None) ts \<Longrightarrow> for_each start ts = Inr (map (with_thread Joinable) ts)"
proof (induction ts)
  case (Cons t ts)
  then have "start t = Inr (with_thread Joinable t)" by (simp add: start_iff)
  with Cons show ?case by simp
qed simp

lemma shutdown_started:
  "list_all (\<lambda>t. thr t = Some Joinable) ts \<Longrightarrow> for_each shutdown ts = Inr (map stopped ts)"
proof (induction ts)
  case (Cons t ts)
  then have "shutdown t = Inr (stopped t)" by (simp add: shutdown_iff)
  with Cons show ?case by simp
qed simp

lemma start_again: "thr t \<noteq> None \<Longrightarrow> t \<in> set ts \<Longrightarrow> for_each start ts \<noteq> Inr ts'"
proof (induction ts arbitrary: ts')
  case (Cons u ts)
  then show ?case by (cases "t = u") (auto simp: bind_r_Inr_iff start_iff)
qed simp

lemma shutdown_again: "thr t \<noteq> Some Joinable \<Longrightarrow> t \<in> set ts \<Longrightarrow> for_each shutdown ts \<noteq> Inr ts'"
proof (induction ts arbitrary: ts')
  case (Cons u ts)
  then show ?case by (cases "t = u") (auto simp: bind_r_Inr_iff shutdown_iff)
qed simp

lemma destroy_stopped: "list_all (\<lambda>t. thread_destroy (thr t) = Inr ()) (map stopped ts)"
  by (simp add: list_all_iff thr_stopped thread_destroy_def)

end

interpretation ct: thread_owner CompletionQueueThread_Start CompletionQueueThread_Shutdown worker_thread
  "\<lambda>th t. t\<lparr>worker_thread := Some th\<rparr>" "\<lambda>t. t\<lparr>cqt_queue_shut_down := True, worker_thread := Some Joined\<rparr>"
  by unfold_locales
    (auto simp: CompletionQueueThread_Start_def CompletionQueueThread_Shutdown_def check_def join_def Let_def
      split: option.splits std_thread.splits)

interpretation et: thread_owner EventQueueThread_Start EventQueueThread_Shutdown eqt_thread
  "\<lambda>th t. t\<lparr>eqt_thread := Some th\<rparr>" "\<lambda>t. t\<lparr>eqt_thread := Some Joined\<rparr>"
  by unfold_locales
    (auto simp: EventQueueThread_Start_def EventQueueThread_Shutdown_def check_def join_def
      split: option.splits std_thread.splits)

lemma completion_queue_new [simp]:
  "completion_queue (new_CompletionQueueThread q) = q"
  "map (completion_queue \<circ> new_CompletionQueueThread) qs = qs"
  by (simp_all add: completion_queue_def new_CompletionQueueThread_def comp_def)

lemma start_new_threads:
  "for_each CompletionQueueThread_Start (map new_CompletionQueueThread qs) =
     Inr (map (\<lambda>q. (new_CompletionQueueThread q)\<lparr>worker_thread := Some Joinable\<rparr>) qs)"
  "for_each EventQueueThread_Start (map new_EventQueueThread qs) =
     Inr (map (\<lambda>q. (new_EventQueueThread q)\<lparr>eqt_thread := Some Joinable\<rparr>) qs)"
  by (subst ct.start_new et.start_new,
      simp_all add: list_all_iff new_CompletionQueueThread_def new_EventQueueThread_def comp_def)+

end
