(* ===== verification/Server.thy ===== *)
theory Server
  imports Complex_Main Event_Loop Ordered_Map Threads
begin

text \<open>
  The class \<open>Server\<close> of \<open>src/async_grpc/server.h\<close> and \<open>server.cc\<close> with its \<open>Builder\<close>, and the
  thread objects of \<open>completion_queue_thread.cc\<close> and \<open>event_queue_thread.cc\<close>. The loops of the
  threads are the steps of \<open>Event_Loop\<close>, except for the last loop of \<open>RunEventQueue\<close>, which is
  modelled here as a whole. The build without \<open>BUILD_TRACING\<close> is modelled.

  \<open>num_grpc_threads\<close> and \<open>num_event_threads\<close> have no default in the source: a \<open>Builder\<close>
  starts with them unset (\<open>None\<close>), and using an unset one is the error \<open>Uninitialized\<close>.
\<close>

section \<open>Options and builder\<close>

record Options =
  opt_num_grpc_threads :: "nat option"
  opt_num_event_threads :: "nat option"
  server_address :: string
  max_receive_message_size :: int
  max_send_message_size :: int
  enable_tracing :: bool
  tracing_sampler_probability :: real
  tracing_task_name :: string
  tracing_gcp_project_id :: string

definition kDefaultMaxMessageSize :: int where
  "kDefaultMaxMessageSize = 10 * 1024 * 1024"

definition kDefaultTracingSamplerProbability :: real where
  "kDefaultTracingSamplerProbability = 1 / 100"

definition default_Options :: Options where
  "default_Options =
     \<lparr>opt_num_grpc_threads = None, opt_num_event_threads = None, server_address = [],
      max_receive_message_size = kDefaultMaxMessageSize,
      max_send_message_size = kDefaultMaxMessageSize,
      enable_tracing = False,
      tracing_sampler_probability = kDefaultTracingSamplerProbability,
      tracing_task_name = [], tracing_gcp_project_id = []\<rparr>"

type_synonym ('m, 'h, 'c) ServiceInfo = "(string \<times> ('m, 'h, 'c) RpcHandlerInfo) list"

record ('m, 'h, 'c) Builder =
  options :: Options
  rpc_handlers :: "(string \<times> ('m, 'h, 'c) ServiceInfo) list"

definition new_Builder :: "('m, 'h, 'c) Builder" where
  "new_Builder = \<lparr>options = default_Options, rpc_handlers = []\<rparr>"

definition set_options :: "(Options \<Rightarrow> Options) \<Rightarrow> ('m, 'h, 'c) Builder \<Rightarrow> ('m, 'h, 'c) Builder" where
  "set_options f b = b\<lparr>options := f (options b)\<rparr>"

definition SetNumGrpcThreads :: "nat \<Rightarrow> ('m, 'h, 'c) Builder cmd" where
  "SetNumGrpcThreads n b = Inr (set_options (\<lambda>opts. opts\<lparr>opt_num_grpc_threads := Some n\<rparr>) b)"

definition SetNumEventThreads :: "nat \<Rightarrow> ('m, 'h, 'c) Builder cmd" where
  "SetNumEventThreads n b = Inr (set_options (\<lambda>opts. opts\<lparr>opt_num_event_threads := Some n\<rparr>) b)"

definition SetServerAddress :: "string \<Rightarrow> ('m, 'h, 'c) Builder cmd" where
  "SetServerAddress a b = Inr (set_options (\<lambda>opts. opts\<lparr>server_address := a\<rparr>) b)"

definition SetMaxReceiveMessageSize :: "int \<Rightarrow> ('m, 'h, 'c) Builder cmd" where
  "SetMaxReceiveMessageSize n b =
     check (n > 0) ''max_receive_message_size must be larger than 0.''
       (Inr (set_options (\<lambda>opts. opts\<lparr>max_receive_message_size := n\<rparr>) b))"

definition SetMaxSendMessageSize :: "int \<Rightarrow> ('m, 'h, 'c) Builder cmd" where
  "SetMaxSendMessageSize n b =
     check (n > 0) ''max_send_message_size must be larger than 0.''
       (Inr (set_options (\<lambda>opts. opts\<lparr>max_send_message_size := n\<rparr>) b))"

definition EnableTracing :: "bool \<Rightarrow> ('m, 'h, 'c) Builder cmd" where
  "EnableTracing build_tracing b =
     (if build_tracing then Inr (set_options (\<lambda>opts. opts\<lparr>enable_tracing := True\<rparr>) b)
      else Inl (LogFatal ''Enable tracing support by compiling with -DBUILD_TRACING=1.''))"

definition DisableTracing :: "('m, 'h, 'c) Builder cmd" where
  "DisableTracing b = Inr (set_options (\<lambda>opts. opts\<lparr>enable_tracing := False\<rparr>) b)"

definition SetTracingSamplerProbability :: "real \<Rightarrow> ('m, 'h, 'c) Builder cmd" where
  "SetTracingSamplerProbability p b =
     Inr (set_options (\<lambda>opts. opts\<lparr>tracing_sampler_probability := p\<rparr>) b)"

definition SetTracingTaskName :: "string \<Rightarrow> ('m, 'h, 'c) Builder cmd" where
  "SetTracingTaskName n b = Inr (set_options (\<lambda>opts. opts\<lparr>tracing_task_name := n\<rparr>) b)"

definition SetTracingGcpProjectId :: "string \<Rightarrow> ('m, 'h, 'c) Builder cmd" where
  "SetTracingGcpProjectId n b = Inr (set_options (\<lambda>opts. opts\<lparr>tracing_gcp_project_id := n\<rparr>) b)"

text \<open>
  \<open>std::getline(stream, s, c)\<close> on the rest of a stream (\<open>None\<close> once it has met its end):
  the characters before \<open>c\<close>, and what is left behind it.
\<close>

fun getline :: "char \<Rightarrow> string option \<Rightarrow> string \<times> string option" where
  "getline c None = ([], None)"
| "getline c (Some s) =
     (takeWhile (\<lambda>a. a \<noteq> c) s,
      case dropWhile (\<lambda>a. a \<noteq> c) s of [] \<Rightarrow> None | _ # rest \<Rightarrow> Some rest)"

definition ParseMethodFullName :: "string \<Rightarrow> (string \<times> string) result" where
  "ParseMethodFullName method_full_name =
     (case method_full_name of
        [] \<Rightarrow> Inl OutOfRange
      | c # rest \<Rightarrow>
          check (c = CHR ''/'') ''Invalid method name.''
          (case getline CHR ''/'' (Some rest) of (service_full_name, stream) \<Rightarrow>
           case getline CHR ''/'' stream of (method_name, _) \<Rightarrow>
             check (service_full_name \<noteq> [] \<and> method_name \<noteq> [])
               ''!service_full_name.empty() && !method_name.empty()''
               (Inr (service_full_name, method_name))))"

text \<open>
  What protobuf's generated pool knows of a method; a descriptor of that pool is determined by
  its full name. A handler type brings the traits of its method and its class.
\<close>

record 'm MethodDescriptor =
  input_type :: "'m Descriptor"
  output_type :: "'m Descriptor"
  client_streaming :: bool
  server_streaming :: bool

type_synonym 'm DescriptorPool = "string \<Rightarrow> (string \<Rightarrow> 'm MethodDescriptor option) option"

record ('m, 'h, 'c) RpcHandlerType =
  MethodName :: string
  RequestType :: "'m Descriptor"
  ResponseType :: "'m Descriptor"
  StreamType :: RpcType
  HandlerImpl :: "('m, 'h, 'c) HandlerClass"

definition CheckHandlerCompatibility ::
  "'m DescriptorPool \<Rightarrow> ('m, 'h, 'c) RpcHandlerType \<Rightarrow> string \<Rightarrow> string \<Rightarrow> unit result" where
  "CheckHandlerCompatibility pool T service_full_name method_name =
     (case pool service_full_name of
        None \<Rightarrow> Inl (CheckFailed ''Unknown service'')
      | Some svc \<Rightarrow>
         (case svc method_name of
            None \<Rightarrow> Inl (CheckFailed ''Unknown method'')
          | Some d \<Rightarrow>
              check (full_name (RequestType T) = full_name (input_type d)) ''request_type''
              (check (full_name (ResponseType T) = full_name (output_type d)) ''response_type''
              (case StreamType T of
                 NORMAL_RPC \<Rightarrow>
                   check (\<not> client_streaming d) ''!client_streaming()''
                   (check (\<not> server_streaming d) ''!server_streaming()'' (Inr ()))
               | CLIENT_STREAMING \<Rightarrow>
                   check (client_streaming d) ''client_streaming()''
                   (check (\<not> server_streaming d) ''!server_streaming()'' (Inr ()))
               | SERVER_STREAMING \<Rightarrow>
                   check (\<not> client_streaming d) ''!client_streaming()''
                   (check (server_streaming d) ''server_streaming()'' (Inr ()))
               | BIDI_STREAMING \<Rightarrow>
                   check (client_streaming d) ''client_streaming()''
                   (check (server_streaming d) ''server_streaming()'' (Inr ()))))))"

definition handler_info :: "('m, 'h, 'c) RpcHandlerType \<Rightarrow> ('m, 'h, 'c) RpcHandlerInfo" where
  "handler_info T =
     \<lparr>request_descriptor = RequestType T, response_descriptor = ResponseType T,
      handler_class = HandlerImpl T, rpc_type = StreamType T, fully_qualified_name = MethodName T\<rparr>"

definition RegisterHandler ::
  "'m DescriptorPool \<Rightarrow> ('m, 'h, 'c) RpcHandlerType \<Rightarrow> ('m, 'h, 'c) Builder cmd" where
  "RegisterHandler pool T b =
     bind_r (ParseMethodFullName (MethodName T)) (\<lambda>(service_full_name, method_name).
     bind_r (CheckHandlerCompatibility pool T service_full_name method_name) (\<lambda>_.
       Inr (b\<lparr>rpc_handlers := map_modify service_full_name []
         (\<lambda>infos. snd (map_emplace method_name (handler_info T) infos)) (rpc_handlers b)\<rparr>)))"

section \<open>The server object\<close>

text \<open>
  \<open>cq_threads\<close> and \<open>event_threads\<close> say for each thread object whether its thread exists; the
  queue of event thread \<open>i\<close> is \<open>event_queues i\<close> of the state. \<open>grpc_server\<close> says whether
  \<open>server_\<close> is set, \<open>registered\<close> lists the services registered with gRPC's server builder.
\<close>

record ('m, 'h, 'c) Server =
  sv_options :: Options
  sv_shutting_down :: bool
  grpc_server :: bool
  registered :: "string list"
  cq_threads :: "CompletionQueueThread list"
  event_threads :: "EventQueueThread list"
  sv_services :: "string list"
  state :: "('m, 'h, 'c) world"

definition initial_world :: "nat \<Rightarrow> 'c \<Rightarrow> ('m, 'h, 'c) world" where
  "initial_world n c =
     \<lparr>heap = (\<lambda>_. None), next_addr = 0, services = (\<lambda>_. new_Service []), holders = [],
      num_event_threads = n, current_event_queue_id = 0, event_queues = (\<lambda>_. new_queue),
      exec_context = c, calls = [], outstanding = [], started = []\<rparr>"

definition new_Server :: "'c \<Rightarrow> Options \<Rightarrow> ('m, 'h, 'c) Server result" where
  "new_Server c opts =
     (case opt_num_event_threads opts of
        None \<Rightarrow> Inl Uninitialized
      | Some n \<Rightarrow>
         (case opt_num_grpc_threads opts of
            None \<Rightarrow> Inl Uninitialized
          | Some k \<Rightarrow> Inr
              \<lparr>sv_options = opts, sv_shutting_down = False, grpc_server = False, registered = [],
               cq_threads = map new_CompletionQueueThread [0..<k],
               event_threads = map new_EventQueueThread [0..<n],
               sv_services = [], state = initial_world n c\<rparr>))"

definition AddService ::
  "string \<Rightarrow> ('m, 'h, 'c) ServiceInfo \<Rightarrow> ('m, 'h, 'c) Server cmd" where
  "AddService service_name infos sv =
     (case map_emplace service_name () (map (\<lambda>s. (s, ())) (sv_services sv)) of (inserted, m) \<Rightarrow>
        check inserted ''A service with this name already exists.''
        (Inr (sv\<lparr>sv_services := map fst m,
                 registered := registered sv @ [service_name],
                 state := (state sv)\<lparr>services :=
                   (services (state sv))(service_name := new_Service infos)\<rparr>\<rparr>)))"

definition Build :: "'c \<Rightarrow> ('m, 'h, 'c) Builder \<Rightarrow> ('m, 'h, 'c) Server result" where
  "Build c b =
     bind_r (new_Server c (options b))
       (block (map (\<lambda>(s, infos). AddService s infos) (rpc_handlers b)))"

definition SetExecutionContext :: "'c \<Rightarrow> ('m, 'h, 'c) Server cmd" where
  "SetExecutionContext c sv =
     check (\<not> grpc_server sv) ''!server_'' (Inr (sv\<lparr>state := (state sv)\<lparr>exec_context := c\<rparr>\<rparr>))"

section \<open>Start and shutdown\<close>

definition on_state :: "('m, 'h, 'c) wcmd \<Rightarrow> ('m, 'h, 'c) Server cmd" where
  "on_state f sv = bind_r (f (state sv)) (\<lambda>w. Inr (sv\<lparr>state := w\<rparr>))"

definition Start_threads :: "('m, 'h, 'c) Server cmd" where
  "Start_threads sv =
     bind_r (for_each EventQueueThread_Start (event_threads sv)) (\<lambda>es.
     bind_r (for_each CompletionQueueThread_Start (cq_threads sv)) (\<lambda>cs.
       Inr (sv\<lparr>event_threads := es, cq_threads := cs\<rparr>)))"

definition Start :: "('m, 'h, 'c) Server cmd" where
  "Start sv = block
     [(\<lambda>sv. Inr (sv\<lparr>grpc_server := True\<rparr>)),
      on_state (block (map (\<lambda>s. StartServing s (map completion_queue (cq_threads sv))) (sv_services sv))),
      Start_threads] sv"

text \<open>
  A server built with \<open>BUILD_TRACING\<close> first configures the tracing library, which only receives calls; they are
  recorded.
\<close>

datatype trace_config_call =
    StackdriverExporter_Register string
  | SetCurrentTraceParams nat nat nat nat real

definition kDefaultTracingMaxAttributes :: nat where
  "kDefaultTracingMaxAttributes = 128"

definition kDefaultTracingMaxAnnotations :: nat where
  "kDefaultTracingMaxAnnotations = 128"

definition kDefaultTracingMaxMessageEvents :: nat where
  "kDefaultTracingMaxMessageEvents = 128"

definition kDefaultTracingMaxLinks :: nat where
  "kDefaultTracingMaxLinks = 128"

definition Start_tracing :: "bool \<Rightarrow> Options \<Rightarrow> trace_config_call list" where
  "Start_tracing build_tracing opts =
     (if build_tracing \<and> enable_tracing opts
      then [StackdriverExporter_Register (tracing_gcp_project_id opts),
            SetCurrentTraceParams kDefaultTracingMaxAttributes kDefaultTracingMaxAnnotations
              kDefaultTracingMaxMessageEvents kDefaultTracingMaxLinks (tracing_sampler_probability opts)]
      else [])"

definition Start_traced ::
  "bool \<Rightarrow> ('m, 'h, 'c) Server \<times> trace_config_call list \<Rightarrow> (('m, 'h, 'c) Server \<times> trace_config_call list) result" where
  "Start_traced build_tracing = (\<lambda>(sv, t).
     bind_r (Start sv) (\<lambda>sv'. Inr (sv', t @ Start_tracing build_tracing (sv_options sv))))"

definition WaitForShutdown_waits :: "('m, 'h, 'c) Server \<Rightarrow> bool" where
  "WaitForShutdown_waits sv \<longleftrightarrow> grpc_server sv"

text \<open>
  \<open>Shutdown\<close> up to its calls on gRPC: what gRPC and the threads still do until they are joined
  are further steps of \<open>Event_Loop\<close>, and \<open>drain\<close> below for each event queue.
\<close>

definition Shutdown_stop :: "('m, 'h, 'c) Server cmd" where
  "Shutdown_stop sv = block
     [(\<lambda>sv. Inr (sv\<lparr>sv_shutting_down := True\<rparr>)),
      on_state (block (map StopServing (sv_services sv))),
      (\<lambda>sv. if grpc_server sv then Inr sv else Inl NullDereference)] sv"

definition Shutdown_join :: "('m, 'h, 'c) Server cmd" where
  "Shutdown_join sv =
     bind_r (for_each CompletionQueueThread_Shutdown (cq_threads sv)) (\<lambda>cs.
     bind_r (for_each EventQueueThread_Shutdown (event_threads sv)) (\<lambda>es.
       Inr (sv\<lparr>cq_threads := cs, event_threads := es\<rparr>)))"

text \<open>The second loop of \<open>RunEventQueue\<close>: handle what is left in the queue.\<close>

partial_function (option) drain ::
  "nat \<Rightarrow> ('m, 'h, 'c) world \<Rightarrow> ('m, 'h, 'c) world result option" where
  "drain q w =
     (case PopWithTimeout (event_queues w q) of
        (None, _) \<Rightarrow> Some (Inr w)
      | (Some _, _) \<Rightarrow>
         (case RunEventQueue_step q w of
            Inl e \<Rightarrow> Some (Inl e)
          | Inr w' \<Rightarrow> drain q w'))"

text \<open>
  What happens between \<open>Shutdown_stop\<close> and \<open>Shutdown_join\<close>: the threads and gRPC go on, and every
  event thread leaves its second loop at some moment when its queue has given it nothing within the
  timeout. The threads that have ended are listed.
\<close>

datatype 'm shutdown_step = Step "'m label" | EventThreadExit nat

fun shutdown_exec ::
  "'m shutdown_step \<Rightarrow> ('m, 'h, 'c) world \<times> nat list \<Rightarrow> (('m, 'h, 'c) world \<times> nat list) result" where
  "shutdown_exec (Step l) (w, gone) = bind_r (exec l w) (\<lambda>w. Inr (w, gone))"
| "shutdown_exec (EventThreadExit q) (w, gone) = Inr (w, q # gone)"

fun shutdown_guard :: "'m shutdown_step \<Rightarrow> ('m, 'h, 'c) world \<times> nat list \<Rightarrow> bool" where
  "shutdown_guard (Step l) (w, gone) \<longleftrightarrow>
     enabled l w \<and> (case l of Dispatch q \<Rightarrow> q \<notin> set gone | _ \<Rightarrow> True)"
| "shutdown_guard (EventThreadExit q) (w, gone) \<longleftrightarrow>
     q \<notin> set gone \<and> QueueEmptyCondition (event_queues w q)"

text \<open>gRPC's queues give no more events: only the ends of calls that never started are left.\<close>

definition grpc_quiet :: "('m, 'h, 'c) world \<Rightarrow> bool" where
  "grpc_quiet w \<longleftrightarrow> list_all (\<lambda>(r, ev). ev = DONE \<and> r \<notin> set (started w)) (outstanding w)"

text \<open>
  The whole of \<open>Shutdown\<close>, with the steps taken while it waits; \<open>None\<close> when these cannot happen or
  it is still waiting after them.
\<close>

definition Shutdown ::
  "'m shutdown_step list \<Rightarrow> ('m, 'h, 'c) Server \<Rightarrow> ('m, 'h, 'c) Server result option" where
  "Shutdown steps sv =
     (case Shutdown_stop sv of
        Inl e \<Rightarrow> Some (Inl e)
      | Inr sv \<Rightarrow>
         (case run_of shutdown_exec shutdown_guard steps (state sv, []) of
            None \<Rightarrow> None
          | Some (Inl e) \<Rightarrow> Some (Inl e)
          | Some (Inr (w, gone)) \<Rightarrow>
              if grpc_quiet w \<and> list_all (\<lambda>t. eqt_event_queue t \<in> set gone) (event_threads sv)
              then Some (Shutdown_join (sv\<lparr>state := w\<rparr>)) else None))"

section \<open>Destruction\<close>

text \<open>The members whose destructors can fail, in the reverse order of their declaration.\<close>

fun destroy_each :: "('a \<Rightarrow> unit result) \<Rightarrow> 'a list \<Rightarrow> unit result" where
  "destroy_each f [] = Inr ()"
| "destroy_each f (t # ts) = bind_r (f t) (\<lambda>_. destroy_each f ts)"

definition Server_destroy :: "('m, 'h, 'c) Server \<Rightarrow> unit result" where
  "Server_destroy sv =
     bind_r (destroy_each (\<lambda>s. ActiveRpcs_destroy (active_rpcs (services (state sv) s))) (sv_services sv)) (\<lambda>_.
     bind_r (destroy_each (\<lambda>t. thread_destroy (eqt_thread t)) (event_threads sv)) (\<lambda>_.
     destroy_each (\<lambda>t. thread_destroy (worker_thread t)) (cq_threads sv)))"

end
