(* ===== verification/Rpc_Facts.thy ===== *)
theory Rpc_Facts
  imports Rpc
begin

text \<open>
  The effect of every method of \<open>Rpc\<close> as an equation: on a well-constructed object each method
  returns, and its result is one of four updates of the state: \<open>issue\<close> (an event is marked
  pending and its operation requested), \<open>enq\<close> (items are appended to the send queue and their
  \<open>WRITE_NEEDED\<close> events to the event queue), \<open>handled\<close> (a handler method ran) or nothing. The
  components above use these equations only.
\<close>

section \<open>What the methods do\<close>

text \<open>The flags of an RPC as total functions.\<close>

fun pend :: "Event \<Rightarrow> ('m, 'h, 'c) Rpc \<Rightarrow> bool" where
  "pend NEW_CONNECTION x = cqe_pending (new_connection_event x)"
| "pend READ x = cqe_pending (read_event x)"
| "pend WRITE_NEEDED x = False"
| "pend WRITE x = cqe_pending (write_event x)"
| "pend FINISH x = cqe_pending (finish_event x)"
| "pend DONE x = cqe_pending (done_event x)"

fun set_pend :: "Event \<Rightarrow> bool \<Rightarrow> ('m, 'h, 'c) Rpc \<Rightarrow> ('m, 'h, 'c) Rpc" where
  "set_pend NEW_CONNECTION b x = x\<lparr>new_connection_event := (new_connection_event x)\<lparr>cqe_pending := b\<rparr>\<rparr>"
| "set_pend READ b x = x\<lparr>read_event := (read_event x)\<lparr>cqe_pending := b\<rparr>\<rparr>"
| "set_pend WRITE_NEEDED b x = x"
| "set_pend WRITE b x = x\<lparr>write_event := (write_event x)\<lparr>cqe_pending := b\<rparr>\<rparr>"
| "set_pend FINISH b x = x\<lparr>finish_event := (finish_event x)\<lparr>cqe_pending := b\<rparr>\<rparr>"
| "set_pend DONE b x = x\<lparr>done_event := (done_event x)\<lparr>cqe_pending := b\<rparr>\<rparr>"

definition any_pend :: "('m, 'h, 'c) Rpc \<Rightarrow> bool" where
  "any_pend x \<longleftrightarrow> pend DONE x \<or> pend READ x \<or> pend WRITE x \<or> pend FINISH x"

text \<open>
  A well-constructed object: the stream object of its type exists and each of its events knows
  its kind and its object. Nothing but the constructor sets these fields.
\<close>

definition well_built :: "addr \<Rightarrow> ('m, 'h, 'c) Rpc \<Rightarrow> bool" where
  "well_built r x \<longleftrightarrow> streaming_interface x \<noteq> None \<and>
     (\<forall>ev e. GetRpcEvent ev x = Inr e \<longrightarrow> cqe_event e = ev \<and> cqe_rpc_ptr e = r)"

definition reads_stream :: "('m, 'h, 'c) Rpc \<Rightarrow> bool" where
  "reads_stream x \<longleftrightarrow> rpc_type (rpc_handler_info x) \<in> {BIDI_STREAMING, CLIENT_STREAMING}"

definition writes_stream :: "('m, 'h, 'c) Rpc \<Rightarrow> bool" where
  "writes_stream x \<longleftrightarrow> rpc_type (rpc_handler_info x) \<in> {BIDI_STREAMING, SERVER_STREAMING}"

text \<open>The call with which an item of the send queue leaves, and the event that ends it.\<close>

definition send_call :: "('m, 'h, 'c) Rpc \<Rightarrow> 'm SendItem \<Rightarrow> 'm grpc_call" where
  "send_call x item =
     (case (rpc_type (rpc_handler_info x), si_msg item) of
        (NORMAL_RPC, Some m) \<Rightarrow> FinishMessage ResponseWriter m (si_status item)
      | (NORMAL_RPC, None) \<Rightarrow> FinishWithError ResponseWriter (si_status item)
      | (CLIENT_STREAMING, Some m) \<Rightarrow> FinishMessage Reader m (si_status item)
      | (CLIENT_STREAMING, None) \<Rightarrow> FinishWithError Reader (si_status item)
      | (SERVER_STREAMING, Some m) \<Rightarrow> WriteCall StreamWriter m
      | (SERVER_STREAMING, None) \<Rightarrow> FinishStatus StreamWriter (si_status item)
      | (BIDI_STREAMING, Some m) \<Rightarrow> WriteCall ReaderWriter m
      | (BIDI_STREAMING, None) \<Rightarrow> FinishStatus ReaderWriter (si_status item))"

definition send_event :: "('m, 'h, 'c) Rpc \<Rightarrow> 'm SendItem \<Rightarrow> Event" where
  "send_event x item = (if writes_stream x \<and> si_msg item \<noteq> None then WRITE else FINISH)"

definition sent_rpc :: "('m, 'h, 'c) Rpc \<Rightarrow> 'm SendItem \<Rightarrow> 'm SendItem list \<Rightarrow> ('m, 'h, 'c) Rpc" where
  "sent_rpc x item rest =
     x\<lparr>send_queue := rest,
       response := (if writes_stream x \<and> si_msg item = None then response x else si_msg item)\<rparr>"

text \<open>Setting the flag of an event and requesting its operation, in one update.\<close>

definition issue ::
  "addr \<Rightarrow> Event \<Rightarrow> 'm grpc_call \<Rightarrow> ('m, 'h, 'c) Rpc \<Rightarrow> ('m, 'h, 'c) world \<Rightarrow> ('m, 'h, 'c) world" where
  "issue r ev call x w =
     w\<lparr>heap := (heap w)(r \<mapsto> set_pend ev True x),
       calls := calls w @ [(r, call, ev)],
       outstanding := outstanding w @ [(r, ev)]\<rparr>"

lemma issue_fields [simp]:
  "heap (issue r ev call x w) = (heap w)(r \<mapsto> set_pend ev True x)"
  "next_addr (issue r ev call x w) = next_addr w"
  "services (issue r ev call x w) = services w"
  "holders (issue r ev call x w) = holders w"
  "num_event_threads (issue r ev call x w) = num_event_threads w"
  "current_event_queue_id (issue r ev call x w) = current_event_queue_id w"
  "event_queues (issue r ev call x w) = event_queues w"
  "exec_context (issue r ev call x w) = exec_context w"
  "calls (issue r ev call x w) = calls w @ [(r, call, ev)]"
  "outstanding (issue r ev call x w) = outstanding w @ [(r, ev)]"
  "started (issue r ev call x w) = started w"
  by (simp_all add: issue_def)

lemma set_pend_fields [simp]:
  "event_queue (set_pend ev b x) = event_queue x"
  "rpc_handler_info (set_pend ev b x) = rpc_handler_info x"
  "service (set_pend ev b x) = service x"
  "handler (set_pend ev b x) = handler x"
  "send_queue (set_pend ev b x) = send_queue x"
  "request (set_pend ev b x) = request x"
  "response (set_pend ev b x) = response x"
  "method_index (set_pend ev b x) = method_index x"
  "server_completion_queue (set_pend ev b x) = server_completion_queue x"
  "server_async_response_writer (set_pend ev b x) = server_async_response_writer x"
  "server_async_reader (set_pend ev b x) = server_async_reader x"
  "server_async_reader_writer (set_pend ev b x) = server_async_reader_writer x"
  "server_async_writer (set_pend ev b x) = server_async_writer x"
  "cqe_ok (new_connection_event (set_pend ev b x)) = cqe_ok (new_connection_event x)"
  by (cases ev; simp)+

lemma pend_set_pend: "pend ev' (set_pend ev b x) = (if ev' = ev \<and> ev \<noteq> WRITE_NEEDED then b else pend ev' x)"
  by (cases ev; cases ev'; simp)

lemma pend_update [simp]:
  "pend ev (x\<lparr>send_queue := sq\<rparr>) = pend ev x"
  "pend ev (x\<lparr>response := p\<rparr>) = pend ev x"
  "pend ev (x\<lparr>request := m\<rparr>) = pend ev x"
  "pend ev (x\<lparr>handler := h\<rparr>) = pend ev x"
  "pend ev (x\<lparr>event_queue := q\<rparr>) = pend ev x"
  by (cases ev; simp)+

lemma set_pend_update [simp]:
  "(set_pend ev b x)\<lparr>send_queue := sq\<rparr> = set_pend ev b (x\<lparr>send_queue := sq\<rparr>)"
  "(set_pend ev b x)\<lparr>response := p\<rparr> = set_pend ev b (x\<lparr>response := p\<rparr>)"
  "(set_pend ev b x)\<lparr>request := m\<rparr> = set_pend ev b (x\<lparr>request := m\<rparr>)"
  "(set_pend ev b x)\<lparr>handler := h\<rparr> = set_pend ev b (x\<lparr>handler := h\<rparr>)"
  by (cases ev; cases x; simp)+

declare set_pend.simps [simp del] pend.simps [simp del]

lemma GetRpcEvent_update [simp]:
  "GetRpcEvent ev (x\<lparr>send_queue := sq\<rparr>) = GetRpcEvent ev x"
  "GetRpcEvent ev (x\<lparr>response := p\<rparr>) = GetRpcEvent ev x"
  "GetRpcEvent ev (x\<lparr>request := m\<rparr>) = GetRpcEvent ev x"
  "GetRpcEvent ev (x\<lparr>handler := h\<rparr>) = GetRpcEvent ev x"
  "GetRpcEvent ev (x\<lparr>event_queue := q\<rparr>) = GetRpcEvent ev x"
  by (cases ev; simp)+

lemma IsRpcEventPending_eq: "ev \<noteq> WRITE_NEEDED \<Longrightarrow> IsRpcEventPending ev x = Inr (pend ev x)"
  by (cases ev) (simp_all add: IsRpcEventPending_def GetRpcEventState_def pend.simps)

lemma IsAnyEventPending_eq: "IsAnyEventPending x = Inr (any_pend x)"
  by (simp add: IsAnyEventPending_def IsRpcEventPending_eq any_pend_def)

lemma SetRpcEventState_eq:
  "heap w r = Some x \<Longrightarrow> ev \<noteq> WRITE_NEEDED \<Longrightarrow>
   SetRpcEventState r ev b w = Inr (put_rpc r (set_pend ev b x) w)"
  by (cases ev) (simp_all add: SetRpcEventState_def set_pend.simps)

lemma grpc_issue_eq:
  "heap w r = Some x \<Longrightarrow> ev \<noteq> WRITE_NEEDED \<Longrightarrow>
   grpc_issue r call ev w =
     Inr (w\<lparr>calls := calls w @ [(r, call, ev)], outstanding := outstanding w @ [(r, ev)]\<rparr>)"
  by (cases ev) (simp_all add: grpc_issue_def)

lemma well_built_stream:
  assumes "well_built r x"
  shows "rpc_type (rpc_handler_info x) = BIDI_STREAMING \<Longrightarrow> server_async_reader_writer x"
    and "rpc_type (rpc_handler_info x) = CLIENT_STREAMING \<Longrightarrow> server_async_reader x"
    and "rpc_type (rpc_handler_info x) = NORMAL_RPC \<Longrightarrow> server_async_response_writer x"
    and "rpc_type (rpc_handler_info x) = SERVER_STREAMING \<Longrightarrow> server_async_writer x"
  using assms by (auto simp: well_built_def streaming_interface_def split: if_splits)

lemma streaming_interface_update [simp]:
  "streaming_interface (x\<lparr>send_queue := sq\<rparr>) = streaming_interface x"
  "streaming_interface (x\<lparr>response := p\<rparr>) = streaming_interface x"
  "streaming_interface (x\<lparr>request := m\<rparr>) = streaming_interface x"
  "streaming_interface (x\<lparr>handler := h\<rparr>) = streaming_interface x"
  "streaming_interface (x\<lparr>event_queue := q\<rparr>) = streaming_interface x"
  "streaming_interface (set_pend ev b x) = streaming_interface x"
  by (cases "rpc_type (rpc_handler_info x)"; simp add: streaming_interface_def)+

lemma well_built_update [simp]:
  "well_built r (x\<lparr>send_queue := sq\<rparr>) = well_built r x"
  "well_built r (x\<lparr>response := p\<rparr>) = well_built r x"
  "well_built r (x\<lparr>request := m\<rparr>) = well_built r x"
  "well_built r (x\<lparr>handler := h\<rparr>) = well_built r x"
  "well_built r (x\<lparr>event_queue := q\<rparr>) = well_built r x"
  by (simp_all add: well_built_def)

lemma well_built_events:
  "well_built r x \<longleftrightarrow> streaming_interface x \<noteq> None \<and>
     (\<forall>(ev, e) \<in> {(NEW_CONNECTION, new_connection_event x), (READ, read_event x),
        (WRITE, write_event x), (FINISH, finish_event x), (DONE, done_event x)}.
        cqe_event e = ev \<and> cqe_rpc_ptr e = r)"
  unfolding well_built_def by (auto elim: GetRpcEvent.elims) (metis GetRpcEvent.simps)+

lemma well_built_set_pend [simp]: "well_built r (set_pend ev b x) = well_built r x"
  unfolding well_built_events by (cases ev) (simp_all add: set_pend.simps streaming_interface_def)

lemma put_rpc_set_pend_issue:
  "(put_rpc r (set_pend ev True x) w)
     \<lparr>calls := calls w @ [(r, call, ev)], outstanding := outstanding w @ [(r, ev)]\<rparr> =
   issue r ev call x w"
  by (simp add: issue_def put_rpc_def)

lemma issue_put_rpc: "issue r ev call x (put_rpc r y w) = issue r ev call x w"
  by (simp add: issue_def put_rpc_def)

text \<open>Every branch of \<open>HandleSendQueue\<close>.\<close>

lemma HandleSendQueue_idle:
  assumes "heap w r = Some x" and "send_queue x = [] \<or> pend WRITE x \<or> pend FINISH x"
  shows "HandleSendQueue r w = Inr w"
  using assms by (auto simp: HandleSendQueue_def IsRpcEventPending_eq split: list.splits)

lemma PerformFinish_eq:
  assumes h: "heap w r = Some x" and wb: "well_built r x"
    and m: "msg = None \<or> \<not> writes_stream x"
  shows "PerformFinish r msg st w =
    Inr (issue r FINISH (send_call x \<lparr>si_msg = msg, si_status = st\<rparr>)
      (if writes_stream x then x else x\<lparr>response := msg\<rparr>) w)"
proof (cases "rpc_type (rpc_handler_info x)")
  case NORMAL_RPC
  with h well_built_stream(3) [OF wb] show ?thesis
    by (cases msg) (simp_all add: PerformFinish_def SetRpcEventState_eq grpc_issue_eq
        SendUnaryFinish_def writes_stream_def send_call_def issue_def put_rpc_def)
next
  case CLIENT_STREAMING
  with h well_built_stream(2) [OF wb] show ?thesis
    by (cases msg) (simp_all add: PerformFinish_def SetRpcEventState_eq grpc_issue_eq
        SendUnaryFinish_def writes_stream_def send_call_def issue_def put_rpc_def)
next
  case SERVER_STREAMING
  with h m well_built_stream(4) [OF wb] show ?thesis
    by (simp add: PerformFinish_def SetRpcEventState_eq grpc_issue_eq
        writes_stream_def send_call_def issue_def put_rpc_def)
next
  case BIDI_STREAMING
  with h m well_built_stream(1) [OF wb] show ?thesis
    by (simp add: PerformFinish_def SetRpcEventState_eq grpc_issue_eq
        writes_stream_def send_call_def issue_def put_rpc_def)
qed

lemma PerformWrite_eq:
  assumes h: "heap w r = Some x" and wb: "well_built r x" and ws: "writes_stream x"
  shows "PerformWrite r (Some m) st w =
    Inr (issue r WRITE (send_call x \<lparr>si_msg = Some m, si_status = st\<rparr>)
      (x\<lparr>response := Some m\<rparr>) w)"
proof (cases "rpc_type (rpc_handler_info x)")
  case SERVER_STREAMING
  with h well_built_stream(4) [OF wb] show ?thesis
    by (simp add: PerformWrite_def SetRpcEventState_eq grpc_issue_eq async_writer_interface_def
        send_call_def issue_def put_rpc_def)
next
  case BIDI_STREAMING
  with h well_built_stream(1) [OF wb] show ?thesis
    by (simp add: PerformWrite_def SetRpcEventState_eq grpc_issue_eq async_writer_interface_def
        send_call_def issue_def put_rpc_def)
qed (use ws in \<open>simp_all add: writes_stream_def\<close>)

lemma unary_type:
  "(rpc_type (rpc_handler_info x) = NORMAL_RPC \<or>
    rpc_type (rpc_handler_info x) = CLIENT_STREAMING) = (\<not> writes_stream x)"
  by (cases "rpc_type (rpc_handler_info x)") (simp_all add: writes_stream_def)

lemma send_call_queue:
  "send_call (x\<lparr>send_queue := rest\<rparr>) \<lparr>si_msg = si_msg item, si_status = si_status item\<rparr> = send_call x item"
  by (cases item) (simp add: send_call_def)

lemma HandleSendQueue_pop:
  assumes "heap w r = Some x" "send_queue x = item # rest" "\<not> pend WRITE x" "\<not> pend FINISH x"
  shows "HandleSendQueue r w =
    (if si_msg item = None \<or> \<not> writes_stream x
     then PerformFinish r (si_msg item) (si_status item) (put_rpc r (x\<lparr>send_queue := rest\<rparr>) w)
     else PerformWrite r (si_msg item) (si_status item) (put_rpc r (x\<lparr>send_queue := rest\<rparr>) w))"
  using assms by (simp add: HandleSendQueue_def IsRpcEventPending_eq unary_type [symmetric])

lemma HandleSendQueue_send:
  assumes h: "heap w r = Some x" and wb: "well_built r x"
    and q: "send_queue x = item # rest" and free: "\<not> pend WRITE x" "\<not> pend FINISH x"
  shows "HandleSendQueue r w =
    Inr (issue r (send_event x item) (send_call x item) (sent_rpc x item rest) w)"
proof -
  let ?x = "x\<lparr>send_queue := rest\<rparr>"
  let ?w = "put_rpc r ?x w"
  have h': "heap ?w r = Some ?x" by simp
  from wb have wb': "well_built r ?x" by simp
  note call = send_call_queue [where x = x and rest = rest and item = item]
  have ws: "writes_stream ?x = writes_stream x" by (simp add: writes_stream_def)
  note step = HandleSendQueue_pop [OF h q free]
  show ?thesis
  proof (cases "si_msg item = None \<or> \<not> writes_stream x")
    case True
    then have "PerformFinish r (si_msg item) (si_status item) ?w =
        Inr (issue r FINISH (send_call x item) (if writes_stream x then ?x else ?x\<lparr>response := si_msg item\<rparr>) ?w)"
      by (subst PerformFinish_eq [OF h' wb']) (simp_all add: ws call)
    with True step show ?thesis
      by (auto simp: send_event_def sent_rpc_def issue_put_rpc)
  next
    case False
    then obtain m where m: "si_msg item = Some m" by auto
    from False PerformWrite_eq [OF h' wb', of m "si_status item"] ws call m
    have "PerformWrite r (si_msg item) (si_status item) ?w =
        Inr (issue r WRITE (send_call x item) (?x\<lparr>response := si_msg item\<rparr>) ?w)"
      by simp
    with False step m show ?thesis
      by (simp add: send_event_def sent_rpc_def issue_put_rpc)
  qed
qed

section \<open>Sending and calling the handler\<close>

fun item_of :: "'m handler_action \<Rightarrow> 'm SendItem list" where
  "item_of (Act_Send m) = [\<lparr>si_msg = Some m, si_status = Status_OK\<rparr>]"
| "item_of (Act_Finish status) = [\<lparr>si_msg = None, si_status = status\<rparr>]"
| "item_of Act_GetWriter = []"

definition items_of :: "'m handler_action list \<Rightarrow> 'm SendItem list" where
  "items_of acts = concat (map item_of acts)"

abbreviation write_needed :: "addr \<Rightarrow> UniqueEventPtr" where
  "write_needed r \<equiv> (InternalEvent WRITE_NEEDED r, DELETE)"

definition push_n :: "nat \<Rightarrow> nat \<Rightarrow> UniqueEventPtr \<Rightarrow> ('m, 'h, 'c) world \<Rightarrow> ('m, 'h, 'c) world" where
  "push_n n q e w = w\<lparr>event_queues := (event_queues w)(q :=
     (event_queues w q)\<lparr>deque := deque (event_queues w q) @ replicate n e\<rparr>)\<rparr>"

definition enq :: "addr \<Rightarrow> 'm SendItem list \<Rightarrow> ('m, 'h, 'c) world \<Rightarrow> ('m, 'h, 'c) world" where
  "enq r its w = (case heap w r of None \<Rightarrow> w | Some x \<Rightarrow>
     push_n (length its) (event_queue x) (write_needed r)
       (put_rpc r (x\<lparr>send_queue := send_queue x @ its\<rparr>) w))"

definition is_active :: "addr \<Rightarrow> ('m, 'h, 'c) world \<Rightarrow> bool" where
  "is_active r w \<longleftrightarrow> (\<exists>x. heap w r = Some x \<and>
     r \<in> active_keys (active_rpcs (services w (service x))) \<and>
     owns_itself (active_rpcs (services w (service x))))"

definition sendable :: "addr \<Rightarrow> ('m, 'h, 'c) world \<Rightarrow> bool" where
  "sendable r w \<longleftrightarrow> is_active r w \<and>
     (\<forall>x. heap w r = Some x \<longrightarrow> queue_size (event_queues w (event_queue x)) = 0)"

lemma push_n_fields [simp]:
  "heap (push_n n q e w) = heap w"
  "next_addr (push_n n q e w) = next_addr w"
  "services (push_n n q e w) = services w"
  "holders (push_n n q e w) = holders w"
  "num_event_threads (push_n n q e w) = num_event_threads w"
  "current_event_queue_id (push_n n q e w) = current_event_queue_id w"
  "exec_context (push_n n q e w) = exec_context w"
  "calls (push_n n q e w) = calls w"
  "outstanding (push_n n q e w) = outstanding w"
  "started (push_n n q e w) = started w"
  by (simp_all add: push_n_def)

lemma queue_size_push_n [simp]: "queue_size (event_queues (push_n n q e w) p) = queue_size (event_queues w p)"
  by (simp add: push_n_def)

lemma deque_push_n [simp]:
  "deque (event_queues (push_n n q e w) p) =
     (if p = q then deque (event_queues w q) @ replicate n e else deque (event_queues w p))"
  by (simp add: push_n_def)

lemma push_event_eq:
  "queue_size (event_queues w q) = 0 \<Longrightarrow> push_event q e w = Inr (push_n 1 q e w)"
  by (simp add: push_event_def push_n_def)

lemma sendable_heap: "sendable r w \<Longrightarrow> \<exists>x. heap w r = Some x"
  by (auto simp: sendable_def is_active_def)

lemma enq_Some:
  "heap w r = Some x \<Longrightarrow> enq r its w =
     push_n (length its) (event_queue x) (write_needed r)
       (put_rpc r (x\<lparr>send_queue := send_queue x @ its\<rparr>) w)"
  by (simp add: enq_def)

lemma enq_Nil: "heap w r = Some x \<Longrightarrow> enq r [] w = w"
  by (simp add: enq_def push_n_def put_rpc_def fun_upd_idem)

lemma push_n_put_rpc: "push_n n q e (put_rpc r x w) = put_rpc r x (push_n n q e w)"
  by (simp add: push_n_def put_rpc_def)

lemma push_n_push_n: "push_n n q e (push_n m q e w) = push_n (m + n) q e w"
  by (simp add: push_n_def replicate_add)

lemma enq_enq: "heap w r = Some x \<Longrightarrow> enq r ys (enq r xs w) = enq r (xs @ ys) w"
  by (simp add: enq_def push_n_put_rpc push_n_push_n)

lemma heap_enq:
  "heap w r = Some x \<Longrightarrow> heap (enq r its w) = (heap w)(r \<mapsto> x\<lparr>send_queue := send_queue x @ its\<rparr>)"
  by (simp add: enq_Some)

lemma services_enq [simp]: "services (enq r its w) = services w"
  by (simp add: enq_def split: option.splits)

lemma exec_context_enq [simp]: "exec_context (enq r its w) = exec_context w"
  by (simp add: enq_def split: option.splits)

lemma sendable_enq: "sendable r w \<Longrightarrow> sendable r (enq r its w)"
  by (auto simp: sendable_def is_active_def enq_def)

lemma Rpc_GetWeakPtr_active: "is_active r w \<Longrightarrow> Rpc_GetWeakPtr r w = Inr r"
  by (auto simp: Rpc_GetWeakPtr_def get_rpc_def is_active_def ar.weak_active)

lemma Rpc_GetWeakPtr_inactive:
  "heap w r = Some x \<Longrightarrow> r \<notin> active_keys (active_rpcs (services w (service x))) \<Longrightarrow>
   Rpc_GetWeakPtr r w = Inl (CheckFailed ''it != rpcs_.end()'')"
  using map_of_active [of "active_rpcs (services w (service x))" r]
  by (simp add: Rpc_GetWeakPtr_def get_rpc_def ActiveRpcs_GetWeakPtr_def)

lemma enqueue_then_push:
  assumes "sendable r w"
  shows "block [EnqueueMessage r item, push_write_needed r] w = Inr (enq r [item] w)"
proof -
  from sendable_heap [OF assms] obtain x where x: "heap w r = Some x" by blast
  let ?w = "put_rpc r (x\<lparr>send_queue := send_queue x @ [item]\<rparr>) w"
  from assms x have "is_active r ?w" by (auto simp: sendable_def is_active_def)
  then have "Rpc_GetWeakPtr r ?w = Inr r" by (rule Rpc_GetWeakPtr_active)
  with assms x show ?thesis
    by (simp add: EnqueueMessage_def push_write_needed_def sendable_def push_event_eq enq_Some)
qed

lemma Rpc_Write_eq:
  "sendable r w \<Longrightarrow> Rpc_Write r m w = Inr (enq r [\<lparr>si_msg = Some m, si_status = Status_OK\<rparr>] w)"
  by (simp only: Rpc_Write_def enqueue_then_push)

lemma Rpc_Finish_eq:
  "sendable r w \<Longrightarrow> Rpc_Finish r st w = Inr (enq r [\<lparr>si_msg = None, si_status = st\<rparr>] w)"
  by (simp only: Rpc_Finish_def enqueue_then_push)

lemma do_action_eq: "sendable r w \<Longrightarrow> do_action r act w = Inr (enq r (item_of act) w)"
  using sendable_heap [of r w]
  by (cases act) (auto simp: Rpc_Write_eq Rpc_Finish_eq sendable_def Rpc_GetWeakPtr_active enq_Nil)

lemma run_actions_eq: "sendable r w \<Longrightarrow> run_actions r acts w = Inr (enq r (items_of acts) w)"
proof (induction acts arbitrary: w)
  case Nil
  with sendable_heap [of r w] show ?case by (auto simp: run_actions_def items_of_def enq_Nil)
next
  case (Cons act acts)
  from sendable_heap [OF Cons.prems] obtain x where "heap w r = Some x" by blast
  with Cons.IH [OF sendable_enq [OF Cons.prems, of "item_of act"]] Cons.prems show ?case
    by (simp add: run_actions_def items_of_def do_action_eq enq_enq)
qed

text \<open>A handler method ran: its state and the context changed and it sent some items.\<close>

definition handled ::
  "addr \<Rightarrow> 'h \<Rightarrow> 'c \<Rightarrow> 'm SendItem list \<Rightarrow> ('m, 'h, 'c) world \<Rightarrow> ('m, 'h, 'c) world" where
  "handled r h c its w = enq r its
     ((case heap w r of None \<Rightarrow> w | Some x \<Rightarrow> put_rpc r (x\<lparr>handler := Some h\<rparr>) w)
        \<lparr>exec_context := c\<rparr>)"

lemma sendable_handled: "sendable r w \<Longrightarrow> sendable r (handled r h c its w)"
  unfolding handled_def
  by (rule sendable_enq) (auto simp: sendable_def is_active_def split: option.splits)

lemma heap_handled:
  "heap w r = Some x \<Longrightarrow> heap (handled r h c its w) =
     (heap w)(r \<mapsto> x\<lparr>handler := Some h, send_queue := send_queue x @ its\<rparr>)"
  by (simp add: handled_def enq_Some)

lemma call_handler_eq:
  assumes "sendable r w" "heap w r = Some x" "handler x = Some h"
    and "f x h (exec_context w) = (h', c', acts)"
  shows "call_handler r f w = Inr (handled r h' c' (items_of acts) w)"
proof -
  have "sendable r ((put_rpc r (x\<lparr>handler := Some h'\<rparr>) w)\<lparr>exec_context := c'\<rparr>)"
    using assms(1,2) by (auto simp: sendable_def is_active_def)
  with assms show ?thesis
    by (simp add: call_handler_def handled_def run_actions_eq)
qed

lemma call_handler_handled:
  assumes "sendable r w" "heap w r = Some x" "handler x \<noteq> None"
  shows "\<exists>h c its. call_handler r f w = Inr (handled r h c its w)"
proof -
  from assms(3) obtain h where h: "handler x = Some h" by blast
  obtain h' c' acts where "f x h (exec_context w) = (h', c', acts)"
    by (metis prod_cases3)
  from call_handler_eq [where f = f, OF assms(1,2) h this] show ?thesis by blast
qed

lemma OnRequest_handled:
  "sendable r w \<Longrightarrow> heap w r = Some x \<Longrightarrow> handler x \<noteq> None \<Longrightarrow>
   \<exists>h c its. OnRequest r w = Inr (handled r h c its w)"
  unfolding OnRequest_def by (rule call_handler_handled)

lemma OnReadsDone_handled:
  "sendable r w \<Longrightarrow> heap w r = Some x \<Longrightarrow> handler x \<noteq> None \<Longrightarrow>
   \<exists>h c its. OnReadsDone r w = Inr (handled r h c its w)"
  unfolding OnReadsDone_def by (rule call_handler_handled)

lemma OnFinish_handled:
  "sendable r w \<Longrightarrow> heap w r = Some x \<Longrightarrow> handler x \<noteq> None \<Longrightarrow>
   \<exists>h c its. OnFinish r w = Inr (handled r h c its w)"
  unfolding OnFinish_def by (rule call_handler_handled)

section \<open>Requesting work from gRPC\<close>

definition read_object :: "('m, 'h, 'c) Rpc \<Rightarrow> stream_object" where
  "read_object x = (if rpc_type (rpc_handler_info x) = BIDI_STREAMING then ReaderWriter else Reader)"

lemma RequestStreamingRead_stream:
  assumes "heap w r = Some x" "well_built r x" "reads_stream x"
  shows "RequestStreamingReadIfNeeded r w = Inr (issue r READ (ReadCall (read_object x)) x w)"
  using assms well_built_stream [OF assms(2)]
  by (auto simp: RequestStreamingReadIfNeeded_def Let_def reads_stream_def SetRpcEventState_eq
      grpc_issue_eq async_reader_interface_def read_object_def issue_def put_rpc_def)

lemma RequestStreamingRead_single:
  assumes "heap w r = Some x" "\<not> reads_stream x"
  shows "RequestStreamingReadIfNeeded r w = block [OnRequest r, OnReadsDone r] w"
  using assms
  by (cases "rpc_type (rpc_handler_info x)")
    (simp_all add: RequestStreamingReadIfNeeded_def Let_def reads_stream_def)

lemma request_then_reads_done:
  assumes s: "sendable r w" and x: "heap w r = Some x" and h: "handler x \<noteq> None"
  shows "\<exists>h1 c1 is1 h2 c2 is2. block [OnRequest r, OnReadsDone r] w =
    Inr (handled r h2 c2 is2 (handled r h1 c1 is1 w))"
proof -
  from OnRequest_handled [OF s x h] obtain h1 c1 is1
    where 1: "OnRequest r w = Inr (handled r h1 c1 is1 w)" by blast
  have "heap (handled r h1 c1 is1 w) r =
      Some (x\<lparr>handler := Some h1, send_queue := send_queue x @ is1\<rparr>)"
    by (simp add: heap_handled [OF x])
  from OnReadsDone_handled [OF sendable_handled [OF s] this] 1 show ?thesis
    by fastforce
qed

lemma send_queue_handler: "x\<lparr>send_queue := its, handler := h\<rparr> = x\<lparr>handler := h, send_queue := its\<rparr>"
  by (cases x) simp

lemma first_call_eq:
  assumes s: "sendable r w" and x: "heap w r = Some x" and h: "handler x = None"
    and ini: "hc_Initialize (handler_class (rpc_handler_info x)) (exec_context w) = (h', c', acts)"
  shows "OnConnection r w = RequestStreamingReadIfNeeded r (handled r h' c' (items_of acts) w)"
proof -
  have "sendable r (w\<lparr>exec_context := c'\<rparr>)"
    using s by (simp add: sendable_def is_active_def)
  with ini x h show ?thesis
    by (simp add: OnConnection_def run_actions_eq handled_def enq_Some push_n_put_rpc,
        simp add: put_rpc_def push_n_def send_queue_handler)
qed

lemma first_call_handled:
  assumes s: "sendable r w" and x: "heap w r = Some x" and h: "handler x = None"
  shows "\<exists>h c its. OnConnection r w = RequestStreamingReadIfNeeded r (handled r h c its w)"
proof -
  obtain h' c' acts where
    "hc_Initialize (handler_class (rpc_handler_info x)) (exec_context w) = (h', c', acts)"
    by (metis prod_cases3)
  from first_call_eq [OF s x h this] show ?thesis by blast
qed

definition request_call :: "('m, 'h, 'c) Rpc \<Rightarrow> 'm grpc_call" where
  "request_call x =
     (let i = method_index x; s = streaming_interface x; cq = server_completion_queue x in
      case rpc_type (rpc_handler_info x) of
        BIDI_STREAMING \<Rightarrow> RequestAsyncBidiStreaming i s cq
      | CLIENT_STREAMING \<Rightarrow> RequestAsyncClientStreaming i s cq
      | NORMAL_RPC \<Rightarrow> RequestAsyncUnary i s cq
      | SERVER_STREAMING \<Rightarrow> RequestAsyncServerStreaming i s cq)"

lemma RequestNextMethodInvocation_eq:
  assumes "heap w r = Some x"
  shows "RequestNextMethodInvocation r w =
    Inr (issue r NEW_CONNECTION (request_call x) (set_pend DONE True x)
      (issue r DONE AsyncNotifyWhenDone x w))"
  using assms
  by (cases "rpc_type (rpc_handler_info x)")
    (simp_all add: RequestNextMethodInvocation_def SetRpcEventState_eq grpc_issue_eq
      request_call_def Let_def issue_def put_rpc_def)

lemma new_Rpc_fields [simp]:
  "event_queue (new_Rpc r i cq q info s) = q"
  "rpc_handler_info (new_Rpc r i cq q info s) = info"
  "service (new_Rpc r i cq q info s) = s"
  "handler (new_Rpc r i cq q info s) = None"
  "send_queue (new_Rpc r i cq q info s) = []"
  "method_index (new_Rpc r i cq q info s) = i"
  "server_completion_queue (new_Rpc r i cq q info s) = cq"
  by (cases "rpc_type info"; simp add: new_Rpc_def InitializeReadersAndWriters_def)+

lemma pend_new_Rpc [simp]: "\<not> pend ev (new_Rpc r i cq q info s)"
  by (cases "rpc_type info"; cases ev;
      simp add: new_Rpc_def InitializeReadersAndWriters_def pend.simps new_CompletionQueueRpcEvent_def)

lemma well_built_new_Rpc [simp]: "well_built r (new_Rpc r i cq q info s)"
  unfolding well_built_events
  by (cases "rpc_type info";
      simp add: new_Rpc_def InitializeReadersAndWriters_def streaming_interface_def
        new_CompletionQueueRpcEvent_def)

lemma streaming_interface_new_Rpc:
  "streaming_interface (new_Rpc r i cq q info s) = Some (case rpc_type info of
     BIDI_STREAMING \<Rightarrow> ReaderWriter | CLIENT_STREAMING \<Rightarrow> Reader
   | NORMAL_RPC \<Rightarrow> ResponseWriter | SERVER_STREAMING \<Rightarrow> StreamWriter)"
  by (cases "rpc_type info";
      simp add: new_Rpc_def InitializeReadersAndWriters_def streaming_interface_def)

end
