(* ===== verification/Server_Measure.thy ===== *)
theory Server_Measure
  imports Server Rpc_Facts "HOL-Library.Sublist"
begin

text \<open>
  What no statement of the server can undo. \<open>server_measure\<close> is the contract of an order on
  states in which the elementary updates of the model only move forward; every function of
  \<open>rpc.cc\<close> and \<open>service.cc\<close> then does, whatever state it is called in. It is used for the
  order of messages on the way to gRPC, for the completion events in the event queues, and for what
  RPCs inherit from earlier ones.
\<close>

section \<open>The contract\<close>

fun is_send :: "'m grpc_call \<Rightarrow> bool" where
  "is_send (WriteCall _ _) = True"
| "is_send (FinishStatus _ _) = True"
| "is_send (FinishMessage _ _ _) = True"
| "is_send (FinishWithError _ _) = True"
| "is_send _ = False"

locale server_measure = progress_measure before
  for before :: "('m, 'h, 'c) world \<Rightarrow> ('m, 'h, 'c) world \<Rightarrow> bool" +
  assumes before_event: "heap w r = Some x \<Longrightarrow> before w (put_rpc r (set_pend ev b x) w)"
    and before_handler: "heap w r = Some x \<Longrightarrow> before w (put_rpc r (x\<lparr>handler := h\<rparr>) w)"
    and before_enqueue: "heap w r = Some x \<Longrightarrow>
      before w (put_rpc r (x\<lparr>send_queue := send_queue x @ [item]\<rparr>) w)"
    and before_issue: "\<not> is_send call \<Longrightarrow>
      before w (w\<lparr>calls := calls w @ [(r, call, ev)], outstanding := outstanding w @ [(r, ev)]\<rparr>)"
    and before_send: "heap w r = Some x \<Longrightarrow> send_queue x = item # rest \<Longrightarrow>
      before w (issue r (send_event x item) (send_call x item) (sent_rpc x item rest) w)"
    and before_push: "push_event q (InternalEvent WRITE_NEEDED r, DELETE) w = Inr w' \<Longrightarrow> before w w'"
    and before_context: "before w (w\<lparr>exec_context := c\<rparr>)"
    and before_select: "before w (w\<lparr>current_event_queue_id := i\<rparr>)"
    and before_hold: "before w (w\<lparr>holders := hs\<rparr>)"
    and before_services: "(\<And>s. shutting_down (services w s) \<Longrightarrow> shutting_down (S s)) \<Longrightarrow>
      before w (w\<lparr>services := S\<rparr>)"
    and before_destroy: "before w (w\<lparr>heap := (heap w)(r := None)\<rparr>)"
    and before_create: "heap w r = Some x0 \<Longrightarrow> rpc_handler_info x = rpc_handler_info x0 \<Longrightarrow>
      service x = service x0 \<Longrightarrow>
      before w (w\<lparr>heap := (heap w)(next_addr w \<mapsto> x), next_addr := Suc (next_addr w)\<rparr>)"

section \<open>Sending\<close>

text \<open>\<open>HandleSendQueue\<close> on any state: if it returns, it did nothing or sent the first item.\<close>

lemma PerformFinish_Inr:
  assumes "PerformFinish r msg st w = Inr w'" "heap w r = Some x"
  shows "w' = issue r FINISH (send_call x \<lparr>si_msg = msg, si_status = st\<rparr>)
      (if writes_stream x then x else x\<lparr>response := msg\<rparr>) w \<and> (msg = None \<or> \<not> writes_stream x)"
  using assms
  by (cases "rpc_type (rpc_handler_info x)"; cases msg)
    (auto simp: PerformFinish_def SetRpcEventState_eq grpc_issue_eq SendUnaryFinish_def
      writes_stream_def send_call_def issue_def put_rpc_def check_def split: if_splits)

lemma PerformWrite_Inr:
  assumes "PerformWrite r msg st w = Inr w'" "heap w r = Some x"
  shows "\<exists>m. msg = Some m \<and> writes_stream x \<and>
    w' = issue r WRITE (send_call x \<lparr>si_msg = msg, si_status = st\<rparr>) (x\<lparr>response := msg\<rparr>) w"
  using assms
  by (cases "rpc_type (rpc_handler_info x)"; cases msg)
    (auto simp: PerformWrite_def SetRpcEventState_eq grpc_issue_eq async_writer_interface_def
      writes_stream_def send_call_def issue_def put_rpc_def check_def split: if_splits)

lemma HandleSendQueue_Inr:
  assumes s: "HandleSendQueue r w = Inr w'"
  shows "w' = w \<or> (\<exists>x item rest. heap w r = Some x \<and> send_queue x = item # rest \<and>
    w' = issue r (send_event x item) (send_call x item) (sent_rpc x item rest) w)"
proof -
  from s obtain x where x: "heap w r = Some x" by (cases "heap w r") (auto simp: HandleSendQueue_def)
  show ?thesis
  proof (cases "send_queue x = [] \<or> pend WRITE x \<or> pend FINISH x")
    case True
    with HandleSendQueue_idle [OF x] s show ?thesis by simp
  next
    case False
    then obtain item rest where q: "send_queue x = item # rest"
      and free: "\<not> pend WRITE x" "\<not> pend FINISH x" by (cases "send_queue x") auto
    let ?w = "put_rpc r (x\<lparr>send_queue := rest\<rparr>) w"
    have x': "heap ?w r = Some (x\<lparr>send_queue := rest\<rparr>)" by simp
    have "w' = issue r (send_event x item) (send_call x item) (sent_rpc x item rest) w"
    proof (cases "si_msg item = None \<or> \<not> writes_stream x")
      case True
      with s have "PerformFinish r (si_msg item) (si_status item) ?w = Inr w'"
        by (simp add: HandleSendQueue_pop [OF x q free])
      from PerformFinish_Inr [OF this x'] True show ?thesis
        by (auto simp: send_call_queue issue_put_rpc send_event_def sent_rpc_def writes_stream_def)
    next
      case False
      with s have "PerformWrite r (si_msg item) (si_status item) ?w = Inr w'"
        by (simp add: HandleSendQueue_pop [OF x q free])
      from PerformWrite_Inr [OF this x'] False show ?thesis
        by (auto simp: send_call_queue issue_put_rpc send_event_def sent_rpc_def writes_stream_def)
    qed
    with x q show ?thesis by blast
  qed
qed

section \<open>Every function moves forward\<close>

context server_measure
begin

lemma advances_with_rpc: "(\<And>x. advances (f x)) \<Longrightarrow> advances (with_rpc r f)"
  by (auto simp: advances_def with_rpc_def bind_r_Inr_iff)

lemma advances_upd:
  "(\<And>w x. heap w r = Some x \<Longrightarrow> before w (put_rpc r (f x) w)) \<Longrightarrow> advances (upd_rpc r f)"
  by (auto simp: advances_def upd_rpc_def with_rpc_def get_rpc_def split: option.splits)

lemma advances_read: "(\<And>a. advances (f a)) \<Longrightarrow> advances (\<lambda>w. bind_r (g w) (\<lambda>a. f a w))"
  by (auto simp: advances_def bind_r_Inr_iff)

lemma advances_then:
  "(\<And>w a w'. g w = Inr (a, w') \<Longrightarrow> before w w') \<Longrightarrow> (\<And>a. advances (f a)) \<Longrightarrow>
   advances (\<lambda>w. bind_r (g w) (\<lambda>(a, w'). f a w'))"
  unfolding advances_def bind_r_Inr_iff split_paired_Ex prod.case by (blast intro: before_trans)

lemma advances_case: "(\<And>a b c. advances (f a b c)) \<Longrightarrow> advances (\<lambda>w. case g w of (a, b, c) \<Rightarrow> f a b c w)"
proof (rule advances_I)
  fix w w'
  assume f: "\<And>a b c. advances (f a b c)" and w': "(case g w of (a, b, c) \<Rightarrow> f a b c w) = Inr w'"
  obtain a b c where "g w = (a, b, c)" by (metis prod_cases3)
  with w' have "f a b c w = Inr w'" by simp
  with f show "before w w'" by (rule advances_D)
qed

lemma advances_check: "advances c \<Longrightarrow> advances (\<lambda>w. check b msg (c w))"
  by (simp add: advances_def check_def)

lemma advances_Inr: "advances Inr"
  by (simp add: advances_def before_refl)

lemma advances_SetRpcEventState: "advances (SetRpcEventState r ev b)"
proof (rule advances_I)
  fix w w' :: "('m, 'h, 'c) world"
  assume a: "SetRpcEventState r ev b w = Inr w'"
  then obtain x where x: "heap w r = Some x"
    by (cases "heap w r") (auto simp: SetRpcEventState_def)
  with a have "ev \<noteq> WRITE_NEEDED" by (auto simp: SetRpcEventState_def)
  with a x show "before w w'" by (auto simp: SetRpcEventState_eq before_event)
qed

lemma advances_issue: "\<not> is_send call \<Longrightarrow> advances (grpc_issue r call ev)"
  by (auto simp: advances_def grpc_issue_def with_rpc_def get_rpc_def bind_r_Inr_iff before_issue)

lemma advances_HandleSendQueue: "advances (HandleSendQueue r)"
  by (auto simp: advances_def before_refl dest!: HandleSendQueue_Inr intro: before_send)

lemma advances_push_write_needed: "advances (push_write_needed r)"
  unfolding push_write_needed_def
  by (intro advances_read advances_with_rpc) (auto simp: advances_def intro: before_push)

lemma advances_EnqueueMessage: "advances (EnqueueMessage r item)"
  unfolding EnqueueMessage_def by (rule advances_upd) (rule before_enqueue)

lemma advances_send: "advances (Rpc_Write r m)" "advances (Rpc_Finish r st)"
  unfolding Rpc_Write_def Rpc_Finish_def
  by (auto intro!: advances_block advances_EnqueueMessage advances_push_write_needed)

lemma advances_run_actions: "advances (run_actions r acts)"
proof -
  have "advances (do_action r act)" for act
    by (cases act) (auto intro!: advances_send advances_read advances_Inr)
  then show ?thesis unfolding run_actions_def by (auto intro!: advances_block)
qed

lemma advances_context: "advances (\<lambda>w. Inr (w\<lparr>exec_context := c\<rparr>))"
  by (simp add: advances_def before_context)

lemma advances_handler: "advances (upd_rpc r (\<lambda>x. x\<lparr>handler := h\<rparr>))"
  by (rule advances_upd) (rule before_handler)

lemma advances_call_handler: "advances (call_handler r method)"
  unfolding call_handler_def
  by (intro advances_with_rpc advances_read advances_case advances_block)
    (auto intro!: advances_handler advances_context advances_run_actions)

lemmas advances_callbacks =
  advances_call_handler [of r "\<lambda>x h c. hc_OnRequest (handler_class (rpc_handler_info x)) h c (request x)"
    for r, folded OnRequest_def]
  advances_call_handler [of r "\<lambda>x. hc_OnReadsDone (handler_class (rpc_handler_info x))"
    for r, folded OnReadsDone_def]
  advances_call_handler [of r "\<lambda>x. hc_OnFinish (handler_class (rpc_handler_info x))"
    for r, folded OnFinish_def]

lemma advances_RequestStreamingReadIfNeeded: "advances (RequestStreamingReadIfNeeded r)"
proof -
  have "advances (block [SetRpcEventState r READ True,
     with_rpc r (\<lambda>x w. bind_r (async_reader_interface x) (\<lambda>p.
       bind_r (deref p) (\<lambda>s. grpc_issue r (ReadCall s) READ w)))])"
    by (rule advances_block)
      (auto intro!: advances_SetRpcEventState advances_with_rpc advances_read advances_issue)
  moreover have "advances (block [OnRequest r, OnReadsDone r])"
    by (rule advances_block) (auto intro!: advances_callbacks)
  ultimately show ?thesis
    unfolding RequestStreamingReadIfNeeded_def Let_def
    by (intro advances_with_rpc) (simp split: RpcType.split)
qed

lemma advances_OnConnection: "advances (OnConnection r)"
proof -
  have 1: "advances (\<lambda>w. case hc_Initialize (handler_class (rpc_handler_info x)) (exec_context w) of
      (h, c, acts) \<Rightarrow> block [\<lambda>w. Inr (w\<lparr>exec_context := c\<rparr>), run_actions r acts,
        upd_rpc r (\<lambda>x. x\<lparr>handler := Some h\<rparr>)] w)" for x
    by (intro advances_case advances_block)
      (auto intro!: advances_handler advances_context advances_run_actions)
  have 2: "advances (with_rpc r (\<lambda>x w. case handler x of Some _ \<Rightarrow> Inr w | None \<Rightarrow>
     (case hc_Initialize (handler_class (rpc_handler_info x)) (exec_context w) of
      (h, c, acts) \<Rightarrow> block [\<lambda>w. Inr (w\<lparr>exec_context := c\<rparr>), run_actions r acts,
        upd_rpc r (\<lambda>x. x\<lparr>handler := Some h\<rparr>)] w)))"
  proof (rule advances_with_rpc)
    show "advances (\<lambda>w. case handler x of Some _ \<Rightarrow> Inr w | None \<Rightarrow>
     (case hc_Initialize (handler_class (rpc_handler_info x)) (exec_context w) of
      (h, c, acts) \<Rightarrow> block [\<lambda>w. Inr (w\<lparr>exec_context := c\<rparr>), run_actions r acts,
        upd_rpc r (\<lambda>x. x\<lparr>handler := Some h\<rparr>)] w))" for x
      by (cases "handler x") (simp_all only: option.case 1 advances_Inr)
  qed
  show ?thesis
    unfolding OnConnection_def
    by (rule advances_block) (use 2 advances_RequestStreamingReadIfNeeded in fastforce)
qed

lemma advances_RequestNextMethodInvocation: "advances (RequestNextMethodInvocation r)"
proof -
  have "advances (let i = method_index x; s = streaming_interface x; cq = server_completion_queue x in
        case rpc_type (rpc_handler_info x) of
          BIDI_STREAMING \<Rightarrow> grpc_issue r (RequestAsyncBidiStreaming i s cq) NEW_CONNECTION
        | CLIENT_STREAMING \<Rightarrow> grpc_issue r (RequestAsyncClientStreaming i s cq) NEW_CONNECTION
        | NORMAL_RPC \<Rightarrow> grpc_issue r (RequestAsyncUnary i s cq) NEW_CONNECTION
        | SERVER_STREAMING \<Rightarrow>
            grpc_issue r (RequestAsyncServerStreaming i s cq) NEW_CONNECTION)"
    for x :: "('m, 'h, 'c) Rpc"
    unfolding Let_def by (cases "rpc_type (rpc_handler_info x)") (simp_all add: advances_issue)
  then show ?thesis
    unfolding RequestNextMethodInvocation_def
    by (intro advances_block)
      (auto intro!: advances_SetRpcEventState advances_issue advances_with_rpc)
qed

lemma before_heap: "before w (w\<lparr>heap := (if b then (heap w)(r := None) else heap w)\<rparr>)"
  using before_destroy before_refl by simp

lemma before_set_active: "before w (set_active s a w)"
  unfolding set_active_def by (rule before_services) auto

lemma advances_remove_rpc: "advances (remove_rpc s r)"
proof (rule advances_I)
  fix w w' :: "('m, 'h, 'c) world"
  assume "remove_rpc s r w = Inr w'"
  moreover obtain b a where "ActiveRpcs_Remove r (active_rpcs (services w s)) = (b, a)"
    by (cases "ActiveRpcs_Remove r (active_rpcs (services w s))")
  ultimately have w': "w' = (set_active s a w)\<lparr>heap := (if b \<and> r \<notin> set (holders w)
      then (heap (set_active s a w))(r := None) else heap (set_active s a w))\<rparr>"
    by (auto simp: remove_rpc_def set_active_def)
  show "before w w'" unfolding w' by (rule before_trans [OF before_set_active before_heap])
qed

lemma before_add_rpc:
  assumes "heap w p = Some x" "\<And>r'. rpc_handler_info (mk r') = rpc_handler_info x"
    and "\<And>r'. service (mk r') = service x" and "add_rpc s mk w = Inr (r, w')"
  shows "before w w'"
proof -
  from assms(4) obtain a where w': "w' = set_active s a
      (w\<lparr>heap := (heap w)(next_addr w \<mapsto> mk (next_addr w)), next_addr := Suc (next_addr w)\<rparr>)"
    by (auto simp: add_rpc_def Let_def bind_r_Inr_iff)
  show "before w w'"
    unfolding w' by (rule before_trans [OF before_create [OF assms(1-3)] before_set_active])
qed

lemma before_Select: "SelectNextEventQueueRoundRobin w = Inr (q, w') \<Longrightarrow> before w w'"
  by (auto simp: SelectNextEventQueueRoundRobin_def Let_def before_select split: if_splits)

lemma advances_RemoveIfNotPending: "advances (RemoveIfNotPending s r)"
  unfolding RemoveIfNotPending_def
proof (intro advances_with_rpc advances_read)
  show "advances (\<lambda>w. if \<not> pending then remove_rpc s r w else Inr w)" for pending
    by (cases pending) (simp_all add: advances_remove_rpc advances_Inr)
qed

lemma advances_next_rpc:
  "advances (\<lambda>w. bind_r (get_rpc r w) (\<lambda>x.
     bind_r (SelectNextEventQueueRoundRobin w) (\<lambda>(q, w).
     bind_r (add_rpc s (\<lambda>r'. SetEventQueue q (Clone r' x)) w) (\<lambda>(r', w). RequestNextMethodInvocation r' w))))"
proof (rule advances_I)
  fix w w' :: "('m, 'h, 'c) world"
  assume "bind_r (get_rpc r w) (\<lambda>x.
     bind_r (SelectNextEventQueueRoundRobin w) (\<lambda>(q, w).
     bind_r (add_rpc s (\<lambda>r'. SetEventQueue q (Clone r' x)) w) (\<lambda>(r', w). RequestNextMethodInvocation r' w))) = Inr w'"
  then obtain x q w1 r' w2 where x: "heap w r = Some x"
    and w1: "SelectNextEventQueueRoundRobin w = Inr (q, w1)"
    and w2: "add_rpc s (\<lambda>r'. SetEventQueue q (Clone r' x)) w1 = Inr (r', w2)"
    and w': "RequestNextMethodInvocation r' w2 = Inr w'"
    by (auto simp: bind_r_Inr_iff get_rpc_def split: option.splits)
  from w1 x have "heap w1 r = Some x"
    by (auto simp: SelectNextEventQueueRoundRobin_def Let_def split: if_splits)
  then have "before w1 w2" by (rule before_add_rpc [OF _ _ _ w2]) (simp_all add: SetEventQueue_def Clone_def)
  with before_Select [OF w1] advances_D [OF advances_RequestNextMethodInvocation w'] show "before w w'"
    by (blast intro: before_trans)
qed

lemma advances_HandleEvent: "advances (HandleEvent s ev r ok)"
proof (cases ev)
  case NEW_CONNECTION
  have block: "advances (block
        [if \<not> ok then remove_rpc s r else Inr, if ok then OnConnection r else Inr,
         \<lambda>w. bind_r (get_rpc r w) (\<lambda>x. bind_r (SelectNextEventQueueRoundRobin w) (\<lambda>(q, w).
            bind_r (add_rpc s (\<lambda>r'. SetEventQueue q (Clone r' x)) w) (\<lambda>(r', w).
            RequestNextMethodInvocation r' w)))])"
    by (rule advances_block)
      (auto intro!: advances_remove_rpc advances_OnConnection advances_Inr advances_next_rpc)
  show ?thesis
  proof (rule advances_I)
    fix w w' :: "('m, 'h, 'c) world"
    assume "HandleEvent s ev r ok w = Inr w'"
    then show "before w w'"
      using NEW_CONNECTION advances_D [OF block] advances_D [OF advances_remove_rpc]
      by (auto simp only: HandleEvent.simps HandleNewConnection_def split: if_splits)
  qed
qed (auto simp: HandleRead_def HandleWrite_def HandleFinish_def HandleDone_def simp del: block.simps
    intro!: advances_block advances_callbacks advances_RequestStreamingReadIfNeeded
      advances_RemoveIfNotPending advances_HandleSendQueue)

lemma before_release: "before w (release r w)"
proof -
  let ?hs = "remove1 r (holders w)"
  have "release r w = (w\<lparr>holders := ?hs\<rparr>)\<lparr>heap := (if \<not> (owned r w \<or> r \<in> set ?hs)
      then (heap (w\<lparr>holders := ?hs\<rparr>))(r := None) else heap (w\<lparr>holders := ?hs\<rparr>))\<rparr>"
    by (simp add: release_def Let_def)
  then show ?thesis using before_trans [OF before_hold before_heap] by metis
qed

lemma advances_Handle: "advances (Handle e)"
proof (cases e)
  case (CqEvent r ev)
  then show ?thesis
    by (auto simp: CompletionQueueRpcEvent_Handle_def simp del: block.simps
        intro!: advances_block advances_SetRpcEventState advances_with_rpc advances_read
          advances_HandleEvent)
next
  case (InternalEvent ev r)
  have "advances (with_rpc r (\<lambda>x. HandleEvent (service x) ev r True))"
    by (intro advances_with_rpc advances_HandleEvent)
  then have h: "before w w1" if "with_rpc r (\<lambda>x. HandleEvent (service x) ev r True) (hold r w) = Inr w1"
    for w w1
    by (rule before_trans [OF before_hold [of w "r # holders w"] advances_D]) (use that in \<open>simp add: hold_def\<close>)
  then show ?thesis
    unfolding InternalEvent Handle.simps InternalRpcEvent_Handle_def
    by (auto simp: advances_def bind_r_Inr_iff before_refl split: if_splits
        intro: before_trans [OF h before_release])
qed

lemma advances_Writer:
  "advances (Writer_lock r)" "advances (Writer_Write r m)" "advances (Writer_WritesDone r)"
  "advances (\<lambda>w. Inr (release r w))" "advances (StopServing s)"
  by (auto simp: Writer_lock_def Writer_Write_def Writer_WritesDone_def StopServing_def hold_def
      before_refl before_hold before_release before_services
      intro!: advances_send advances_I split: if_splits)

lemma advances_Writer_Finish: "advances (Writer_Finish r st)"
  unfolding Writer_Finish_def
  by (rule advances_block) (auto intro!: advances_send advances_with_rpc advances_read advances_Inr)

end

text \<open>A measure that also survives what gRPC and the thread loops do holds along every run.\<close>

locale step_measure = server_measure before
  for before :: "('m, 'h, 'c) world \<Rightarrow> ('m, 'h, 'c) world \<Rightarrow> bool" +
  assumes before_queues: "before w (w\<lparr>event_queues := qs\<rparr>)"
    and before_announce: "before w (grpc_announce r ev ok m w)"
    and before_answer: "heap w r = Some x \<Longrightarrow> GetRpcEvent ev x = Inr e \<Longrightarrow>
      before w (put_rpc r (put_event ev (e\<lparr>cqe_ok := ok\<rparr>) x) w)"
begin

lemma advances_PushToEventQueue: "advances (PushToEventQueue r ev)"
  by (rule advances_I) (auto simp: PushToEventQueue_def with_rpc_def push_event_def bind_r_Inr_iff before_queues
    split: option.splits)

lemma advances_RunCompletionQueue_step: "advances (RunCompletionQueue_step r ev ok)"
proof -
  have "advances (with_rpc r (\<lambda>x w. bind_r (GetRpcEvent ev x) (\<lambda>e.
      Inr (put_rpc r (put_event ev (e\<lparr>cqe_ok := ok\<rparr>) x) w))))"
    by (rule advances_I) (auto simp: with_rpc_def get_rpc_def bind_r_Inr_iff before_answer split: option.splits)
  then show ?thesis
    unfolding RunCompletionQueue_step_def by (auto intro!: advances_block advances_PushToEventQueue)
qed

lemma advances_exec: "advances (exec l)"
proof (rule advances_I)
  fix w w' :: "('m, 'h, 'c) world" assume e: "exec l w = Inr w'"
  show "before w w'"
  proof (cases l)
    case (Announce r ev ok m)
    with e show ?thesis
      using before_trans [OF before_announce advances_D [OF advances_RunCompletionQueue_step]] by auto
  next
    case (Dispatch q)
    with e show ?thesis
      by (auto simp: RunEventQueue_step_def split: prod.splits option.splits
          intro: before_refl before_trans [OF before_queues advances_D [OF advances_Handle]])
  qed (use e in \<open>auto dest: advances_D [OF advances_Writer(1)] advances_D [OF advances_Writer(2)]
      advances_D [OF advances_Writer(3)] advances_D [OF advances_Writer(5)]
      advances_D [OF advances_Writer_Finish] intro: before_release\<close>)
qed

lemma before_run: "run ls w = Some (Inr w') \<Longrightarrow> before w w'"
  unfolding run_def by (rule advances_run [of exec]) (rule advances_exec)

end

section \<open>Completion events\<close>

text \<open>
  No statement of the server itself puts an event of gRPC into an event queue: handling events
  adds internal events only, and these all say that there is something to write.
\<close>

fun is_completion :: "UniqueEventPtr \<Rightarrow> bool" where
  "is_completion (CqEvent _ _, _) = True"
| "is_completion (InternalEvent _ _, _) = False"

fun known_event :: "UniqueEventPtr \<Rightarrow> bool" where
  "known_event (CqEvent _ _, _) = True"
| "known_event (InternalEvent ev _, _) = (ev = WRITE_NEEDED)"

definition same_completions :: "('m, 'h, 'c) world \<Rightarrow> ('m, 'h, 'c) world \<Rightarrow> bool" where
  "same_completions w w' \<longleftrightarrow> (\<forall>q. filter is_completion (deque (event_queues w' q)) =
     filter is_completion (deque (event_queues w q)) \<and>
     (list_all known_event (deque (event_queues w q)) \<longrightarrow>
      list_all known_event (deque (event_queues w' q))))"

interpretation sc: server_measure same_completions
proof unfold_locales
  fix q r and w w' :: "('m, 'h, 'c) world"
  assume "push_event q (InternalEvent WRITE_NEEDED r, DELETE) w = Inr w'"
  then show "same_completions w w'"
    by (auto simp: push_event_def Push_def same_completions_def split: option.splits if_splits)
qed (auto simp: same_completions_def put_rpc_def)

text \<open>An internal event makes the server push nothing at all.\<close>

lemma internal_event_queues:
  assumes "Handle (InternalEvent WRITE_NEEDED r) w = Inr w'"
  shows "event_queues w' = event_queues w"
proof (cases "heap w r")
  case (Some x)
  from assms Some obtain w1 w2 where
    1: "HandleSendQueue r (hold r w) = Inr w1" "RemoveIfNotPending (service x) r w1 = Inr w2"
      "w' = release r w2"
    by (auto simp: InternalRpcEvent_Handle_def HandleWrite_def bind_r_Inr_iff hold_def)
  from HandleSendQueue_Inr [OF 1(1)] have "event_queues w1 = event_queues w"
    by (auto simp: hold_def)
  moreover from 1(2) have "event_queues w2 = event_queues w1"
    by (auto simp: RemoveIfNotPending_def with_rpc_def bind_r_Inr_iff remove_rpc_def set_active_def
        split: if_splits prod.splits)
  ultimately show ?thesis using 1(3) by (simp add: release_def Let_def)
qed (use assms in \<open>simp add: InternalRpcEvent_Handle_def\<close>)

lemma RunEventQueue_step_Cons:
  "deque (event_queues w q) = e # ts \<Longrightarrow> RunEventQueue_step q w =
     Handle (fst e) (w\<lparr>event_queues := (event_queues w)(q := (event_queues w q)\<lparr>deque := ts\<rparr>)\<rparr>)"
  by (cases e) (simp add: RunEventQueue_step_def PopWithTimeout_def queue_defs)

lemma RunEventQueue_step_smaller:
  assumes s: "RunEventQueue_step q w = Inr w'" and q: "deque (event_queues w q) = e # ts"
    and k: "list_all known_event (deque (event_queues w q))"
  shows "list_all known_event (deque (event_queues w' q)) \<and>
    (length (filter is_completion (deque (event_queues w' q))) <
       length (filter is_completion (deque (event_queues w q))) \<or>
     length (filter is_completion (deque (event_queues w' q))) =
       length (filter is_completion (deque (event_queues w q))) \<and>
     length (deque (event_queues w' q)) < length (deque (event_queues w q)))"
proof -
  let ?w = "w\<lparr>event_queues := (event_queues w)(q := (event_queues w q)\<lparr>deque := ts\<rparr>)\<rparr>"
  from s q have h: "Handle (fst e) ?w = Inr w'" by (simp add: RunEventQueue_step_Cons)
  then have same: "same_completions ?w w'" by (rule sc.advances_D [OF sc.advances_Handle])
  show ?thesis
  proof (cases "is_completion e")
    case True
    with same q k show ?thesis by (auto simp: same_completions_def dest!: spec [of _ q])
  next
    case False
    then obtain r a where e: "e = (InternalEvent WRITE_NEEDED r, a)"
      using k q by (cases e rule: is_completion.cases) auto
    have "event_queues w' = event_queues ?w"
      using internal_event_queues [of r ?w w'] h e by simp
    with k q e show ?thesis by simp
  qed
qed

lemma drain_returns:
  "list_all known_event (deque (event_queues w q)) \<Longrightarrow>
   \<exists>res. drain q w = Some res \<and> (\<forall>w'. res = Inr w' \<longrightarrow> deque (event_queues w' q) = [])"
proof (induction w rule: wf_induct_rule [OF wf_measures [of
    "[\<lambda>w. length (filter is_completion (deque (event_queues w q))),
      \<lambda>w. length (deque (event_queues w q))]"]])
  case (1 w)
  show ?case
  proof (cases "deque (event_queues w q)")
    case Nil
    then show ?thesis
      by (subst drain.simps) (simp add: PopWithTimeout_def queue_defs)
  next
    case (Cons e ts)
    show ?thesis
    proof (cases "RunEventQueue_step q w")
      case (Inl err)
      with Cons show ?thesis by (subst drain.simps) (simp add: PopWithTimeout_def queue_defs)
    next
      case (Inr w')
      with Cons have "drain q w = drain q w'"
        by (subst drain.simps) (simp add: PopWithTimeout_def queue_defs)
      with 1 RunEventQueue_step_smaller [OF Inr Cons] show ?thesis by simp
    qed
  qed
qed

section \<open>What RPCs inherit\<close>

text \<open>
  A server creates RPCs of the methods it already serves, and a service that is shutting down stays so.
\<close>

definition inherits :: "('m, 'h, 'c) world \<Rightarrow> ('m, 'h, 'c) world \<Rightarrow> bool" where
  "inherits w w' \<longleftrightarrow>
     (\<forall>r x'. heap w' r = Some x' \<longrightarrow> (\<exists>r x. heap w r = Some x \<and>
        rpc_handler_info x = rpc_handler_info x' \<and> service x = service x')) \<and>
     (\<forall>s. shutting_down (services w s) \<longrightarrow> shutting_down (services w' s))"

lemma inherits_put:
  "heap w r = Some x \<Longrightarrow> rpc_handler_info x' = rpc_handler_info x \<Longrightarrow> service x' = service x \<Longrightarrow>
   inherits w (put_rpc r x' w)"
  unfolding inherits_def by (auto split: if_splits)

lemma inherits_same: "heap w' = heap w \<Longrightarrow> services w' = services w \<Longrightarrow> inherits w w'"
  unfolding inherits_def by auto

interpretation inh: step_measure inherits
proof unfold_locales
  fix w u v :: "('m, 'h, 'c) world"
  assume "inherits w u" "inherits u v"
  then show "inherits w v" unfolding inherits_def by metis
next
  fix q r and w w' :: "('m, 'h, 'c) world"
  assume "push_event q (InternalEvent WRITE_NEEDED r, DELETE) w = Inr w'"
  then show "inherits w w'"
    by (auto simp: push_event_def inherits_same split: option.splits)
next
  fix w :: "('m, 'h, 'c) world" and r and x0 x :: "('m, 'h, 'c) Rpc"
  assume "heap w r = Some x0" "rpc_handler_info x = rpc_handler_info x0" "service x = service x0"
  then show "inherits w (w\<lparr>heap := (heap w)(next_addr w \<mapsto> x), next_addr := Suc (next_addr w)\<rparr>)"
    by (auto simp: inherits_def)
next
  fix w :: "('m, 'h, 'c) world" and r x item rest
  assume "heap w r = Some x"
  then show "inherits w (issue r (send_event x item) (send_call x item) (sent_rpc x item rest) w)"
    by (auto simp: inherits_def sent_rpc_def)
next
  fix w :: "('m, 'h, 'c) world" and r ev ok m
  show "inherits w (grpc_announce r ev ok m w)"
    by (auto simp: inherits_def grpc_announce_def split: option.splits if_splits)
next
  fix w :: "('m, 'h, 'c) world" and r x ev e ok
  assume "heap w r = Some x" "GetRpcEvent ev x = Inr e"
  then show "inherits w (put_rpc r (put_event ev (e\<lparr>cqe_ok := ok\<rparr>) x) w)"
    by (cases ev) (auto intro!: inherits_put)
qed (auto intro: inherits_put inherits_same simp: inherits_def split: if_splits)

section \<open>The order of messages\<close>

text \<open>
  The calls with which RPC \<open>r\<close> has sent something, and what object \<open>x\<close> at \<open>r\<close> has sent and
  will send. Moving forward, an RPC that stays alive only gets more at the end of this list.
\<close>

definition sent :: "addr \<Rightarrow> ('m, 'h, 'c) world \<Rightarrow> 'm grpc_call list" where
  "sent r w = map (\<lambda>(_, call, _). call) (filter (\<lambda>(r', call, _). r' = r \<and> is_send call) (calls w))"

definition stream_of :: "addr \<Rightarrow> ('m, 'h, 'c) Rpc \<Rightarrow> ('m, 'h, 'c) world \<Rightarrow> 'm grpc_call list" where
  "stream_of r x w = sent r w @ map (send_call x) (send_queue x)"

definition streams_grow :: "('m, 'h, 'c) world \<Rightarrow> ('m, 'h, 'c) world \<Rightarrow> bool" where
  "streams_grow w w' \<longleftrightarrow> next_addr w \<le> next_addr w' \<and>
     (\<forall>r x'. r < next_addr w \<longrightarrow> heap w' r = Some x' \<longrightarrow>
        (\<exists>x. heap w r = Some x \<and> prefix (stream_of r x w) (stream_of r x' w')))"

lemma send_call_is_send: "is_send (send_call x item)"
  by (cases "rpc_type (rpc_handler_info x)"; cases "si_msg item") (simp_all add: send_call_def)

lemma send_call_cong: "rpc_handler_info x = rpc_handler_info y \<Longrightarrow> send_call x = send_call y"
  by (simp add: send_call_def fun_eq_iff)

lemma streams_grow_same:
  assumes "next_addr w' = next_addr w" "\<And>r. sent r w' = sent r w"
    and "\<And>r x'. heap w' r = Some x' \<Longrightarrow> \<exists>x. heap w r = Some x \<and>
      rpc_handler_info x' = rpc_handler_info x \<and> prefix (send_queue x) (send_queue x')"
  shows "streams_grow w w'"
  unfolding streams_grow_def
proof (intro conjI allI impI)
  fix r x'
  assume "heap w' r = Some x'"
  from assms(3) [OF this] obtain x where x: "heap w r = Some x"
    "rpc_handler_info x' = rpc_handler_info x" "prefix (send_queue x) (send_queue x')" by blast
  from x(3) have "prefix (map (send_call x) (send_queue x)) (map (send_call x) (send_queue x'))"
    by (rule map_mono_prefix)
  then show "\<exists>x. heap w r = Some x \<and> prefix (stream_of r x w) (stream_of r x' w')"
    using x assms(2) send_call_cong [OF x(2)] by (auto simp: stream_of_def)
qed (use assms(1) in simp)

interpretation sg: step_measure streams_grow
proof unfold_locales
  fix w u v :: "('m, 'h, 'c) world"
  show "streams_grow w w"
    by (rule streams_grow_same) auto
  assume a: "streams_grow w u" "streams_grow u v"
  show "streams_grow w v"
    unfolding streams_grow_def
  proof (intro conjI allI impI)
    show "next_addr w \<le> next_addr v" using a by (simp add: streams_grow_def)
    fix r x'
    assume r: "r < next_addr w" and x': "heap v r = Some x'"
    from r a(1) have "r < next_addr u" by (simp add: streams_grow_def)
    with a(2) x' obtain y where y: "heap u r = Some y" "prefix (stream_of r y u) (stream_of r x' v)"
      by (auto simp: streams_grow_def)
    with a(1) r obtain x where "heap w r = Some x" "prefix (stream_of r x w) (stream_of r y u)"
      by (auto simp: streams_grow_def)
    with y show "\<exists>x. heap w r = Some x \<and> prefix (stream_of r x w) (stream_of r x' v)"
      by (blast intro: prefix_order.trans)
  qed
next
  fix q r and w w' :: "('m, 'h, 'c) world"
  assume "push_event q (InternalEvent WRITE_NEEDED r, DELETE) w = Inr w'"
  then show "streams_grow w w'"
    by (intro streams_grow_same) (auto simp: push_event_def sent_def split: option.splits)
next
  fix w :: "('m, 'h, 'c) world" and r x item rest
  assume x: "heap w r = Some x" and q: "send_queue x = item # rest"
  let ?w = "issue r (send_event x item) (send_call x item) (sent_rpc x item rest) w"
  have sent: "sent r' ?w = sent r' w @ (if r' = r then [send_call x item] else [])" for r'
    by (simp add: sent_def send_call_is_send)
  have "send_call (set_pend ev True (sent_rpc x item rest)) = send_call x" for ev
    by (rule send_call_cong) (simp add: sent_rpc_def)
  then have "stream_of r (set_pend ev True (sent_rpc x item rest)) ?w = stream_of r x w" for ev
    using q by (simp add: stream_of_def sent, simp add: sent_rpc_def)
  moreover have "stream_of r' x' ?w = stream_of r' x' w" if "r' \<noteq> r" for r' x'
    using that by (simp add: stream_of_def sent)
  ultimately show "streams_grow w ?w"
    using x by (auto simp: streams_grow_def)
next
  fix w :: "('m, 'h, 'c) world" and call r ev
  assume "\<not> is_send (call :: 'm grpc_call)"
  then show "streams_grow w (w\<lparr>calls := calls w @ [(r, call, ev)], outstanding := outstanding w @ [(r, ev)]\<rparr>)"
    by (intro streams_grow_same) (simp_all add: sent_def)
next
  fix w :: "('m, 'h, 'c) world" and x
  show "streams_grow w (w\<lparr>heap := (heap w)(next_addr w \<mapsto> x), next_addr := Suc (next_addr w)\<rparr>)"
    by (simp add: streams_grow_def stream_of_def sent_def)
next
  fix w :: "('m, 'h, 'c) world" and r ev ok m
  show "streams_grow w (grpc_announce r ev ok m w)"
    by (rule streams_grow_same) (auto simp: grpc_announce_def sent_def split: option.splits if_splits)
next
  fix w :: "('m, 'h, 'c) world" and r x ev e ok
  assume x: "heap w r = Some x" "GetRpcEvent ev x = Inr e"
  show "streams_grow w (put_rpc r (put_event ev (e\<lparr>cqe_ok := ok\<rparr>) x) w)"
    by (rule streams_grow_same, simp_all add: sent_def split: if_splits) (use x in \<open>cases ev; auto\<close>)
qed (rule streams_grow_same, auto simp: sent_def split: if_splits)+

end
