(* ===== verification/Server_Invariant.thy ===== *)
theory Server_Invariant
  imports Event_Loop Rpc_Facts
begin

text \<open>
  The invariant of the server while it serves: which events of an RPC can be where, and who
  keeps an RPC alive. \<open>server_inv\<close> is the invariant between two steps; \<open>inv_except E H\<close> is what
  holds in the middle of one, with RPCs in \<open>E\<close> possibly lacking their handler and RPCs in \<open>H\<close>
  possibly having no event left. For every function of \<open>rpc.cc\<close> and \<open>service.cc\<close> that an event
  can reach there is a lemma that it succeeds and what it keeps of the invariant.
\<close>

section \<open>The invariant\<close>

text \<open>The events of \<open>r\<close> that wait in queue \<open>q\<close>, and those gRPC has not announced yet.\<close>

fun ev_of :: "addr \<Rightarrow> UniqueEventPtr \<Rightarrow> Event list" where
  "ev_of r (CqEvent r' ev, a) = (if r' = r then [ev] else [])"
| "ev_of r (InternalEvent ev r', a) = []"

definition queued :: "('m, 'h, 'c) world \<Rightarrow> addr \<Rightarrow> nat \<Rightarrow> Event list" where
  "queued w r q = concat (map (ev_of r) (deque (event_queues w q)))"

definition unannounced :: "('m, 'h, 'c) world \<Rightarrow> addr \<Rightarrow> Event list" where
  "unannounced w r = map snd (filter (\<lambda>p. fst p = r) (outstanding w))"

text \<open>
  A live RPC. Every pending event is either with gRPC or in the RPC's own event queue, exactly
  once, and no other event of it is anywhere. While it waits for its connection it has no
  handler and nothing but the end of the call is requested beside it; the connection comes
  first in the queue, and has succeeded exactly if the call has started. An RPC with a handler has
  started. A read is pending only on a method with a request stream, a write only on
  one with a response stream. \<open>e\<close> and \<open>h\<close> lift the clauses that do not hold while an event of
  this RPC is being handled.
\<close>

definition rpc_ok ::
  "bool \<Rightarrow> bool \<Rightarrow> addr \<Rightarrow> ('m, 'h, 'c) Rpc \<Rightarrow> (nat \<Rightarrow> Event list) \<Rightarrow> Event list \<Rightarrow> bool \<Rightarrow> bool" where
  "rpc_ok e h r x Q U st \<longleftrightarrow>
     well_built r x \<and>
     (\<forall>q. q \<noteq> event_queue x \<longrightarrow> Q q = []) \<and>
     (\<forall>ev. count_list U ev + count_list (Q (event_queue x)) ev = of_bool (pend ev x)) \<and>
     (pend NEW_CONNECTION x \<longrightarrow>
        handler x = None \<and> pend DONE x \<and> \<not> pend READ x \<and> \<not> pend WRITE x \<and> \<not> pend FINISH x \<and>
        (if NEW_CONNECTION \<in> set U then \<not> st \<and> Q (event_queue x) = []
         else Q (event_queue x) \<noteq> [] \<and> hd (Q (event_queue x)) = NEW_CONNECTION \<and>
           (if cqe_ok (new_connection_event x) then st
            else \<not> st \<and> Q (event_queue x) = [NEW_CONNECTION]))) \<and>
     (\<not> pend NEW_CONNECTION x \<longrightarrow> e \<or> handler x \<noteq> None) \<and>
     (handler x \<noteq> None \<longrightarrow> st) \<and>
     (pend READ x \<longrightarrow> reads_stream x) \<and>
     (pend WRITE x \<longrightarrow> writes_stream x) \<and>
     (h \<or> any_pend x)"

text \<open>A destroyed RPC: only the end of a call that never started is still requested for it.\<close>

definition dead_ok :: "(nat \<Rightarrow> Event list) \<Rightarrow> Event list \<Rightarrow> bool \<Rightarrow> bool" where
  "dead_ok Q U st \<longleftrightarrow> (\<forall>q. Q q = []) \<and> (\<forall>ev \<in> set U. ev = DONE \<and> \<not> st)"

definition row_ok :: "bool \<Rightarrow> bool \<Rightarrow> ('m, 'h, 'c) world \<Rightarrow> addr \<Rightarrow> bool" where
  "row_ok e h w r =
     (case heap w r of
        Some x \<Rightarrow> rpc_ok e h r x (queued w r) (unannounced w r) (r \<in> set (started w))
      | None \<Rightarrow> dead_ok (queued w r) (unannounced w r) (r \<in> set (started w)))"

text \<open>An entry of an event queue is deleted after handling exactly when the queue owns it.\<close>

fun entry_ok :: "addr set \<Rightarrow> ('m, 'h, 'c) world \<Rightarrow> UniqueEventPtr \<Rightarrow> bool" where
  "entry_ok E w (CqEvent r ev, a) \<longleftrightarrow> a = DO_NOT_DELETE"
| "entry_ok E w (InternalEvent ev r, a) \<longleftrightarrow> a = DELETE \<and> ev = WRITE_NEEDED \<and> r < next_addr w \<and>
     (\<forall>x. heap w r = Some x \<longrightarrow> r \<in> E \<or> handler x \<noteq> None)"

text \<open>
  What concerns all RPCs: the registries hold exactly the live objects, queues are unbounded, nobody
  holds a destroyed RPC, identities are fresh, and RPCs use the queues of existing event threads only.
\<close>

definition shared_ok :: "addr set \<Rightarrow> ('m, 'h, 'c) world \<Rightarrow> bool" where
  "shared_ok E w \<longleftrightarrow>
     (\<forall>s. owns_itself (active_rpcs (services w s))) \<and>
     (\<forall>s r. r \<in> active_keys (active_rpcs (services w s)) \<longleftrightarrow>
        (\<exists>x. heap w r = Some x \<and> service x = s)) \<and>
     (\<forall>q. queue_size (event_queues w q) = 0) \<and>
     (\<forall>q. \<forall>e \<in> set (deque (event_queues w q)). entry_ok E w e) \<and>
     (\<forall>r \<in> set (holders w). \<exists>x. heap w r = Some x \<and> handler x \<noteq> None) \<and>
     (\<forall>r. next_addr w \<le> r \<longrightarrow> heap w r = None \<and> unannounced w r = [] \<and> r \<notin> set (started w)) \<and>
     (\<forall>r x. heap w r = Some x \<longrightarrow> event_queue x < num_event_threads w) \<and>
     (\<forall>q. num_event_threads w \<le> q \<longrightarrow> deque (event_queues w q) = []) \<and>
     0 < num_event_threads w \<and> num_event_threads w < 2 ^ 31 \<and>
     0 \<le> current_event_queue_id w \<and> current_event_queue_id w < int (num_event_threads w)"

definition inv_except :: "addr set \<Rightarrow> addr set \<Rightarrow> ('m, 'h, 'c) world \<Rightarrow> bool" where
  "inv_except E H w \<longleftrightarrow> shared_ok E w \<and> (\<forall>r. row_ok (r \<in> E) (r \<in> H) w r)"

definition server_inv :: "('m, 'h, 'c) world \<Rightarrow> bool" where
  "server_inv w \<longleftrightarrow> inv_except {} {} w"

section \<open>Reading the invariant\<close>

lemma row_Some: "row_ok e h w r \<Longrightarrow> heap w r = Some x \<Longrightarrow>
  rpc_ok e h r x (queued w r) (unannounced w r) (r \<in> set (started w))"
  by (simp add: row_ok_def)

lemma row_frame:
  assumes "row_ok e h w r"
    and "heap w' r = heap w r" "\<And>q. queued w' r q = queued w r q" "unannounced w' r = unannounced w r"
    and "r \<in> set (started w') \<longleftrightarrow> r \<in> set (started w)"
  shows "row_ok e h w' r"
proof -
  have "queued w' r = queued w r" using assms(3) by blast
  with assms show ?thesis by (simp add: row_ok_def split: option.splits)
qed

lemma inv_rpc:
  "inv_except E H w \<Longrightarrow> heap w r = Some x \<Longrightarrow>
   rpc_ok (r \<in> E) (r \<in> H) r x (queued w r) (unannounced w r) (r \<in> set (started w))"
  unfolding inv_except_def by (blast intro: row_Some)

lemma inv_sendable: "inv_except E H w \<Longrightarrow> heap w r = Some x \<Longrightarrow> sendable r w"
  by (auto simp: inv_except_def shared_ok_def sendable_def is_active_def)

lemma rpc_ok_queue: "rpc_ok e h r x Q U st \<Longrightarrow> Q q \<noteq> [] \<Longrightarrow> event_queue x = q"
  unfolding rpc_ok_def by metis

lemma shared_entry: "shared_ok E w \<Longrightarrow> e \<in> set (deque (event_queues w q)) \<Longrightarrow> entry_ok E w e"
  by (simp add: shared_ok_def)

lemma rpc_ok_mono: "rpc_ok e h r x Q U st \<Longrightarrow> (e \<longrightarrow> e') \<Longrightarrow> (h \<longrightarrow> h') \<Longrightarrow> rpc_ok e' h' r x Q U st"
  unfolding rpc_ok_def by blast

lemma row_ok_mono: "row_ok e h w r \<Longrightarrow> (e \<longrightarrow> e') \<Longrightarrow> (h \<longrightarrow> h') \<Longrightarrow> row_ok e' h' w r"
  by (auto simp: row_ok_def split: option.splits intro: rpc_ok_mono)

lemma entry_ok_mono: "entry_ok E w e \<Longrightarrow> E \<subseteq> E' \<Longrightarrow> entry_ok E' w e"
  by (cases "(E, w, e)" rule: entry_ok.cases) auto

lemma shared_ok_mono: "shared_ok E w \<Longrightarrow> E \<subseteq> E' \<Longrightarrow> shared_ok E' w"
  by (simp add: shared_ok_def) (blast intro: entry_ok_mono)

lemma inv_except_mono:
  "inv_except E H w \<Longrightarrow> E \<subseteq> E' \<Longrightarrow> H \<subseteq> H' \<Longrightarrow> inv_except E' H' w"
  unfolding inv_except_def
  by (blast intro: shared_ok_mono row_ok_mono)

lemma queued_cong: "deque (event_queues w' q) = deque (event_queues w q) \<Longrightarrow> queued w' r q = queued w r q"
  by (simp add: queued_def)

lemma unannounced_cong: "outstanding w' = outstanding w \<Longrightarrow> unannounced w' r = unannounced w r"
  by (simp add: unannounced_def)

section \<open>Preservation by the updates of the state\<close>

text \<open>An update that concerns the single RPC \<open>r\<close>.\<close>

lemma inv_local:
  assumes inv: "inv_except E H w" and sh: "shared_ok E' w'"
    and EH: "E - {r} \<subseteq> E'" "H - {r} \<subseteq> H'"
    and frame: "\<And>r'. r' \<noteq> r \<Longrightarrow> heap w' r' = heap w r'"
      "\<And>r' q. r' \<noteq> r \<Longrightarrow> queued w' r' q = queued w r' q"
      "\<And>r'. r' \<noteq> r \<Longrightarrow> unannounced w' r' = unannounced w r'"
      "\<And>r'. r' \<noteq> r \<Longrightarrow> r' \<in> set (started w') \<longleftrightarrow> r' \<in> set (started w)"
    and row: "row_ok (r \<in> E') (r \<in> H') w' r"
  shows "inv_except E' H' w'"
  unfolding inv_except_def
proof (intro conjI allI)
  fix r'
  show "row_ok (r' \<in> E') (r' \<in> H') w' r'"
  proof (cases "r' = r")
    case False
    from inv have "row_ok (r' \<in> E) (r' \<in> H) w r'" by (simp add: inv_except_def)
    then have "row_ok (r' \<in> E) (r' \<in> H) w' r'"
      by (rule row_frame) (use frame False in blast)+
    with EH False show ?thesis by (auto intro: row_ok_mono)
  qed (use row in simp)
qed (rule sh)

lemma queued_put_rpc [simp]: "queued (put_rpc r x w) r' q = queued w r' q"
  by (simp add: queued_def)

lemma unannounced_put_rpc [simp]: "unannounced (put_rpc r x w) r' = unannounced w r'"
  by (simp add: unannounced_def)

lemma queued_push_internal [simp]: "queued (push_n n p (write_needed r) w) r' q = queued w r' q"
  by (simp add: queued_def map_replicate_const [symmetric])

lemma unannounced_push_n [simp]: "unannounced (push_n n p e w) r = unannounced w r"
  by (simp add: unannounced_def)

lemma shared_ok_put_rpc:
  assumes sh: "shared_ok E w" and x: "heap w r = Some x" and s: "service x' = service x"
    and q: "event_queue x' = event_queue x"
    and h: "handler x' \<noteq> None \<or> r \<in> E' \<and> r \<notin> set (holders w)" and E: "E - {r} \<subseteq> E'"
  shows "shared_ok E' (put_rpc r x' w)"
proof -
  have entry: "entry_ok E' (put_rpc r x' w) e" if "entry_ok E w e" for e
    using that h E x by (cases "(E, w, e)" rule: entry_ok.cases) auto
  from sh x s q h show ?thesis
    unfolding shared_ok_def by (auto intro: entry)
qed

lemma inv_put_rpc:
  assumes inv: "inv_except E H w" and x: "heap w r = Some x" and s: "service x' = service x"
    and q: "event_queue x' = event_queue x"
    and h: "handler x' \<noteq> None \<or> r \<in> E' \<and> r \<notin> set (holders w)"
    and EH: "E - {r} \<subseteq> E'" "H - {r} \<subseteq> H'"
    and row: "rpc_ok (r \<in> E') (r \<in> H') r x' (queued w r) (unannounced w r) (r \<in> set (started w))"
  shows "inv_except E' H' (put_rpc r x' w)"
proof (rule inv_local [OF inv])
  from inv have "shared_ok E w" by (simp add: inv_except_def)
  then show "shared_ok E' (put_rpc r x' w)" by (rule shared_ok_put_rpc [OF _ x s q h EH(1)])
  have "queued (put_rpc r x' w) r = queued w r" by (rule ext) simp
  with row show "row_ok (r \<in> E') (r \<in> H') (put_rpc r x' w) r" by (simp add: row_ok_def)
qed (use EH in simp_all)

lemma inv_push_internal:
  assumes inv: "inv_except E H w" and x: "heap w r = Some x" and h: "r \<in> E \<or> handler x \<noteq> None"
    and q: "q = event_queue x"
  shows "inv_except E H (push_n n q (write_needed r) w)"
proof (rule inv_local [OF inv])
  from inv have sh: "shared_ok E w" by (simp add: inv_except_def)
  then have "r < next_addr w" using x unfolding shared_ok_def by (metis not_le option.distinct(1))
  with x h have new: "entry_ok E w (write_needed r)" by simp
  have entry: "entry_ok E (push_n n q (write_needed r) w) e" if "entry_ok E w e" for e
    using that by (cases "(E, w, e)" rule: entry_ok.cases) auto
  have "q < num_event_threads w" using sh x q by (simp add: shared_ok_def)
  with sh new show "shared_ok E (push_n n q (write_needed r) w)"
    unfolding shared_ok_def by (auto intro: entry)
  from inv x have "rpc_ok (r \<in> E) (r \<in> H) r x (queued w r) (unannounced w r) (r \<in> set (started w))"
    by (rule inv_rpc)
  moreover have "queued (push_n n q (write_needed r) w) r = queued w r" by (rule ext) simp
  ultimately show "row_ok (r \<in> E) (r \<in> H) (push_n n q (write_needed r) w) r"
    using x by (simp add: row_ok_def)
qed auto

lemma inv_cong:
  assumes "inv_except E H w"
    and "heap w' = heap w" "next_addr w' = next_addr w" "services w' = services w"
      "holders w' = holders w" "num_event_threads w' = num_event_threads w"
      "event_queues w' = event_queues w" "outstanding w' = outstanding w" "started w' = started w"
    and "0 \<le> current_event_queue_id w'" "current_event_queue_id w' < int (num_event_threads w)"
  shows "inv_except E H w'"
proof -
  have q: "queued w' r = queued w r" "unannounced w' r = unannounced w r" for r
    using assms(7,8) by (auto simp: queued_def unannounced_def)
  have "entry_ok E w' e = entry_ok E w e" for e
    using assms(2,3) by (cases "(E, w, e)" rule: entry_ok.cases) auto
  with assms q have "shared_ok E w'"
    unfolding inv_except_def shared_ok_def by simp
  moreover have "row_ok e h w' r" if "row_ok e h w r" for e h r
    using that by (rule row_frame) (use assms(2,9) q in simp_all)
  ultimately show ?thesis using assms(1) by (simp add: inv_except_def)
qed

lemma inv_context: "inv_except E H w \<Longrightarrow> inv_except E H (w\<lparr>exec_context := c\<rparr>)"
  by (rule inv_cong) (auto simp: inv_except_def shared_ok_def)

lemma rpc_ok_update [simp]:
  "rpc_ok e h r (x\<lparr>send_queue := sq\<rparr>) Q U st = rpc_ok e h r x Q U st"
  "rpc_ok e h r (x\<lparr>response := p\<rparr>) Q U st = rpc_ok e h r x Q U st"
  "rpc_ok e h r (x\<lparr>request := m\<rparr>) Q U st = rpc_ok e h r x Q U st"
  by (simp_all add: rpc_ok_def any_pend_def reads_stream_def writes_stream_def)

lemma rpc_ok_handler:
  "rpc_ok e h r x Q U st \<Longrightarrow> \<not> pend NEW_CONNECTION x \<Longrightarrow> (handler x = None \<longrightarrow> st) \<Longrightarrow>
   rpc_ok e' h r (x\<lparr>handler := Some a\<rparr>) Q U st"
  by (auto simp: rpc_ok_def any_pend_def reads_stream_def writes_stream_def)

lemma inv_handled:
  assumes inv: "inv_except E H w" and x: "heap w r = Some x" and n: "\<not> pend NEW_CONNECTION x"
    and st: "handler x = None \<longrightarrow> r \<in> set (started w)"
  shows "inv_except (E - {r}) H (handled r h c its w)"
proof -
  let ?x = "x\<lparr>handler := Some h, send_queue := send_queue x @ its\<rparr>"
  have eq: "handled r h c its w =
      push_n (length its) (event_queue x) (write_needed r) (put_rpc r ?x (w\<lparr>exec_context := c\<rparr>))"
    using x by (simp add: handled_def enq_Some put_rpc_def)
  have "inv_except (E - {r}) H (put_rpc r ?x (w\<lparr>exec_context := c\<rparr>))"
  proof (rule inv_put_rpc [OF inv_context [OF inv]])
    have "queued (w\<lparr>exec_context := c\<rparr>) r = queued w r" by (simp add: queued_def fun_eq_iff)
    with rpc_ok_handler [OF inv_rpc [OF inv x] n st]
    show "rpc_ok (r \<in> E - {r}) (r \<in> H) r ?x (queued (w\<lparr>exec_context := c\<rparr>) r)
        (unannounced (w\<lparr>exec_context := c\<rparr>) r) (r \<in> set (started (w\<lparr>exec_context := c\<rparr>)))"
      by (simp add: unannounced_def)
  qed (use x in auto)
  then show ?thesis
    unfolding eq by (rule inv_push_internal [where x = ?x]) auto
qed

lemma inv_enq:
  assumes inv: "inv_except E H w" and x: "heap w r = Some x" and h: "handler x \<noteq> None"
  shows "inv_except E H (enq r its w)"
proof -
  have "inv_except E H (put_rpc r (x\<lparr>send_queue := send_queue x @ its\<rparr>) w)"
    by (rule inv_put_rpc [OF inv x]) (use inv_rpc [OF inv x] h in auto)
  then show ?thesis
    unfolding enq_Some [OF x]
    by (rule inv_push_internal [where x = "x\<lparr>send_queue := send_queue x @ its\<rparr>"]) (use h in auto)
qed

lemma queued_issue [simp]: "queued (issue r ev call x w) r' q = queued w r' q"
  by (simp add: queued_def)

lemma unannounced_issue [simp]:
  "unannounced (issue r ev call x w) r' = unannounced w r' @ (if r' = r then [ev] else [])"
  by (simp add: unannounced_def)

text \<open>Requesting a read, a write or a finish that is not pending yet.\<close>

lemma rpc_ok_issue:
  assumes ok: "rpc_ok e h r x Q U st"
    and ev: "ev \<in> {READ, WRITE, FINISH}" and p: "\<not> pend ev x" "\<not> pend NEW_CONNECTION x"
    and str: "ev = READ \<longrightarrow> reads_stream x" "ev = WRITE \<longrightarrow> writes_stream x"
  shows "rpc_ok e h' r (set_pend ev True x) Q (U @ [ev]) st"
  using assms
  by (auto simp: rpc_ok_def pend_set_pend any_pend_def reads_stream_def writes_stream_def)

lemma inv_issue:
  assumes inv: "inv_except E H w" and x: "heap w r = Some x"
    and ev: "ev \<in> {READ, WRITE, FINISH}" and p: "\<not> pend ev x" "\<not> pend NEW_CONNECTION x"
    and h: "handler x \<noteq> None"
    and str: "ev = READ \<longrightarrow> reads_stream x" "ev = WRITE \<longrightarrow> writes_stream x"
  shows "inv_except E (H - {r}) (issue r ev call x w)"
proof (rule inv_local [OF inv])
  have sh: "shared_ok E w" using inv by (simp add: inv_except_def)
  then have "r < next_addr w" using x unfolding shared_ok_def by (metis not_le option.distinct(1))
  have entry: "entry_ok E (issue r ev call x w) e" if "entry_ok E w e" for e
    using that h by (cases "(E, w, e)" rule: entry_ok.cases) auto
  from sh x h \<open>r < next_addr w\<close> show "shared_ok E (issue r ev call x w)"
    unfolding shared_ok_def by (auto intro: entry)
  have "queued (issue r ev call x w) r = queued w r" by (rule ext) simp
  with rpc_ok_issue [OF inv_rpc [OF inv x] ev p str]
  show "row_ok (r \<in> E) (r \<in> H - {r}) (issue r ev call x w) r" by (simp add: row_ok_def)
qed auto

text \<open>Destroying an RPC for which nothing can arrive any more.\<close>

lemma count_all_zero: "(\<And>a. count_list xs a = 0) \<Longrightarrow> xs = []"
  by (metis count_list_0_iff list.set_intros(1) neq_Nil_conv)

lemma rpc_ok_quiet:
  assumes ok: "rpc_ok e h r x Q U st" and quiet: "\<not> any_pend x"
  shows "dead_ok Q U st"
proof -
  have "\<not> pend ev x" for ev
    using ok quiet by (cases ev) (auto simp: rpc_ok_def any_pend_def pend.simps)
  with ok have c: "count_list U ev + count_list (Q (event_queue x)) ev = 0" for ev
    by (simp add: rpc_ok_def)
  have "U = []" "Q (event_queue x) = []"
    by (rule count_all_zero, use c in simp)+
  moreover have "q \<noteq> event_queue x \<Longrightarrow> Q q = []" for q
    using ok by (simp add: rpc_ok_def)
  ultimately show ?thesis unfolding dead_ok_def by (metis empty_iff list.set(1))
qed

lemma queued_set_active [simp]:
  "queued ((set_active s a w)\<lparr>heap := hp\<rparr>) r q = queued w r q"
  by (simp add: queued_def set_active_def)

lemma unannounced_set_active [simp]:
  "unannounced ((set_active s a w)\<lparr>heap := hp\<rparr>) r = unannounced w r"
  by (simp add: unannounced_def set_active_def)

lemma set_active_fields [simp]:
  "heap (set_active s a w) = heap w"
  "next_addr (set_active s a w) = next_addr w"
  "holders (set_active s a w) = holders w"
  "num_event_threads (set_active s a w) = num_event_threads w"
  "current_event_queue_id (set_active s a w) = current_event_queue_id w"
  "event_queues (set_active s a w) = event_queues w"
  "exec_context (set_active s a w) = exec_context w"
  "calls (set_active s a w) = calls w"
  "outstanding (set_active s a w) = outstanding w"
  "started (set_active s a w) = started w"
  "services (set_active s a w) = (services w)(s := (services w s)\<lparr>active_rpcs := a\<rparr>)"
  by (simp_all add: set_active_def)

lemma remove_rpc_inv:
  assumes inv: "inv_except E H w" and x: "heap w r = Some x" and nh: "r \<notin> set (holders w)"
    and dead: "dead_ok (queued w r) (unannounced w r) (r \<in> set (started w))"
  shows "\<exists>w'. remove_rpc (service x) r w = Inr w' \<and> inv_except (E - {r}) (H - {r}) w' \<and>
    heap w' = (heap w)(r := None) \<and> holders w' = holders w"
proof -
  let ?a = "active_rpcs (services w (service x))"
  let ?a' = "snd (ActiveRpcs_Remove r ?a)"
  let ?w = "(set_active (service x) ?a' w)\<lparr>heap := (heap w)(r := None)\<rparr>"
  have sh: "shared_ok E w" using inv by (simp add: inv_except_def)
  with x have act: "r \<in> active_keys ?a" and own: "owns_itself ?a"
    by (auto simp: shared_ok_def)
  then have eq: "remove_rpc (service x) r w = Inr ?w"
    using nh ar.remove_result [of r ?a] by (simp add: remove_rpc_def split_beta)
  have entry: "entry_ok (E - {r}) ?w e" if "entry_ok E w e" for e
    using that by (cases "(E, w, e)" rule: entry_ok.cases) auto
  have "inv_except (E - {r}) (H - {r}) ?w"
  proof (rule inv_local [OF inv])
    have act': "active_keys (active_rpcs (services ?w s)) =
        active_keys (active_rpcs (services w s)) - (if s = service x then {r} else {})" for s
      by (simp add: ar.remove_keys)
    have own': "owns_itself (active_rpcs (services ?w s))" for s
      using sh ar.remove_invar [OF own] by (simp add: shared_ok_def)
    have "(r' \<in> active_keys (active_rpcs (services ?w s))) =
        (\<exists>y. heap ?w r' = Some y \<and> service y = s)" for s r'
      unfolding act' using sh x by (auto simp: shared_ok_def)
    with sh own' nh show "shared_ok (E - {r}) ?w"
      unfolding shared_ok_def by (auto intro: entry)
    have "queued ?w r = queued w r" by (rule ext) simp
    with dead show "row_ok (r \<in> E - {r}) (r \<in> H - {r}) ?w r" by (simp add: row_ok_def)
  qed auto
  with eq show ?thesis by (auto simp: set_active_def)
qed

text \<open>Adding an RPC that waits for the next connection.\<close>

lemma add_rpc_inv:
  assumes inv: "inv_except E H w"
    and mk: "\<And>r. well_built r (mk r)" "\<And>r ev. \<not> pend ev (mk r)" "\<And>r. handler (mk r) = None"
      "\<And>r. service (mk r) = s" "\<And>r. event_queue (mk r) < num_event_threads w"
  shows "\<exists>r w1 w2. add_rpc s mk w = Inr (r, w1) \<and> RequestNextMethodInvocation r w1 = Inr w2 \<and>
    inv_except E H w2 \<and> r = next_addr w \<and>
    heap w2 = (heap w)(r \<mapsto> set_pend NEW_CONNECTION True (set_pend DONE True (mk r))) \<and>
    next_addr w2 = Suc r \<and> num_event_threads w2 = num_event_threads w \<and>
    current_event_queue_id w2 = current_event_queue_id w \<and>
    calls w2 = calls w @ [(r, AsyncNotifyWhenDone, DONE), (r, request_call (mk r), NEW_CONNECTION)] \<and>
    (\<forall>t. rpc_handler_infos (services w2 t) = rpc_handler_infos (services w t))"
proof -
  let ?r = "next_addr w"
  let ?a = "active_rpcs (services w s)"
  have sh: "shared_ok E w" using inv by (simp add: inv_except_def)
  then have free: "heap w ?r = None" "unannounced w ?r = []" "?r \<notin> set (started w)"
    by (simp_all add: shared_ok_def)
  with sh have "?r \<notin> active_keys ?a" by (auto simp: shared_ok_def)
  with ar.add_new obtain a where a: "ActiveRpcs_Add ?r ?a = Inr a" and
    keys: "active_keys a = insert ?r (active_keys ?a)" by blast
  let ?w1 = "set_active s a (w\<lparr>heap := (heap w)(?r \<mapsto> mk ?r), next_addr := Suc ?r\<rparr>)"
  let ?x = "set_pend NEW_CONNECTION True (set_pend DONE True (mk ?r))"
  let ?w2 = "issue ?r NEW_CONNECTION (request_call (mk ?r)) (set_pend DONE True (mk ?r))
      (issue ?r DONE AsyncNotifyWhenDone (mk ?r) ?w1)"
  have w1: "add_rpc s mk w = Inr (?r, ?w1)" by (simp add: add_rpc_def Let_def a)
  have w2: "RequestNextMethodInvocation ?r ?w1 = Inr ?w2"
    by (rule RequestNextMethodInvocation_eq) simp
  have heap: "heap ?w2 = (heap w)(?r \<mapsto> ?x)" by simp
  have q: "queued ?w2 r q = queued w r q" for r q by (simp add: queued_def)
  have u: "unannounced ?w2 r = unannounced w r @ (if r = ?r then [DONE, NEW_CONNECTION] else [])" for r
    by (simp add: unannounced_def)
  have entry: "entry_ok E ?w2 e" if "entry_ok E w e" for e
    using that by (cases "(E, w, e)" rule: entry_ok.cases) auto
  have "inv_except E H ?w2"
  proof (rule inv_local [OF inv, where r = ?r])
    have act': "active_keys (active_rpcs (services ?w2 t)) =
        active_keys (active_rpcs (services w t)) \<union> (if t = s then {?r} else {})" for t
      using keys by simp
    have "(r' \<in> active_keys (active_rpcs (services ?w2 t))) =
        (\<exists>y. heap ?w2 r' = Some y \<and> service y = t)" for t r'
      unfolding act' heap using sh mk(4) free(1) by (auto simp: shared_ok_def)
    moreover have "owns_itself (active_rpcs (services ?w2 t))" for t
      using sh ar.add_invar [OF _ a] by (simp add: shared_ok_def)
    moreover have "\<forall>r \<in> set (holders w). r \<noteq> ?r"
      using sh free(1) by (auto simp: shared_ok_def)
    moreover have "\<forall>r'. next_addr ?w2 \<le> r' \<longrightarrow>
        heap ?w2 r' = None \<and> unannounced ?w2 r' = [] \<and> r' \<notin> set (started ?w2)"
      unfolding u heap using sh by (auto simp: shared_ok_def)
    moreover have "\<forall>r' x. heap ?w2 r' = Some x \<longrightarrow> event_queue x < num_event_threads ?w2"
      unfolding heap using sh mk(5) by (auto simp: shared_ok_def)
    ultimately show "shared_ok E ?w2"
      using sh unfolding shared_ok_def by (auto intro: entry)
    have dead: "dead_ok (queued w ?r) (unannounced w ?r) False"
      using inv free by (auto simp: inv_except_def row_ok_def dest!: spec [of _ ?r])
    have "queued ?w2 ?r = queued w ?r" using q by blast
    moreover have "unannounced ?w1 ?r = []" using free(2) by (simp add: unannounced_def)
    ultimately show "row_ok (?r \<in> E) (?r \<in> H) ?w2 ?r"
      using dead mk free by (simp add: row_ok_def rpc_ok_def dead_ok_def pend_set_pend any_pend_def)
  qed (use q u in auto)
  moreover have "rpc_handler_infos (services ?w2 t) = rpc_handler_infos (services w t)" for t
    by (simp add: set_active_def)
  ultimately show ?thesis using w1 w2 heap by fastforce
qed

text \<open>Taking an entry from an event queue.\<close>

definition popq :: "nat \<Rightarrow> UniqueEventPtr list \<Rightarrow> ('m, 'h, 'c) world \<Rightarrow> ('m, 'h, 'c) world" where
  "popq q ts w = w\<lparr>event_queues := (event_queues w)(q := (event_queues w q)\<lparr>deque := ts\<rparr>)\<rparr>"

lemma popq_fields [simp]:
  "heap (popq q ts w) = heap w"
  "next_addr (popq q ts w) = next_addr w"
  "services (popq q ts w) = services w"
  "holders (popq q ts w) = holders w"
  "num_event_threads (popq q ts w) = num_event_threads w"
  "current_event_queue_id (popq q ts w) = current_event_queue_id w"
  "outstanding (popq q ts w) = outstanding w"
  "started (popq q ts w) = started w"
  "queue_size (event_queues (popq q ts w) p) = queue_size (event_queues w p)"
  "deque (event_queues (popq q ts w) p) = (if p = q then ts else deque (event_queues w p))"
  "unannounced (popq q ts w) r = unannounced w r"
  by (simp_all add: popq_def unannounced_def)

lemma shared_ok_popq:
  assumes "shared_ok E w" "deque (event_queues w q) = e # ts"
  shows "shared_ok E (popq q ts w)"
proof -
  have "entry_ok E (popq q ts w) e" if "entry_ok E w e" for e
    using that by (cases "(E, w, e)" rule: entry_ok.cases) auto
  moreover have "set (deque (event_queues (popq q ts w) p)) \<subseteq> set (deque (event_queues w p))" for p
    using assms(2) by auto
  ultimately have "\<forall>e \<in> set (deque (event_queues (popq q ts w) p)). entry_ok E (popq q ts w) e" for p
    using assms(1) unfolding shared_ok_def by blast
  moreover have "q < num_event_threads w"
    using assms by (cases "num_event_threads w \<le> q") (auto simp: shared_ok_def)
  ultimately show ?thesis using assms(1) unfolding shared_ok_def by simp
qed

lemma rpc_ok_pop:
  assumes ok: "rpc_ok False False r x Q U st" and Q: "Q (event_queue x) = ev # rest"
    and Q': "Q' = Q(event_queue x := rest)"
  shows "pend ev x \<and> (ev \<noteq> NEW_CONNECTION \<longrightarrow> \<not> pend NEW_CONNECTION x \<and> handler x \<noteq> None) \<and>
    rpc_ok (ev = NEW_CONNECTION) True r (set_pend ev False x) Q' U st \<and>
    (ev = NEW_CONNECTION \<longrightarrow> handler x = None \<and> pend DONE x \<and>
       \<not> pend READ x \<and> \<not> pend WRITE x \<and> \<not> pend FINISH x) \<and>
    (ev = NEW_CONNECTION \<and> \<not> cqe_ok (new_connection_event x) \<longrightarrow> dead_ok Q' U st) \<and>
    (ev = NEW_CONNECTION \<and> cqe_ok (new_connection_event x) \<longrightarrow> st)"
proof -
  have cnt: "count_list U e + count_list (ev # rest) e = of_bool (pend e x)" for e
    using ok Q by (simp add: rpc_ok_def)
  from cnt [of ev] have p: "pend ev x" by (cases "pend ev x") simp_all
  then have ev: "ev \<noteq> WRITE_NEEDED" by (auto simp: pend.simps)
  have noU: "ev \<notin> set U" using cnt [of ev] p by (auto simp: count_list_0_iff [symmetric])
  have new: "\<not> pend NEW_CONNECTION x" if "ev \<noteq> NEW_CONNECTION"
    using ok Q that by (auto simp: rpc_ok_def split: if_splits)
  have cnt': "count_list U e + count_list rest e = of_bool (pend e (set_pend ev False x))" for e
    using cnt [of e] p ev by (auto simp: pend_set_pend)
  have ok': "rpc_ok (ev = NEW_CONNECTION) True r (set_pend ev False x) Q' U st"
    using ok cnt' new ev Q'
    by (auto simp: rpc_ok_def pend_set_pend reads_stream_def writes_stream_def)
  have fresh: "handler x = None \<and> pend DONE x \<and> \<not> pend READ x \<and> \<not> pend WRITE x \<and> \<not> pend FINISH x"
    if "ev = NEW_CONNECTION"
    using ok p that by (simp add: rpc_ok_def)
  have dead: "dead_ok Q' U st" if new_ev: "ev = NEW_CONNECTION" and "\<not> cqe_ok (new_connection_event x)"
  proof -
    have st: "\<not> st" "rest = []"
      using ok p noU that Q by (simp_all add: rpc_ok_def)
    have "e = DONE" if "e \<in> set U" for e
    proof -
      from that cnt [of e] have "pend e x"
        by (cases "pend e x") (simp_all add: count_list_0_iff)
      with fresh [OF new_ev] noU new_ev that show ?thesis
        by (cases e) (auto simp: pend.simps)
    qed
    moreover have "Q' q = []" for q
      using ok Q' st(2) by (simp add: rpc_ok_def)
    ultimately show ?thesis using st(1) by (simp add: dead_ok_def)
  qed
  have started: "st" if "ev = NEW_CONNECTION" "cqe_ok (new_connection_event x)"
    using ok p noU that Q by (simp add: rpc_ok_def)
  have "handler x \<noteq> None" if "ev \<noteq> NEW_CONNECTION"
    using ok new [OF that] by (simp add: rpc_ok_def)
  with p new ok' dead fresh started show ?thesis by blast
qed

lemma queued_popq:
  "deque (event_queues w q) = e # ts \<Longrightarrow>
   queued w r p = (if p = q then ev_of r e else []) @ queued (popq q ts w) r p"
  by (simp add: queued_def)

lemma inv_pop_completion:
  assumes inv: "server_inv w" and q: "deque (event_queues w q) = (CqEvent r ev, a) # ts"
  shows "\<exists>x. heap w r = Some x \<and> pend ev x \<and>
    (ev \<noteq> NEW_CONNECTION \<longrightarrow> \<not> pend NEW_CONNECTION x \<and> handler x \<noteq> None) \<and>
    (ev = NEW_CONNECTION \<longrightarrow> handler x = None \<and> pend DONE x \<and> \<not> pend READ x \<and>
       r \<notin> set (holders w)) \<and>
    inv_except (if ev = NEW_CONNECTION then {r} else {}) {r}
      (put_rpc r (set_pend ev False x) (popq q ts w)) \<and>
    (ev = NEW_CONNECTION \<and> \<not> cqe_ok (new_connection_event x) \<longrightarrow>
       dead_ok (queued (popq q ts w) r) (unannounced w r) (r \<in> set (started w))) \<and>
    (ev = NEW_CONNECTION \<and> cqe_ok (new_connection_event x) \<longrightarrow> r \<in> set (started w))"
proof -
  have inv': "inv_except {} {} w" and sh: "shared_ok {} w"
    using inv by (simp_all add: server_inv_def inv_except_def)
  have qr: "queued w r p = (if p = q then [ev] else []) @ queued (popq q ts w) r p" for p
    using queued_popq [OF q, of r p] by simp
  have "row_ok False False w r" using inv' by (simp add: inv_except_def)
  moreover have "queued w r q \<noteq> []" using qr [of q] by simp
  ultimately obtain x where x: "heap w r = Some x"
    by (auto simp: row_ok_def dead_ok_def split: option.splits)
  have ok: "rpc_ok False False r x (queued w r) (unannounced w r) (r \<in> set (started w))"
    using inv_rpc [OF inv' x] by simp
  then have eq: "event_queue x = q" by (rule rpc_ok_queue) (use qr [of q] in simp)
  have upd: "queued (popq q ts w) r = (queued w r)(event_queue x := queued (popq q ts w) r q)"
    using qr eq by (auto simp: fun_eq_iff)
  note pop = rpc_ok_pop [OF ok, of ev "queued (popq q ts w) r q", OF _ upd]
  have pop': "pend ev x" "ev \<noteq> NEW_CONNECTION \<longrightarrow> \<not> pend NEW_CONNECTION x \<and> handler x \<noteq> None"
    "rpc_ok (ev = NEW_CONNECTION) True r (set_pend ev False x) (queued (popq q ts w) r)
       (unannounced w r) (r \<in> set (started w))"
    "ev = NEW_CONNECTION \<longrightarrow> handler x = None \<and> pend DONE x \<and> \<not> pend READ x"
    "ev = NEW_CONNECTION \<and> \<not> cqe_ok (new_connection_event x) \<longrightarrow>
       dead_ok (queued (popq q ts w) r) (unannounced w r) (r \<in> set (started w))"
    "ev = NEW_CONNECTION \<and> cqe_ok (new_connection_event x) \<longrightarrow> r \<in> set (started w)"
    using pop qr [of q] eq by simp_all
  have hold: "handler x = None \<longrightarrow> r \<notin> set (holders w)"
    using sh x by (auto simp: shared_ok_def)
  let ?E = "if ev = NEW_CONNECTION then {r} else {}"
  let ?w = "put_rpc r (set_pend ev False x) (popq q ts w)"
  have "inv_except ?E {r} ?w"
  proof (rule inv_local [OF inv'])
    show "shared_ok ?E ?w"
      by (rule shared_ok_put_rpc [OF shared_ok_popq [OF sh q]]) (use x pop' hold in auto)
    have "queued ?w r = queued (popq q ts w) r" by (rule ext) simp
    with pop'(3) show "row_ok (r \<in> ?E) (r \<in> {r}) ?w r"
      by (cases "ev = NEW_CONNECTION") (simp_all add: row_ok_def)
    show "queued ?w r' p = queued w r' p" if "r' \<noteq> r" for r' p
      using queued_popq [OF q, of r' p] that by simp
  qed auto
  with x pop' hold show ?thesis by blast
qed

lemma inv_pop_internal:
  assumes inv: "server_inv w" and q: "deque (event_queues w q) = (InternalEvent ev r, a) # ts"
  shows "server_inv (popq q ts w) \<and> ev = WRITE_NEEDED \<and> (\<forall>x. heap w r = Some x \<longrightarrow> handler x \<noteq> None)"
proof -
  have inv': "inv_except {} {} w" and sh: "shared_ok {} w"
    using inv by (simp_all add: server_inv_def inv_except_def)
  have e: "entry_ok {} w (InternalEvent ev r, a)" by (rule shared_entry [OF sh, of _ q]) (simp add: q)
  have qq: "queued (popq q ts w) r' p = queued w r' p" for r' p
    using queued_popq [OF q, of r' p] by simp
  have rows: "row_ok False False (popq q ts w) r'" for r'
  proof -
    have "row_ok False False w r'" using inv' by (simp add: inv_except_def)
    then show ?thesis by (rule row_frame) (use qq in simp_all)
  qed
  with shared_ok_popq [OF sh q] e show ?thesis by (simp add: server_inv_def inv_except_def)
qed

section \<open>The event handlers keep the invariant and do not fail\<close>

lemma inv_drop_H:
  assumes inv: "inv_except E H w" and x: "heap w r = Some x" and p: "any_pend x"
  shows "inv_except E (H - {r}) w"
proof (rule inv_local [OF inv])
  show "shared_ok E w" using inv by (simp add: inv_except_def)
  from inv_rpc [OF inv x] x p show "row_ok (r \<in> E) (r \<in> H - {r}) w r"
    by (simp add: row_ok_def rpc_ok_def)
qed auto

lemma RemoveIfNotPending_inv:
  assumes inv: "inv_except E H w" and x: "heap w r = Some x" and nh: "r \<notin> set (holders w)"
  shows "\<exists>w'. RemoveIfNotPending (service x) r w = Inr w' \<and> inv_except E (H - {r}) w'"
proof (cases "any_pend x")
  case True
  with inv_drop_H [OF inv x True] x show ?thesis
    by (simp add: RemoveIfNotPending_def IsAnyEventPending_eq)
next
  case False
  from remove_rpc_inv [OF inv x nh rpc_ok_quiet [OF inv_rpc [OF inv x] False]]
  obtain w' where "remove_rpc (service x) r w = Inr w'" "inv_except (E - {r}) (H - {r}) w'"
    by blast
  with x False inv_except_mono [of "E - {r}" "H - {r}" w' E "H - {r}"] show ?thesis
    by (auto simp: RemoveIfNotPending_def IsAnyEventPending_eq)
qed

lemma HandleSendQueue_inv:
  assumes inv: "inv_except E H w" and x: "heap w r = Some x" and n: "\<not> pend NEW_CONNECTION x"
    and h: "handler x \<noteq> None"
  shows "\<exists>w' x'. HandleSendQueue r w = Inr w' \<and> inv_except E H w' \<and> heap w' r = Some x' \<and>
    service x' = service x \<and> holders w' = holders w"
proof (cases "send_queue x = [] \<or> pend WRITE x \<or> pend FINISH x")
  case True
  with HandleSendQueue_idle [OF x] inv x show ?thesis by blast
next
  case False
  then obtain item rest where q: "send_queue x = item # rest"
    and free: "\<not> pend WRITE x" "\<not> pend FINISH x" by (cases "send_queue x") auto
  have ok: "rpc_ok (r \<in> E) (r \<in> H) r x (queued w r) (unannounced w r) (r \<in> set (started w))"
    by (rule inv_rpc [OF inv x])
  then have wb: "well_built r x" by (simp add: rpc_ok_def)
  let ?x = "sent_rpc x item rest"
  have same: "rpc_ok (r \<in> E) (r \<in> H) r ?x (queued w r) (unannounced w r) (r \<in> set (started w))"
    using ok by (simp add: sent_rpc_def)
  have put: "inv_except E H (put_rpc r ?x w)"
    by (rule inv_put_rpc [OF inv x _ _ _ _ _ same]) (use h in \<open>auto simp: sent_rpc_def\<close>)
  let ?w = "issue r (send_event x item) (send_call x item) ?x w"
  have "inv_except E (H - {r}) (issue r (send_event x item) (send_call x item) ?x (put_rpc r ?x w))"
    by (rule inv_issue [OF put])
      (use free n h in \<open>auto simp: send_event_def sent_rpc_def writes_stream_def\<close>)
  then have "inv_except E H ?w"
    by (simp add: issue_put_rpc) (rule inv_except_mono, auto)
  with HandleSendQueue_send [OF x wb q free] show ?thesis
    by (simp add: sent_rpc_def)
qed

lemma HandleWrite_inv:
  assumes inv: "inv_except {} {r} w" and x: "heap w r = Some x" and n: "\<not> pend NEW_CONNECTION x"
    and h: "handler x \<noteq> None" and nh: "r \<notin> set (holders w)"
  shows "\<exists>w'. HandleWrite (service x) r ok w = Inr w' \<and> server_inv w'"
proof -
  from HandleSendQueue_inv [OF inv x n h] obtain w1 x1 where
    1: "HandleSendQueue r w = Inr w1" "inv_except {} {r} w1" "heap w1 r = Some x1"
      "service x1 = service x" "holders w1 = holders w" by blast
  from RemoveIfNotPending_inv [OF 1(2,3)] 1 nh show ?thesis
    by (auto simp: HandleWrite_def server_inv_def)
qed

lemma handled_facts:
  assumes "heap w r = Some x"
  shows "holders (handled r h c its w) = holders w"
    and "next_addr (handled r h c its w) = next_addr w"
    and "services (handled r h c its w) = services w"
  using assms by (simp_all add: handled_def enq_def)

lemma handler_then_remove_inv:
  assumes inv: "inv_except {} {r} w" and x: "heap w r = Some x" and n: "\<not> pend NEW_CONNECTION x"
    and h: "handler x \<noteq> None" and nh: "r \<notin> set (holders w)" and m: "f w = Inr (handled r h' c its w)"
  shows "\<exists>w'. block [f, RemoveIfNotPending (service x) r] w = Inr w' \<and> server_inv w'"
proof -
  from inv_handled [OF inv x n] h have 1: "inv_except {} {r} (handled r h' c its w)" by simp
  have 2: "heap (handled r h' c its w) r =
      Some (x\<lparr>handler := Some h', send_queue := send_queue x @ its\<rparr>)"
    by (simp add: heap_handled [OF x])
  from RemoveIfNotPending_inv [OF 1 2] m nh show ?thesis
    by (auto simp: handled_facts [OF x] server_inv_def)
qed

lemma HandleFinish_inv:
  assumes inv: "inv_except {} {r} w" and x: "heap w r = Some x" and n: "\<not> pend NEW_CONNECTION x"
    and h: "handler x \<noteq> None" and nh: "r \<notin> set (holders w)"
  shows "\<exists>w'. HandleFinish (service x) r ok w = Inr w' \<and> server_inv w'"
  using OnFinish_handled [OF inv_sendable [OF inv x] x h] handler_then_remove_inv [OF inv x n h nh]
  unfolding HandleFinish_def by blast

lemma HandleDone_inv:
  assumes inv: "inv_except {} {r} w" and x: "heap w r = Some x" and nh: "r \<notin> set (holders w)"
  shows "\<exists>w'. HandleDone (service x) r ok w = Inr w' \<and> server_inv w'"
  using RemoveIfNotPending_inv [OF inv x nh] by (simp add: HandleDone_def server_inv_def)

lemma read_again_inv:
  assumes inv: "inv_except E H w" and x: "heap w r = Some x" and n: "\<not> pend NEW_CONNECTION x"
    and h: "handler x \<noteq> None" and rs: "reads_stream x" and nr: "\<not> pend READ x"
  shows "\<exists>w'. RequestStreamingReadIfNeeded r w = Inr w' \<and> inv_except E (H - {r}) w' \<and>
    (\<exists>x'. heap w' r = Some x' \<and> service x' = service x) \<and> next_addr w' = next_addr w \<and>
    services w' = services w"
proof -
  from inv_rpc [OF inv x] have wb: "well_built r x" by (simp add: rpc_ok_def)
  let ?w = "issue r READ (ReadCall (read_object x)) x w"
  have "inv_except E (H - {r}) ?w"
    by (rule inv_issue [OF inv x]) (use n h rs nr in auto)
  with RequestStreamingRead_stream [OF x wb rs] show ?thesis by simp
qed

lemma HandleRead_inv:
  assumes inv: "inv_except {} {r} w" and x: "heap w r = Some x" and n: "\<not> pend NEW_CONNECTION x"
    and h: "handler x \<noteq> None" and nh: "r \<notin> set (holders w)"
    and rs: "reads_stream x" and nr: "\<not> pend READ x"
  shows "\<exists>w'. HandleRead (service x) r ok w = Inr w' \<and> server_inv w'"
proof (cases ok)
  case True
  from OnRequest_handled [OF inv_sendable [OF inv x] x h] obtain h' c its
    where 1: "OnRequest r w = Inr (handled r h' c its w)" by blast
  let ?x = "x\<lparr>handler := Some h', send_queue := send_queue x @ its\<rparr>"
  have "heap (handled r h' c its w) r = Some ?x"
    by (simp add: heap_handled [OF x])
  moreover have "inv_except {} {r} (handled r h' c its w)"
    using inv_handled [OF inv x n] h by simp
  ultimately have "\<exists>w'. RequestStreamingReadIfNeeded r (handled r h' c its w) = Inr w' \<and>
      inv_except {} ({r} - {r}) w'"
    using read_again_inv [of "{}" "{r}" "handled r h' c its w" r ?x] n rs nr
    by (auto simp: reads_stream_def)
  with True 1 show ?thesis by (auto simp: HandleRead_def server_inv_def)
next
  case False
  with OnReadsDone_handled [OF inv_sendable [OF inv x] x h] handler_then_remove_inv [OF inv x n h nh]
  show ?thesis by (metis HandleRead_def)
qed

lemma Select_inv:
  assumes inv: "inv_except E H w"
  shows "\<exists>q. SelectNextEventQueueRoundRobin w = Inr (q, w\<lparr>current_event_queue_id := int q\<rparr>) \<and>
    q < num_event_threads w \<and>
    int q = (current_event_queue_id w + 1) mod int (num_event_threads w) \<and> inv_except E H (w\<lparr>current_event_queue_id := int q\<rparr>)"
proof -
  let ?n = "int (num_event_threads w)"
  let ?i = "(current_event_queue_id w + 1) mod ?n"
  have b: "0 < ?n" "?n < 2 ^ 31" "0 \<le> current_event_queue_id w" "current_event_queue_id w < ?n"
    using inv by (auto simp: inv_except_def shared_ok_def)
  have i: "0 \<le> ?i" "?i < ?n" using b(1) by simp_all
  with b(2) have "in_int32 ?i" unfolding in_int32_def by linarith
  then have "to_int32 ?i = ?i" by (rule to_int32_id)
  moreover have "in_int32 (current_event_queue_id w + 1)" using b by (simp add: in_int32_def)
  moreover have "(current_event_queue_id w + 1) mod 2 ^ 64 = current_event_queue_id w + 1"
    using b by (intro mod_pos_pos_trivial) auto
  ultimately have "SelectNextEventQueueRoundRobin w =
      Inr (nat ?i, w\<lparr>current_event_queue_id := int (nat ?i)\<rparr>)"
    using b(1) i by (simp add: SelectNextEventQueueRoundRobin_def Let_def)
  moreover have "inv_except E H (w\<lparr>current_event_queue_id := int (nat ?i)\<rparr>)"
    by (rule inv_cong [OF inv]) (use i in simp_all)
  moreover have "nat ?i < num_event_threads w" "int (nat ?i) = ?i" using i by linarith+
  ultimately show ?thesis by blast
qed

lemma OnConnection_inv:
  assumes inv: "inv_except {r} {r} w" and x: "heap w r = Some x" and n: "\<not> pend NEW_CONNECTION x"
    and h: "handler x = None" and d: "pend DONE x" and nr: "\<not> pend READ x"
    and st: "r \<in> set (started w)"
  shows "\<exists>w' x'. OnConnection r w = Inr w' \<and> server_inv w' \<and> heap w' r = Some x' \<and>
    service x' = service x"
proof -
  from first_call_handled [OF inv_sendable [OF inv x] x h] obtain h1 c1 is1 where
    con: "OnConnection r w = RequestStreamingReadIfNeeded r (handled r h1 c1 is1 w)" by blast
  let ?w = "handled r h1 c1 is1 w"
  let ?x = "x\<lparr>handler := Some h1, send_queue := send_queue x @ is1\<rparr>"
  have x1: "heap ?w r = Some ?x" by (simp add: heap_handled [OF x])
  have i1: "inv_except {} {r} ?w" using inv_handled [OF inv x n] st by simp
  show ?thesis
  proof (cases "reads_stream x")
    case True
    with read_again_inv [OF i1 x1] n nr con show ?thesis
      by (auto simp: server_inv_def reads_stream_def)
  next
    case False
    then have "\<not> reads_stream ?x" by (simp add: reads_stream_def)
    from RequestStreamingRead_single [OF x1 this] request_then_reads_done [OF inv_sendable [OF i1 x1] x1]
    obtain h2 c2 is2 h3 c3 is3 where
      rd: "RequestStreamingReadIfNeeded r ?w = Inr (handled r h3 c3 is3 (handled r h2 c2 is2 ?w))"
      by auto
    let ?x2 = "?x\<lparr>handler := Some h2, send_queue := send_queue ?x @ is2\<rparr>"
    have x2: "heap (handled r h2 c2 is2 ?w) r = Some ?x2" by (simp add: heap_handled [OF x1])
    have i2: "inv_except {} {r} (handled r h2 c2 is2 ?w)" using inv_handled [OF i1 x1] n by simp
    let ?x3 = "?x2\<lparr>handler := Some h3, send_queue := send_queue ?x2 @ is3\<rparr>"
    have x3: "heap (handled r h3 c3 is3 (handled r h2 c2 is2 ?w)) r = Some ?x3"
      by (simp add: heap_handled [OF x2])
    have i3: "inv_except {} {r} (handled r h3 c3 is3 (handled r h2 c2 is2 ?w))"
      using inv_handled [OF i2 x2] n by simp
    from inv_drop_H [OF i3 x3] d have "server_inv (handled r h3 c3 is3 (handled r h2 c2 is2 ?w))"
      by (simp add: server_inv_def any_pend_def)
    with con rd x3 show ?thesis by auto
  qed
qed

lemma Clone_fresh:
  "well_built r (SetEventQueue q (Clone r x))" "\<not> pend ev (SetEventQueue q (Clone r x))"
  "handler (SetEventQueue q (Clone r x)) = None" "service (SetEventQueue q (Clone r x)) = service x"
  "event_queue (SetEventQueue q (Clone r x)) = q"
  by (simp_all add: SetEventQueue_def Clone_def)

lemma accept_connection_inv:
  assumes inv: "server_inv w" and x: "heap w r = Some x"
  shows "\<exists>w'. bind_r (get_rpc r w) (\<lambda>x.
      bind_r (SelectNextEventQueueRoundRobin w) (\<lambda>(q, w).
      bind_r (add_rpc (service x) (\<lambda>r'. SetEventQueue q (Clone r' x)) w) (\<lambda>(r', w).
      RequestNextMethodInvocation r' w))) = Inr w' \<and> server_inv w'"
proof -
  from Select_inv [OF inv [unfolded server_inv_def]] obtain q where
    sel: "SelectNextEventQueueRoundRobin w = Inr (q, w\<lparr>current_event_queue_id := int q\<rparr>)"
    and n: "q < num_event_threads w"
    and i: "inv_except {} {} (w\<lparr>current_event_queue_id := int q\<rparr>)" by blast
  from n add_rpc_inv [OF i, of "\<lambda>r'. SetEventQueue q (Clone r' x)" "service x"]
  obtain r' w1 w2 where
    "add_rpc (service x) (\<lambda>r'. SetEventQueue q (Clone r' x)) (w\<lparr>current_event_queue_id := int q\<rparr>) =
       Inr (r', w1)"
    "RequestNextMethodInvocation r' w1 = Inr w2" "inv_except {} {} w2"
    by (auto simp: Clone_fresh)
  with x sel show ?thesis by (simp add: get_rpc_def server_inv_def)
qed

lemma HandleNewConnection_inv:
  assumes inv: "inv_except {r} {r} w" and x: "heap w r = Some x" and n: "\<not> pend NEW_CONNECTION x"
    and h: "handler x = None" and d: "pend DONE x" and nr: "\<not> pend READ x"
    and nh: "r \<notin> set (holders w)" and st: "ok \<longrightarrow> r \<in> set (started w)"
    and ord: "ok \<longleftrightarrow> \<not> shutting_down (services w (service x))"
    and dead: "\<not> ok \<longrightarrow> dead_ok (queued w r) (unannounced w r) (r \<in> set (started w))"
  shows "\<exists>w'. HandleNewConnection (service x) r ok w = Inr w' \<and> server_inv w'"
proof (cases ok)
  case True
  from OnConnection_inv [OF inv x n h d nr] st True obtain w1 x1 where
    1: "OnConnection r w = Inr w1" "server_inv w1" "heap w1 r = Some x1" "service x1 = service x"
    by blast
  from accept_connection_inv [OF 1(2,3)] 1 True ord show ?thesis
    by (simp add: HandleNewConnection_def get_rpc_def)
next
  case False
  with remove_rpc_inv [OF inv x nh] dead ord show ?thesis
    by (auto simp: HandleNewConnection_def server_inv_def)
qed

end
