(* ===== verification/Server_Facts.thy ===== *)
theory Server_Facts
  imports Server Server_Invariant
begin

text \<open>
  What building and starting a server does: how method names are parsed, when a handler is
  accepted, which services \<open>Build\<close> creates, and which RPCs \<open>StartServing\<close> leaves waiting. A
  server that was built and started satisfies the invariant of \<open>Server_Invariant\<close>.
\<close>

section \<open>Registering handlers\<close>

lemma getline_found: "c \<notin> set s \<Longrightarrow> getline c (Some (s @ c # rest)) = (s, Some rest)"
  by (simp add: takeWhile_append dropWhile_append takeWhile_eq_all_conv)

lemma getline_end: "c \<notin> set s \<Longrightarrow> getline c (Some s) = (s, None)"
proof -
  assume "c \<notin> set s"
  then have "dropWhile (\<lambda>a. a \<noteq> c) s = []" "takeWhile (\<lambda>a. a \<noteq> c) s = s"
    by (auto simp: dropWhile_eq_Nil_conv takeWhile_eq_all_conv)
  then show ?thesis by (simp only: getline.simps list.case)
qed

lemma getline_Some:
  "getline c (Some s) = (a, Some rest) \<longleftrightarrow> c \<notin> set a \<and> s = a @ c # rest"
proof
  assume g: "getline c (Some s) = (a, Some rest)"
  then obtain d where d: "dropWhile (\<lambda>x. x \<noteq> c) s = d # rest"
    by (auto split: list.splits)
  then have "d = c" using hd_dropWhile [of "\<lambda>x. x \<noteq> c" s] by auto
  moreover have "s = takeWhile (\<lambda>x. x \<noteq> c) s @ dropWhile (\<lambda>x. x \<noteq> c) s" by simp
  ultimately show "c \<notin> set a \<and> s = a @ c # rest"
    using g d by (auto dest: set_takeWhileD)
qed (simp add: getline_found del: getline.simps)

lemma getline_None: "getline c (Some s) = (a, None) \<longleftrightarrow> c \<notin> set s \<and> a = s"
proof
  assume g: "getline c (Some s) = (a, None)"
  then have "dropWhile (\<lambda>x. x \<noteq> c) s = []" by (auto split: list.splits)
  then have "c \<notin> set s" by (auto simp: dropWhile_eq_Nil_conv)
  then show "c \<notin> set s \<and> a = s" using g getline_end by fastforce
qed (simp add: getline_end del: getline.simps)

lemma parse_full_name:
  assumes "CHR ''/'' \<notin> set svc" "CHR ''/'' \<notin> set m" "svc \<noteq> []" "m \<noteq> []"
  shows "ParseMethodFullName (CHR ''/'' # svc @ CHR ''/'' # m) = Inr (svc, m)"
  using assms by (simp add: ParseMethodFullName_def getline_found getline_end del: getline.simps)

text \<open>When a handler of type \<open>type\<close> streams its requests and its responses.\<close>

definition streams_of :: "RpcType \<Rightarrow> bool \<times> bool" where
  "streams_of type =
     (type = CLIENT_STREAMING \<or> type = BIDI_STREAMING, type = SERVER_STREAMING \<or> type = BIDI_STREAMING)"

lemma CheckHandlerCompatibility_iff:
  "CheckHandlerCompatibility pool T s m = Inr () \<longleftrightarrow>
   (\<exists>svc d. pool s = Some svc \<and> svc m = Some d \<and>
     full_name (RequestType T) = full_name (input_type d) \<and>
     full_name (ResponseType T) = full_name (output_type d) \<and>
     (client_streaming d, server_streaming d) = streams_of (StreamType T))"
  by (auto simp: CheckHandlerCompatibility_def check_def streams_of_def
      split: option.splits RpcType.splits if_splits)

section \<open>What \<open>StartServing\<close> does\<close>

text \<open>
  The two nested loops visit the pairs of a method and a completion queue in this order; each
  visit creates one RPC that waits for its first connection.
\<close>

definition serving_jobs ::
  "nat list \<Rightarrow> nat \<Rightarrow> (string \<times> ('m, 'h, 'c) RpcHandlerInfo) list \<Rightarrow>
   (nat \<times> ('m, 'h, 'c) RpcHandlerInfo \<times> nat) list" where
  "serving_jobs cqs i infos =
     concat (map (\<lambda>(i, _, info). map (\<lambda>cq. (i, info, cq)) cqs) (enumerate i infos))"

definition waiting_rpc ::
  "string \<Rightarrow> nat \<times> ('m, 'h, 'c) RpcHandlerInfo \<times> nat \<Rightarrow> nat \<Rightarrow> addr \<Rightarrow> ('m, 'h, 'c) Rpc" where
  "waiting_rpc s job q r = (case job of (i, info, cq) \<Rightarrow>
     set_pend NEW_CONNECTION True (set_pend DONE True (new_Rpc r i cq q info s)))"

definition waiting_calls ::
  "string \<Rightarrow> nat \<times> ('m, 'h, 'c) RpcHandlerInfo \<times> nat \<Rightarrow> addr \<Rightarrow> (addr \<times> 'm grpc_call \<times> Event) list" where
  "waiting_calls s job r = (case job of (i, info, cq) \<Rightarrow>
     [(r, AsyncNotifyWhenDone, DONE), (r, request_call (new_Rpc r i cq 0 info s), NEW_CONNECTION)])"

lemma serving_jobs_Nil [simp]: "serving_jobs cqs i [] = []"
  by (simp add: serving_jobs_def)

lemma serving_jobs_Cons [simp]:
  "serving_jobs cqs i (info # infos) = map (\<lambda>cq. (i, snd info, cq)) cqs @ serving_jobs cqs (Suc i) infos"
  by (cases info) (simp add: serving_jobs_def)

lemma length_serving_jobs: "length (serving_jobs cqs i infos) = length infos * length cqs"
  by (induction infos arbitrary: i) simp_all

lemma serving_jobs_nth:
  "i < length infos \<Longrightarrow> j < length cqs \<Longrightarrow>
   serving_jobs cqs i0 infos ! (i * length cqs + j) = (i0 + i, snd (infos ! i), cqs ! j)"
proof (induction infos arbitrary: i0 i)
  case (Cons info infos)
  then show ?case by (cases i) (simp_all add: nth_append)
qed simp

lemma StartServing_methods_jobs:
  "StartServing_methods s cqs i infos w =
     block (map (\<lambda>(i, info, cq). StartServing_one s i info cq) (serving_jobs cqs i infos)) w"
proof (induction infos arbitrary: i w)
  case (Cons info infos)
  have "StartServing_methods s cqs (Suc i) infos =
      block (map (\<lambda>(i, info, cq). StartServing_one s i info cq) (serving_jobs cqs (Suc i) infos))"
    by (rule ext) (rule Cons)
  then show ?case by (simp add: block_append comp_def)
qed simp

lemma request_call_queue:
  "request_call (new_Rpc r i cq q info s) = request_call (new_Rpc r i cq 0 info s)"
  by (cases "rpc_type info") (simp_all add: request_call_def streaming_interface_new_Rpc)

lemma StartServing_one_inv:
  assumes inv: "server_inv w"
  shows "\<exists>w' q. StartServing_one s i info cq w = Inr w' \<and> server_inv w' \<and>
    int q = (current_event_queue_id w + 1) mod int (num_event_threads w) \<and>
    heap w' = (heap w)(next_addr w \<mapsto> waiting_rpc s (i, info, cq) q (next_addr w)) \<and>
    next_addr w' = Suc (next_addr w) \<and> num_event_threads w' = num_event_threads w \<and>
    current_event_queue_id w' = int q \<and>
    calls w' = calls w @ waiting_calls s (i, info, cq) (next_addr w) \<and>
    (\<forall>t. rpc_handler_infos (services w' t) = rpc_handler_infos (services w t))"
proof -
  from Select_inv [OF inv [unfolded server_inv_def]] obtain q where
    sel: "SelectNextEventQueueRoundRobin w = Inr (q, w\<lparr>current_event_queue_id := int q\<rparr>)"
    and q: "int q = (current_event_queue_id w + 1) mod int (num_event_threads w)"
    and n: "q < num_event_threads w"
    and i: "inv_except {} {} (w\<lparr>current_event_queue_id := int q\<rparr>)" by blast
  let ?w = "w\<lparr>current_event_queue_id := int q\<rparr>"
  let ?mk = "\<lambda>r. new_Rpc r i cq q info s"
  have mk: "event_queue (?mk r) < num_event_threads ?w" for r using n by simp
  from add_rpc_inv [OF i, of ?mk s, OF _ _ _ _ mk] obtain r w1 w2 where
    1: "add_rpc s ?mk ?w = Inr (r, w1)" "RequestNextMethodInvocation r w1 = Inr w2"
      "inv_except {} {} w2" "r = next_addr ?w"
      "heap w2 = (heap ?w)(r \<mapsto> set_pend NEW_CONNECTION True (set_pend DONE True (?mk r)))"
      "next_addr w2 = Suc r" "num_event_threads w2 = num_event_threads ?w"
      "current_event_queue_id w2 = current_event_queue_id ?w"
      "calls w2 = calls ?w @ [(r, AsyncNotifyWhenDone, DONE), (r, request_call (?mk r), NEW_CONNECTION)]"
      "\<forall>t. rpc_handler_infos (services w2 t) = rpc_handler_infos (services ?w t)"
    by (metis well_built_new_Rpc pend_new_Rpc new_Rpc_fields(3,4))
  from sel 1(1,2) have "StartServing_one s i info cq w = Inr w2" by (simp add: StartServing_one_def)
  moreover have "server_inv w2" using 1(3) by (simp add: server_inv_def)
  moreover have "heap w2 = (heap w)(next_addr w \<mapsto> waiting_rpc s (i, info, cq) q (next_addr w))"
    using 1(4,5) by (simp add: waiting_rpc_def)
  moreover have "calls w2 = calls w @ waiting_calls s (i, info, cq) (next_addr w)"
    using 1(4,9) by (simp add: waiting_calls_def request_call_queue [of _ _ _ q])
  ultimately show ?thesis using q 1(4,6,7,8,10) by (intro exI [of _ w2] exI [of _ q]) simp
qed

lemma round_robin_add: "((a + 1) mod n + 1 + int t) mod n = (a + 1 + int (Suc t)) mod n"
  using mod_add_left_eq [of "a + 1" n "1 + int t"] by (simp add: algebra_simps)

lemma serving_block:
  assumes "server_inv w"
  shows "\<exists>w'. block (map (\<lambda>(i, info, cq). StartServing_one s i info cq) jobs) w = Inr w' \<and>
    server_inv w' \<and> next_addr w' = next_addr w + length jobs \<and>
    num_event_threads w' = num_event_threads w \<and>
    (\<forall>r. heap w' r = (if next_addr w \<le> r \<and> r < next_addr w + length jobs
       then Some (waiting_rpc s (jobs ! (r - next_addr w))
         (nat ((current_event_queue_id w + 1 + int (r - next_addr w)) mod int (num_event_threads w))) r)
       else heap w r)) \<and>
    calls w' = calls w @ concat (map (\<lambda>t. waiting_calls s (jobs ! t) (next_addr w + t)) [0..<length jobs]) \<and>
    (\<forall>t. rpc_handler_infos (services w' t) = rpc_handler_infos (services w t))"
  using assms
proof (induction jobs arbitrary: w)
  case Nil
  then show ?case by auto
next
  case (Cons job jobs)
  obtain i info cq where job: "job = (i, info, cq)" by (cases job)
  from StartServing_one_inv [OF Cons.prems, of s i info cq] obtain w1 q where
    1: "StartServing_one s i info cq w = Inr w1" "server_inv w1"
      "int q = (current_event_queue_id w + 1) mod int (num_event_threads w)"
      "heap w1 = (heap w)(next_addr w \<mapsto> waiting_rpc s (i, info, cq) q (next_addr w))"
      "next_addr w1 = Suc (next_addr w)" "num_event_threads w1 = num_event_threads w"
      "current_event_queue_id w1 = int q"
      "calls w1 = calls w @ waiting_calls s (i, info, cq) (next_addr w)"
      "\<forall>t. rpc_handler_infos (services w1 t) = rpc_handler_infos (services w t)"
    by (elim exE conjE) (rule that; assumption)
  note 1 = 1 [folded job]
  from Cons.IH [OF 1(2)] obtain w' where
    2: "block (map (\<lambda>(i, info, cq). StartServing_one s i info cq) jobs) w1 = Inr w'" "server_inv w'"
      "next_addr w' = next_addr w1 + length jobs" "num_event_threads w' = num_event_threads w1"
      "\<forall>r. heap w' r = (if next_addr w1 \<le> r \<and> r < next_addr w1 + length jobs
       then Some (waiting_rpc s (jobs ! (r - next_addr w1))
         (nat ((current_event_queue_id w1 + 1 + int (r - next_addr w1)) mod int (num_event_threads w1))) r)
       else heap w1 r)"
      "calls w' = calls w1 @ concat (map (\<lambda>t. waiting_calls s (jobs ! t) (next_addr w1 + t)) [0..<length jobs])"
      "\<forall>t. rpc_handler_infos (services w' t) = rpc_handler_infos (services w1 t)"
    by (elim exE conjE) (rule that; assumption)
  have q0: "q = nat ((current_event_queue_id w + 1) mod int (num_event_threads w))"
    using 1(3) by linarith
  have heap: "heap w' r = (if next_addr w \<le> r \<and> r < next_addr w + length (job # jobs)
       then Some (waiting_rpc s ((job # jobs) ! (r - next_addr w))
         (nat ((current_event_queue_id w + 1 + int (r - next_addr w)) mod int (num_event_threads w))) r)
       else heap w r)" for r
  proof (cases "Suc (next_addr w) \<le> r")
    case True
    then obtain k where k: "r = Suc (next_addr w) + k" by (metis le_Suc_ex)
    from k have "r - next_addr w1 = k" "r - next_addr w = Suc k" "next_addr w1 \<le> r"
      using 1(5) by simp_all
    moreover have "(current_event_queue_id w1 + 1 + int k) mod int (num_event_threads w1) =
        (current_event_queue_id w + 1 + int (Suc k)) mod int (num_event_threads w)"
      unfolding 1(3,6,7) by (rule round_robin_add)
    moreover have "r < next_addr w1 + length jobs \<longleftrightarrow> r < next_addr w + length (job # jobs)"
      using 1(5) by simp
    ultimately show ?thesis
      using 2(5) [rule_format, of r] 1(4) k by (simp del: of_nat_Suc)
  next
    case False
    then consider "r = next_addr w" | "r < next_addr w" by linarith
    then show ?thesis using 2(5) [rule_format, of r] 1(4,5) q0 by cases simp_all
  qed
  have "[0..<length (job # jobs)] = 0 # map Suc [0..<length jobs]"
    by (simp add: upt_conv_Cons map_Suc_upt del: upt_Suc)
  then have calls: "calls w' = calls w @ concat (map (\<lambda>t. waiting_calls s ((job # jobs) ! t)
      (next_addr w + t)) [0..<length (job # jobs)])"
    using 2(6) 1(5,8) by (simp add: comp_def del: upt_Suc)
  show ?case
  proof (intro exI conjI allI)
    show "block (map (\<lambda>(i, info, cq). StartServing_one s i info cq) (job # jobs)) w = Inr w'"
      using 1(1) 2(1) by (simp add: job)
    show "server_inv w'" by (rule 2(2))
    show "next_addr w' = next_addr w + length (job # jobs)" using 2(3) 1(5) by simp
    show "num_event_threads w' = num_event_threads w" using 2(4) 1(6) by simp
    show "rpc_handler_infos (services w' t) = rpc_handler_infos (services w t)" for t
      using 2(7) 1(9) by simp
  qed (simp_all only: heap calls)
qed

text \<open>An RPC that waits for a connection to one of the methods of a service.\<close>

definition waits_for ::
  "string \<Rightarrow> (string \<times> ('m, 'h, 'c) RpcHandlerInfo) list \<Rightarrow> ('m, 'h, 'c) Rpc \<Rightarrow> bool" where
  "waits_for s infos x \<longleftrightarrow> service x = s \<and> handler x = None \<and> rpc_handler_info x \<in> snd ` set infos"

lemma waiting_rpc_waits:
  assumes "k < length (serving_jobs cqs i infos)"
  shows "waits_for s infos (waiting_rpc s (serving_jobs cqs i infos ! k) q r)"
proof -
  have "fst (snd job) \<in> snd ` set infos" if "job \<in> set (serving_jobs cqs i infos)" for job
    using that by (induction infos arbitrary: i) auto
  from this [OF nth_mem [OF assms]] show ?thesis
    by (cases "serving_jobs cqs i infos ! k") (simp add: waits_for_def waiting_rpc_def)
qed

lemma StartServing_inv:
  assumes "server_inv w"
  shows "\<exists>w'. StartServing s cqs w = Inr w' \<and> server_inv w' \<and>
    (\<forall>r x. heap w' r = Some x \<longrightarrow> heap w r = Some x \<or> waits_for s (rpc_handler_infos (services w s)) x) \<and>
    (\<forall>t. rpc_handler_infos (services w' t) = rpc_handler_infos (services w t))"
proof -
  let ?jobs = "serving_jobs cqs 0 (rpc_handler_infos (services w s))"
  from serving_block [OF assms, of s ?jobs] obtain w' where
    1: "block (map (\<lambda>(i, info, cq). StartServing_one s i info cq) ?jobs) w = Inr w'" "server_inv w'"
    "\<forall>t. rpc_handler_infos (services w' t) = rpc_handler_infos (services w t)"
    and h: "\<forall>r. heap w' r = (if next_addr w \<le> r \<and> r < next_addr w + length ?jobs
       then Some (waiting_rpc s (?jobs ! (r - next_addr w))
         (nat ((current_event_queue_id w + 1 + int (r - next_addr w)) mod int (num_event_threads w))) r)
       else heap w r)"
    by (elim exE conjE) (rule that; assumption)
  have "heap w r = Some x \<or> waits_for s (rpc_handler_infos (services w s)) x" if "heap w' r = Some x" for r x
    using h [rule_format, of r] that by (auto intro!: waiting_rpc_waits split: if_splits)
  with 1 show ?thesis by (auto simp: StartServing_def StartServing_methods_jobs)
qed

lemma StartServing_all_inv:
  "server_inv w \<Longrightarrow> \<exists>w'. block (map (\<lambda>s. StartServing s cqs) ss) w = Inr w' \<and> server_inv w' \<and>
     (\<forall>r x. heap w' r = Some x \<longrightarrow>
        heap w r = Some x \<or> (\<exists>s \<in> set ss. waits_for s (rpc_handler_infos (services w s)) x))"
proof (induction ss arbitrary: w)
  case (Cons s ss)
  from StartServing_inv [OF Cons.prems, of s cqs] obtain w1
    where 1: "StartServing s cqs w = Inr w1" "server_inv w1"
      "\<And>r x. heap w1 r = Some x \<Longrightarrow> heap w r = Some x \<or> waits_for s (rpc_handler_infos (services w s)) x"
      "\<And>t. rpc_handler_infos (services w1 t) = rpc_handler_infos (services w t)" by blast
  from Cons.IH [OF 1(2)] obtain w' where
    2: "block (map (\<lambda>s. StartServing s cqs) ss) w1 = Inr w'" "server_inv w'"
      "\<And>r x. heap w' r = Some x \<Longrightarrow>
         heap w1 r = Some x \<or> (\<exists>s \<in> set ss. waits_for s (rpc_handler_infos (services w1 s)) x)" by blast
  have "heap w r = Some x \<or> (\<exists>s \<in> set (s # ss). waits_for s (rpc_handler_infos (services w s)) x)"
    if "heap w' r = Some x" for r x
    using 2(3) [OF that] 1(3) [of r x] by (auto simp: 1(4))
  with 1(1) 2(1,2) show ?case by simp
qed simp

text \<open>No call starts while the server is being started.\<close>

interpretation sd: progress_measure "\<lambda>w w' :: ('m, 'h, 'c) world. started w' = started w"
  by unfold_locales simp_all

lemma StartServing_started: "sd.advances (StartServing s cqs)"
proof -
  have one: "sd.advances (StartServing_one s i info cq)" for i info cq
    by (rule sd.advances_I) (auto simp: StartServing_one_def SelectNextEventQueueRoundRobin_def Let_def add_rpc_def
        bind_r_Inr_iff RequestNextMethodInvocation_eq set_active_def split: if_splits)
  then have "sd.advances (block (map (\<lambda>(i, info, cq). StartServing_one s i info cq) jobs))" for jobs
    by (intro sd.advances_block) auto
  then show ?thesis
    by (auto simp: sd.advances_def StartServing_def StartServing_methods_jobs)
qed

lemma fresh_inv:
  assumes "0 < n" "n < 2 ^ 31" and "\<And>s. active_rpcs (S s) = new_ActiveRpcs"
  shows "server_inv ((initial_world n c)\<lparr>services := S\<rparr>)"
  using assms
  by (simp add: server_inv_def inv_except_def shared_ok_def row_ok_def dead_ok_def queued_def
      unannounced_def initial_world_def new_queue_def new_ActiveRpcs_def active_keys_def
      owns_itself_def queue_defs)

section \<open>What \<open>Build\<close> does\<close>

text \<open>The handler registered for a method, and a builder whose maps are in order.\<close>

definition handler_at ::
  "('m, 'h, 'c) Builder \<Rightarrow> string \<Rightarrow> string \<Rightarrow> ('m, 'h, 'c) RpcHandlerInfo option" where
  "handler_at b s m = Option.bind (map_of (rpc_handlers b) s) (\<lambda>infos. map_of infos m)"

definition builder_ok :: "('m, 'h, 'c) Builder \<Rightarrow> bool" where
  "builder_ok b \<longleftrightarrow> map_ok (rpc_handlers b) \<and> (\<forall>p \<in> set (rpc_handlers b). map_ok (snd p))"

lemma builder_ok_new [simp]: "builder_ok new_Builder"
  by (simp add: builder_ok_def new_Builder_def)

lemma builder_ok_service:
  "builder_ok b \<Longrightarrow> map_of (rpc_handlers b) s = Some infos \<Longrightarrow> map_ok infos"
  by (force simp: builder_ok_def dest: map_of_SomeD)

lemma RegisterHandler_handlers:
  fixes b :: "('m, 'h, 'c) Builder"
  assumes b: "builder_ok b" and r: "RegisterHandler pool T b = Inr b'"
  obtains s m where "ParseMethodFullName (MethodName T) = Inr (s, m)"
    "CheckHandlerCompatibility pool T s m = Inr ()" "builder_ok b'" "options b' = options b"
    "\<forall>s' m'. handler_at b' s' m' =
       (if s' = s \<and> m' = m \<and> handler_at b s m = None then Some (handler_info T) else handler_at b s' m')"
proof -
  from r obtain s m where p: "ParseMethodFullName (MethodName T) = Inr (s, m)"
    "CheckHandlerCompatibility pool T s m = Inr ()"
    and b': "b' = b\<lparr>rpc_handlers := map_modify s []
      (\<lambda>infos. snd (map_emplace m (handler_info T) infos)) (rpc_handlers b)\<rparr>"
    by (auto simp: RegisterHandler_def bind_r_Inr_iff)
  have ok: "map_ok (rpc_handlers b)" using b by (simp add: builder_ok_def)
  let ?old = "case map_of (rpc_handlers b) s of None \<Rightarrow> [] | Some infos \<Rightarrow> infos"
  have old: "map_ok ?old" using builder_ok_service [OF b] by (auto split: option.splits)
  note look = om.modify_lookup [OF ok, of s "[]"]
  have "map_ok infos" if "(s', infos) \<in> set (rpc_handlers b')" for s' infos
  proof -
    have "map_of (rpc_handlers b') s' = Some infos"
      using that om.entries_lookup [OF om.modify_ok [OF ok]] by (simp add: b')
    then show ?thesis
      using old builder_ok_service [OF b] om.emplace_ok [OF old] by (auto simp: b' look split: if_splits)
  qed
  then have "builder_ok b'"
    using om.modify_ok [OF ok] by (auto simp: builder_ok_def b')
  moreover have "handler_at b' s' m' =
       (if s' = s \<and> m' = m \<and> handler_at b s m = None then Some (handler_info T) else handler_at b s' m')"
    for s' m'
    using om.emplace_lookup [OF old, of m "handler_info T" m']
    by (auto simp: handler_at_def b' look split: option.splits)
  ultimately show thesis using that [OF p] by (simp add: b')
qed

lemma emplace_last:
  "(\<forall>k' \<in> fst ` set m. k' < k) \<Longrightarrow> map_emplace k v m = (True, m @ [(k, v)])"
  by (induction m) (auto split: prod.splits)

lemma AddService_all:
  assumes "map_ok hs" and "\<forall>s \<in> set (sv_services sv). \<forall>s' \<in> fst ` set hs. s < s'"
  shows "block (map (\<lambda>(s, infos). AddService s infos) hs) sv =
    Inr (sv\<lparr>sv_services := sv_services sv @ map fst hs, registered := registered sv @ map fst hs,
      state := (state sv)\<lparr>services := (\<lambda>s. case map_of hs s of
        None \<Rightarrow> services (state sv) s | Some infos \<Rightarrow> new_Service infos)\<rparr>\<rparr>)"
  using assms
proof (induction hs arbitrary: sv)
  case (Cons h hs)
  obtain s infos where h: "h = (s, infos)" by (cases h)
  let ?sv = "sv\<lparr>sv_services := sv_services sv @ [s], registered := registered sv @ [s],
     state := (state sv)\<lparr>services := (services (state sv))(s := new_Service infos)\<rparr>\<rparr>"
  have add: "AddService s infos sv = Inr ?sv"
    using Cons.prems(2) emplace_last [of "map (\<lambda>s. (s, ())) (sv_services sv)" s "()"]
    by (simp add: AddService_def h comp_def image_image)
  have ok: "map_ok hs" and less: "\<forall>s' \<in> fst ` set hs. s < s'"
    using Cons.prems(1) by (simp_all add: h map_ok_Cons)
  then have "s \<notin> fst ` set hs" by blast
  then have none: "map_of hs s = None" by (simp add: map_of_eq_None_iff)
  have "\<forall>s1 \<in> set (sv_services ?sv). \<forall>s2 \<in> fst ` set hs. s1 < s2"
    using Cons.prems(2) less by (simp add: h)
  note IH = Cons.IH [OF ok this]
  have fn: "(\<lambda>t. case map_of hs t of None \<Rightarrow> services (state ?sv) t | Some infos \<Rightarrow> new_Service infos) =
      (\<lambda>t. case map_of (h # hs) t of None \<Rightarrow> services (state sv) t | Some infos \<Rightarrow> new_Service infos)"
    using none by (auto simp: h fun_eq_iff split: option.splits)
  show ?case using IH fn by (simp add: h add)
qed simp

definition built_world ::
  "nat \<Rightarrow> 'c \<Rightarrow> (string \<times> ('m, 'h, 'c) ServiceInfo) list \<Rightarrow> ('m, 'h, 'c) world" where
  "built_world n c hs = (initial_world n c)\<lparr>services := (\<lambda>s. new_Service
     (case map_of hs s of None \<Rightarrow> [] | Some infos \<Rightarrow> infos))\<rparr>"

lemma Build_eq:
  fixes b :: "('m, 'h, 'c) Builder"
  assumes "map_ok (rpc_handlers b)" and "opt_num_event_threads (options b) = Some n"
    and "opt_num_grpc_threads (options b) = Some k"
  shows "Build c b = Inr
    \<lparr>sv_options = options b, sv_shutting_down = False, grpc_server = False,
     registered = map fst (rpc_handlers b), cq_threads = map new_CompletionQueueThread [0..<k],
     event_threads = map new_EventQueueThread [0..<n], sv_services = map fst (rpc_handlers b),
     state = built_world n c (rpc_handlers b)\<rparr>"
proof -
  have "(\<lambda>s. case map_of hs s of None \<Rightarrow> services (initial_world n c) s
      | Some infos \<Rightarrow> new_Service infos) =
    (\<lambda>s. new_Service (case map_of hs s of None \<Rightarrow> [] | Some infos \<Rightarrow> infos))"
    for hs :: "(string \<times> ('m, 'h, 'c) ServiceInfo) list"
    by (auto simp: initial_world_def fun_eq_iff split: option.splits)
  then show ?thesis
    using assms AddService_all [OF assms(1)]
    by (simp add: Build_def new_Server_def built_world_def cong: option.case_cong)
qed

lemma Start_inv:
  assumes "Build c b = Inr sv" and "map_ok (rpc_handlers b)"
    and "opt_num_event_threads (options b) = Some n" "0 < n" "n < 2 ^ 31"
  shows "\<exists>sv'. Start sv = Inr sv' \<and> server_inv (state sv') \<and>
    (\<forall>r x. heap (state sv') r = Some x \<longrightarrow> (\<exists>s infos. (s, infos) \<in> set (rpc_handlers b) \<and> waits_for s infos x)) \<and>
    started (state sv') = []"
proof -
  have "opt_num_grpc_threads (options b) \<noteq> None"
    using assms(1,3) by (auto simp: Build_def new_Server_def split: option.splits)
  then obtain k where k: "opt_num_grpc_threads (options b) = Some k" by blast
  note sv = Build_eq [OF assms(2,3) k, of c, unfolded assms(1)]
  have "server_inv (built_world n c (rpc_handlers b))"
    unfolding built_world_def by (rule fresh_inv) (use assms in \<open>simp_all add: new_Service_def\<close>)
  from StartServing_all_inv [OF this, of "[0..<k]" "map fst (rpc_handlers b)"] obtain w where
    w: "block (map (\<lambda>s. StartServing s [0..<k]) (map fst (rpc_handlers b)))
       (built_world n c (rpc_handlers b)) = Inr w" "server_inv w"
    and h: "\<And>r x. heap w r = Some x \<Longrightarrow> heap (built_world n c (rpc_handlers b)) r = Some x \<or>
      (\<exists>s \<in> set (map fst (rpc_handlers b)).
         waits_for s (rpc_handler_infos (services (built_world n c (rpc_handlers b)) s)) x)" by blast
  have "\<exists>s infos. (s, infos) \<in> set (rpc_handlers b) \<and> waits_for s infos x" if "heap w r = Some x" for r x
    using h [OF that]
    by (force simp: built_world_def initial_world_def new_Service_def waits_for_def
        dest: map_of_SomeD [OF sym] split: option.splits)
  moreover have "started w = []"
    using sd.advances_D [OF sd.advances_block w(1)] StartServing_started
    by (auto simp: built_world_def initial_world_def)
  ultimately show ?thesis
    using sv w by (auto simp: Start_def on_state_def Start_threads_def start_new_threads)
qed

text \<open>
  What the tracing library is configured with is what the builder was given; a server that was not asked to
  trace, or was not built for it, leaves the library alone.
\<close>

lemma trace_setup:
  assumes "builder_ok b" and "opt_num_event_threads (options b) = Some n" and "opt_num_grpc_threads (options b) = Some k"
    and "block [EnableTracing True, SetTracingGcpProjectId project, SetTracingSamplerProbability p] b = Inr b'"
    and "Build c b' = Inr sv" and "Start sv = Inr sv'"
  shows "Start_traced True (sv, t) =
    Inr (sv', t @ [StackdriverExporter_Register project, SetCurrentTraceParams 128 128 128 128 p])"
proof -
  from assms(4) have b': "b' = set_options (\<lambda>opts. opts\<lparr>enable_tracing := True, tracing_gcp_project_id := project,
      tracing_sampler_probability := p\<rparr>) b"
    by (simp add: EnableTracing_def SetTracingGcpProjectId_def SetTracingSamplerProbability_def set_options_def)
  have "map_ok (rpc_handlers b')" "opt_num_event_threads (options b') = Some n" "opt_num_grpc_threads (options b') = Some k"
    using assms(1-3) by (simp_all add: b' set_options_def builder_ok_def)
  from Build_eq [OF this, of c] assms(5) have "sv_options sv = options b'" by auto
  with assms(6) show ?thesis
    by (simp add: Start_traced_def Start_tracing_def b' set_options_def kDefaultTracingMaxAttributes_def
        kDefaultTracingMaxAnnotations_def kDefaultTracingMaxMessageEvents_def kDefaultTracingMaxLinks_def)
qed

lemma no_trace_setup:
  "\<not> build_tracing \<or> \<not> enable_tracing (sv_options sv) \<Longrightarrow>
   Start_traced build_tracing (sv, t) = bind_r (Start sv) (\<lambda>sv'. Inr (sv', t))"
  by (auto simp: Start_traced_def Start_tracing_def)

end
