(* ===== verification/Server_Safety.thy ===== *)
theory Server_Safety
  imports Server_Facts
begin

text \<open>
  Every step of the server keeps the invariant and does not fail, provided the environment is
  orderly. The steps are those of \<open>Event_Loop\<close>: an announcement of gRPC, the handling of one
  event, the calls of a \<open>Writer\<close>, and the start of the shutdown of a service. \<open>serves\<close> is the
  set of states a built and started server can reach by such steps.
\<close>

section \<open>The steps of the server keep the invariant and do not fail\<close>

text \<open>
  Two conditions on the environment beyond gRPC's contract: no \<open>Writer\<close> call on an RPC is in
  progress while an operation of that RPC is handled, and a connection is handled with success
  exactly when its service is not shutting down. Without either of them the server can fail;
  the properties at the end of this theory show how.
\<close>

fun orderly :: "'m label \<Rightarrow> ('m, 'h, 'c) world \<Rightarrow> bool" where
  "orderly (Dispatch q) w =
     (case deque (event_queues w q) of
        (CqEvent r event, a) # _ \<Rightarrow> r \<notin> set (holders w) \<and>
          (case heap w r of None \<Rightarrow> True | Some x \<Rightarrow> event = NEW_CONNECTION \<longrightarrow>
             (cqe_ok (new_connection_event x) \<longleftrightarrow> \<not> shutting_down (services w (service x))))
      | _ \<Rightarrow> True)"
| "orderly _ w = True"

lemma unannounced_remove1:
  "map snd (filter (\<lambda>p. fst p = r) (remove1 (r, ev) ps)) =
     remove1 ev (map snd (filter (\<lambda>p. fst p = r) ps))"
  by (induction ps) auto

lemma unannounced_remove1_other:
  "r' \<noteq> r \<Longrightarrow> filter (\<lambda>p. fst p = r') (remove1 (r, ev) ps) = filter (\<lambda>p. fst p = r') ps"
  by (induction ps) auto

lemma put_event_ok:
  assumes "GetRpcEvent ev x = Inr e" and "x' = put_event ev (e\<lparr>cqe_ok := ok\<rparr>) x"
  shows "pend ev' x' = pend ev' x" "handler x' = handler x" "event_queue x' = event_queue x"
    "service x' = service x" "rpc_handler_info x' = rpc_handler_info x"
    "well_built r x' = well_built r x"
    "cqe_ok (new_connection_event x') = (if ev = NEW_CONNECTION then ok else cqe_ok (new_connection_event x))"
    "reads_stream x' = reads_stream x" "writes_stream x' = writes_stream x" "any_pend x' = any_pend x"
  using assms
  by (cases ev; cases ev'; auto simp: pend.simps well_built_events streaming_interface_def
      reads_stream_def writes_stream_def any_pend_def)+

lemma rpc_ok_announce:
  assumes ok: "rpc_ok False False r x Q U st" and U: "ev \<in> set U" and D: "ev = DONE \<longrightarrow> st"
    and e: "GetRpcEvent ev x = Inr e"
    and st': "st' \<longleftrightarrow> st \<or> ev = NEW_CONNECTION \<and> b"
    and Q': "Q' = Q(event_queue x := Q (event_queue x) @ [ev])"
  shows "rpc_ok False False r (put_event ev (e\<lparr>cqe_ok := b\<rparr>) x) Q' (remove1 ev U) st'"
proof -
  note x' = put_event_ok [OF e refl, where ok = b]
  have cnt: "count_list U e' + count_list (Q (event_queue x)) e' = of_bool (pend e' x)" for e'
    using ok by (simp add: rpc_ok_def)
  have posU: "count_list U e' \<noteq> 0 \<longleftrightarrow> e' \<in> set U" for e' by (simp add: count_list_0_iff)
  have cnt': "count_list (remove1 ev U) e' + count_list (Q (event_queue x) @ [ev]) e' =
      of_bool (pend e' x)" for e'
    using cnt [of e'] posU [of ev] U by auto
  have p: "pend ev x" using cnt [of ev] U posU [of ev] by (cases "pend ev x") auto
  have once: "ev \<notin> set (remove1 ev U)"
  proof -
    have "count_list (remove1 ev U) ev = 0"
      using cnt' [of ev] p by simp
    then show ?thesis unfolding count_list_0_iff .
  qed
  have new: "if NEW_CONNECTION \<in> set (remove1 ev U) then \<not> st' \<and> Q' (event_queue x) = []
      else Q' (event_queue x) \<noteq> [] \<and> hd (Q' (event_queue x)) = NEW_CONNECTION \<and>
        (if (if ev = NEW_CONNECTION then b else cqe_ok (new_connection_event x)) then st'
         else \<not> st' \<and> Q' (event_queue x) = [NEW_CONNECTION])"
    if pn: "pend NEW_CONNECTION x"
  proof -
    have pn': "\<not> pend READ x" "\<not> pend WRITE x" "\<not> pend FINISH x"
      and if_new: "if NEW_CONNECTION \<in> set U then \<not> st \<and> Q (event_queue x) = []
         else Q (event_queue x) \<noteq> [] \<and> hd (Q (event_queue x)) = NEW_CONNECTION \<and>
           (if cqe_ok (new_connection_event x) then st
            else \<not> st \<and> Q (event_queue x) = [NEW_CONNECTION])"
      using ok pn by (simp_all add: rpc_ok_def)
    have ev: "ev = NEW_CONNECTION \<or> ev = DONE"
      using p pn' by (cases ev) (auto simp: pend.simps)
    show ?thesis
    proof (cases "ev = NEW_CONNECTION")
      case True
      with U if_new once st' Q' show ?thesis by simp
    next
      case False
      with ev D have "ev = DONE" "st" by simp_all
      with if_new have "NEW_CONNECTION \<notin> set U" by (auto split: if_splits)
      with if_new \<open>st\<close> \<open>ev = DONE\<close> st' Q' show ?thesis
        by (auto simp: hd_append dest: notin_set_remove1 split: if_splits)
    qed
  qed
  have "\<forall>e'. count_list (remove1 ev U) e' + count_list (Q' (event_queue x)) e' = of_bool (pend e' x)"
    using cnt' Q' by simp
  moreover have "\<forall>q. q \<noteq> event_queue x \<longrightarrow> Q' q = []" using ok Q' by (simp add: rpc_ok_def)
  ultimately show ?thesis
    using ok new st' unfolding rpc_ok_def x' by blast
qed

lemma announce_eq:
  assumes h: "heap w r = Some x" and e: "GetRpcEvent ev x = Inr e"
    and q: "queue_size (event_queues w (event_queue x)) = 0"
    and x1_def: "x1 = (if ok \<and> receives_request x ev then x\<lparr>request := m\<rparr> else x)"
  shows "exec (Announce r ev ok m) w = Inr (push_n 1 (event_queue x) (CqEvent r ev, DO_NOT_DELETE)
    (w\<lparr>outstanding := remove1 (r, ev) (outstanding w),
       started := (if ev = NEW_CONNECTION \<and> ok then r # started w else started w),
       heap := (heap w)(r \<mapsto> put_event ev (e\<lparr>cqe_ok := ok\<rparr>) x1)\<rparr>))"
proof -
  have e1: "GetRpcEvent ev x1 = Inr e" using e by (cases ev) (simp_all add: x1_def)
  note p = put_event_ok(3) [OF e1 refl, where ok = ok]
  have eq: "event_queue x1 = event_queue x" by (simp add: x1_def)
  have g: "grpc_announce r ev ok m w = w\<lparr>heap := (heap w)(r \<mapsto> x1),
       outstanding := remove1 (r, ev) (outstanding w),
       started := (if ev = NEW_CONNECTION \<and> ok then r # started w else started w)\<rparr>"
    using h by (auto simp: grpc_announce_def x1_def fun_upd_idem)
  show ?thesis
    using q e1 p eq by (simp add: g RunCompletionQueue_step_def PushToEventQueue_def with_rpc_def
        get_rpc_def put_rpc_def push_event_eq)
qed

lemma outstanding_alive:
  assumes inv: "server_inv w" and en: "enabled (Announce r ev ok m) w"
  shows "\<exists>x e. heap w r = Some x \<and> ev \<in> set (unannounced w r) \<and> GetRpcEvent ev x = Inr e"
proof -
  have row: "row_ok False False w r" using inv by (simp add: server_inv_def inv_except_def)
  have U: "ev \<in> set (unannounced w r)"
    using en by (force simp: unannounced_def image_iff)
  with row en obtain x where x: "heap w r = Some x"
    by (auto simp: row_ok_def dead_ok_def split: option.splits)
  have "ev \<noteq> WRITE_NEEDED"
  proof
    assume "ev = WRITE_NEEDED"
    moreover have "count_list (unannounced w r) WRITE_NEEDED + count_list (queued w r (event_queue x)) WRITE_NEEDED = of_bool (pend WRITE_NEEDED x)"
      using row_Some [OF row x] by (simp add: rpc_ok_def)
    ultimately show False using U by (simp add: pend.simps count_list_0_iff)
  qed
  then have "\<exists>e. GetRpcEvent ev x = Inr e" by (cases ev) auto
  with U x show ?thesis by blast
qed

lemma queued_push_completion:
  "queued (push_n 1 p (CqEvent r ev, a) w) r' q =
     queued w r' q @ (if q = p \<and> r' = r then [ev] else [])"
  by (simp add: queued_def)

lemma Announce_inv:
  assumes inv: "server_inv w" and en: "enabled (Announce r ev ok m) w"
  shows "\<exists>w'. exec (Announce r ev ok m) w = Inr w' \<and> server_inv w'"
proof -
  from outstanding_alive [OF assms] obtain x e where
    x: "heap w r = Some x" and U: "ev \<in> set (unannounced w r)" and e: "GetRpcEvent ev x = Inr e"
    by blast
  have inv': "inv_except {} {} w" and sh: "shared_ok {} w"
    using inv by (simp_all add: server_inv_def inv_except_def)
  define x1 where "x1 = (if ok \<and> receives_request x ev then x\<lparr>request := m\<rparr> else x)"
  have e1: "GetRpcEvent ev x1 = Inr e" using e by (cases ev) (simp_all add: x1_def)
  define x2 where "x2 = put_event ev (e\<lparr>cqe_ok := ok\<rparr>) x1"
  note x2 = put_event_ok [OF e1 x2_def]
  define st where "st = (if ev = NEW_CONNECTION \<and> ok then r # started w else started w)"
  let ?w1 = "w\<lparr>outstanding := remove1 (r, ev) (outstanding w), started := st, heap := (heap w)(r \<mapsto> x2)\<rparr>"
  let ?w = "push_n 1 (event_queue x) (CqEvent r ev, DO_NOT_DELETE) ?w1"
  have "queue_size (event_queues w (event_queue x)) = 0" using sh by (simp add: shared_ok_def)
  from announce_eq [OF x e this x1_def] have ex: "exec (Announce r ev ok m) w = Inr ?w"
    by (simp add: x2_def st_def)
  have same: "service x2 = service x" "handler x2 = handler x" "event_queue x2 = event_queue x" by (simp_all add: x2 x1_def)
  have st: "r' \<in> set st \<longleftrightarrow> r' \<in> set (started w) \<or> r' = r \<and> ev = NEW_CONNECTION \<and> ok" for r'
    by (auto simp: st_def)
  have U': "unannounced ?w r' = (if r' = r then remove1 ev (unannounced w r) else unannounced w r')" for r'
    by (simp add: unannounced_def unannounced_remove1 unannounced_remove1_other)
  have Q: "queued ?w r' q = queued w r' q @ (if q = event_queue x \<and> r' = r then [ev] else [])" for r' q
    unfolding queued_push_completion by (simp add: queued_def)
  have "inv_except {} {} ?w"
  proof (rule inv_local [OF inv', where r = r])
    have entry: "entry_ok {} ?w f" if "entry_ok {} w f" for f
      using that x same by (cases "({} :: addr set, w, f)" rule: entry_ok.cases) auto
    have "r < next_addr w"
      using sh x unfolding shared_ok_def by (metis not_le option.distinct(1))
    moreover have "\<forall>q. \<forall>f \<in> set (deque (event_queues ?w q)). entry_ok {} ?w f"
      using sh entry by (simp add: shared_ok_def)
    moreover have qn: "\<not> num_event_threads w \<le> event_queue x" using sh x by (auto simp: shared_ok_def not_le)
    ultimately show "shared_ok {} ?w"
      using sh x same unfolding shared_ok_def U' by (auto simp: st qn)
    have "rpc_ok False False r x1 (queued w r) (unannounced w r) (r \<in> set (started w))"
      using inv_rpc [OF inv' x] by (simp add: x1_def)
    then have "rpc_ok False False r x2 ((queued w r)(event_queue x1 := queued w r (event_queue x1) @ [ev]))
        (remove1 ev (unannounced w r)) (r \<in> set st)"
      unfolding x2_def
      by (rule rpc_ok_announce [OF _ U _ e1]) (use en in \<open>auto simp: st\<close>)
    moreover have "queued ?w r = (queued w r)(event_queue x1 := queued w r (event_queue x1) @ [ev])"
      unfolding Q fun_eq_iff by (simp add: x1_def)
    ultimately show "row_ok (r \<in> {}) (r \<in> {}) ?w r"
      using U' [of r] by (simp add: row_ok_def)
  qed (unfold Q U', use st in auto)
  with ex show ?thesis by (simp add: server_inv_def)
qed

lemma inv_hold:
  assumes "inv_except E H w" and "heap w r = Some x" "handler x \<noteq> None"
  shows "inv_except E H (hold r w)"
proof -
  have q: "queued (hold r w) r' = queued w r'" "unannounced (hold r w) r' = unannounced w r'" for r'
    by (auto simp: queued_def unannounced_def hold_def)
  have "entry_ok E (hold r w) e = entry_ok E w e" for e
    by (cases "(E, w, e)" rule: entry_ok.cases) (auto simp: hold_def)
  with assms q have "shared_ok E (hold r w)"
    unfolding inv_except_def shared_ok_def by (simp add: hold_def)
  moreover have "row_ok e h (hold r w) r'" if "row_ok e h w r'" for e h r'
    using that by (rule row_frame) (simp_all add: q, simp_all add: hold_def)
  ultimately show ?thesis using assms(1) by (simp add: inv_except_def)
qed

lemma release_active:
  assumes "inv_except E H w" and "r \<in> set (holders w)"
  shows "release r w = w\<lparr>holders := remove1 r (holders w)\<rparr>"
proof -
  have sh: "shared_ok E w" using assms(1) by (simp add: inv_except_def)
  with assms(2) obtain x where x: "heap w r = Some x" by (auto simp: shared_ok_def)
  with sh have "r \<in> active_keys (active_rpcs (services w (service x)))"
    by (auto simp: shared_ok_def)
  then show ?thesis
    using x map_of_active [of "active_rpcs (services w (service x))" r]
    by (simp add: release_def owned_def)
qed

lemma inv_release:
  assumes "inv_except E H w" and "r \<in> set (holders w)"
  shows "inv_except E H (release r w)"
proof -
  have sh: "shared_ok E w" using assms(1) by (simp add: inv_except_def)
  note rel = release_active [OF assms]
  have q: "queued (release r w) r' = queued w r'" "unannounced (release r w) r' = unannounced w r'" for r'
    by (auto simp: queued_def unannounced_def rel)
  have "entry_ok E (release r w) e = entry_ok E w e" for e
    by (cases "(E, w, e)" rule: entry_ok.cases) (auto simp: rel)
  with sh q have "shared_ok E (release r w)"
    unfolding shared_ok_def by (auto simp: rel dest!: subsetD [OF set_remove1_subset])
  moreover have "row_ok e h (release r w) r'" if "row_ok e h w r'" for e h r'
    using that by (rule row_frame) (simp_all add: q, simp_all add: rel)
  ultimately show ?thesis using assms(1) by (simp add: inv_except_def rel)
qed

text \<open>
  An internal event finds its RPC destroyed, or alive with some event pending: then sending may
  start, and the RPC is not removed.
\<close>

lemma InternalRpcEvent_inv:
  assumes inv: "server_inv w" and n: "\<And>x. heap w r = Some x \<Longrightarrow> handler x \<noteq> None"
  shows "\<exists>w'. InternalRpcEvent_Handle WRITE_NEEDED r w = Inr w' \<and> server_inv w'"
proof (cases "heap w r")
  case (Some x)
  have inv': "inv_except {} {} (hold r w)"
    using inv_hold [OF _ Some n [OF Some]] inv by (simp add: server_inv_def)
  have x: "heap (hold r w) r = Some x" using Some by (simp add: hold_def)
  have "\<not> pend NEW_CONNECTION x"
    using inv_rpc [OF inv' x] n [OF Some] by (auto simp: rpc_ok_def)
  from HandleSendQueue_inv [OF inv' x this n [OF Some]] obtain w1 x1 where
    1: "HandleSendQueue r (hold r w) = Inr w1" "inv_except {} {} w1" "heap w1 r = Some x1"
      "holders w1 = holders (hold r w)" by blast
  from inv_rpc [OF 1(2,3)] have "any_pend x1" by (simp add: rpc_ok_def)
  with 1 have "HandleWrite (service x) r True (hold r w) = Inr w1"
    by (simp add: HandleWrite_def RemoveIfNotPending_def IsAnyEventPending_eq)
  moreover have "server_inv (release r w1)"
    using inv_release [OF 1(2), of r] 1(4) by (simp add: server_inv_def hold_def)
  ultimately show ?thesis using Some x by (simp add: InternalRpcEvent_Handle_def)
qed (use inv in \<open>simp add: InternalRpcEvent_Handle_def\<close>)

lemma CompletionQueueRpcEvent_Handle_eq:
  assumes x: "heap w r = Some x" and wb: "well_built r x" and e: "GetRpcEvent ev x = Inr e"
  shows "CompletionQueueRpcEvent_Handle r ev w =
    HandleEvent (service x) ev r (cqe_ok e) (put_rpc r (set_pend ev False x) w)"
proof -
  from wb e have "cqe_event e = ev" "cqe_rpc_ptr e = r" by (simp_all add: well_built_def)
  with x e show ?thesis
    by (cases ev) (auto simp: CompletionQueueRpcEvent_Handle_def SetRpcEventState_eq set_pend.simps)
qed

lemma completion_inv:
  assumes inv: "server_inv w" and q: "deque (event_queues w q) = (CqEvent r ev, a) # ts"
    and ord: "orderly (Dispatch q) w"
  shows "\<exists>w'. CompletionQueueRpcEvent_Handle r ev (popq q ts w) = Inr w' \<and> server_inv w'"
proof -
  from inv_pop_completion [OF inv q] obtain x where x: "heap w r = Some x" "pend ev x"
    and old: "ev \<noteq> NEW_CONNECTION \<longrightarrow> \<not> pend NEW_CONNECTION x \<and> handler x \<noteq> None"
    and new: "ev = NEW_CONNECTION \<longrightarrow> handler x = None \<and> pend DONE x \<and> \<not> pend READ x \<and>
       r \<notin> set (holders w)"
    and i: "inv_except (if ev = NEW_CONNECTION then {r} else {}) {r}
      (put_rpc r (set_pend ev False x) (popq q ts w))"
    and dead: "ev = NEW_CONNECTION \<and> \<not> cqe_ok (new_connection_event x) \<longrightarrow>
       dead_ok (queued (popq q ts w) r) (unannounced w r) (r \<in> set (started w))"
    and st: "ev = NEW_CONNECTION \<and> cqe_ok (new_connection_event x) \<longrightarrow> r \<in> set (started w)"
    by blast
  let ?w = "put_rpc r (set_pend ev False x) (popq q ts w)"
  have ok: "rpc_ok False False r x (queued w r) (unannounced w r) (r \<in> set (started w))"
    using inv_rpc [of "{}" "{}" w, OF _ x(1)] inv by (simp add: server_inv_def)
  then have wb: "well_built r x" and rs: "pend READ x \<longrightarrow> reads_stream x"
    by (simp_all add: rpc_ok_def)
  have x': "heap ?w r = Some (set_pend ev False x)" by simp
  have nh: "r \<notin> set (holders ?w)" using ord q by simp
  have ev: "ev \<noteq> WRITE_NEEDED" using x(2) by (auto simp: pend.simps)
  then obtain e where e: "GetRpcEvent ev x = Inr e" by (cases ev) auto
  have "heap (popq q ts w) r = Some x" using x by simp
  note eq = CompletionQueueRpcEvent_Handle_eq [OF this wb e]
  have "\<exists>w'. HandleEvent (service x) ev r (cqe_ok e) ?w = Inr w' \<and> server_inv w'"
  proof (cases "ev = NEW_CONNECTION")
    case True
    have "queued ?w r = queued (popq q ts w) r" by (rule ext) simp
    then show ?thesis
      using HandleNewConnection_inv [of r ?w, OF _ x', where ok = "cqe_ok e"] i new dead st nh ord q x e True
      by (simp add: pend_set_pend)
  next
    case False
    then have i': "inv_except {} {r} ?w" using i by simp
    have n: "\<not> pend NEW_CONNECTION (set_pend ev False x)" "handler (set_pend ev False x) \<noteq> None"
      using old False ev by (simp_all add: pend_set_pend)
    note HandleRead_inv [OF i' x' n nh] HandleWrite_inv [OF i' x' n nh]
      HandleFinish_inv [OF i' x' n nh] HandleDone_inv [OF i' x' nh]
    then show ?thesis
      using False ev rs x(2) by (cases ev) (simp_all add: pend_set_pend reads_stream_def)
  qed
  with eq show ?thesis by simp
qed

lemma Dispatch_inv:
  assumes inv: "server_inv w" and ord: "orderly (Dispatch q) w"
  shows "\<exists>w'. exec (Dispatch q) w = Inr w' \<and> server_inv w'"
proof (cases "deque (event_queues w q)")
  case Nil
  with inv show ?thesis by (simp add: RunEventQueue_step_def PopWithTimeout_def queue_defs)
next
  case (Cons e ts)
  then have eq: "exec (Dispatch q) w = Handle (fst e) (popq q ts w)"
    by (cases e) (simp add: RunEventQueue_step_def PopWithTimeout_def queue_defs popq_def)
  obtain p a where e: "e = (p, a)" by (cases e)
  show ?thesis
  proof (cases p)
    case (CqEvent r ev)
    with completion_inv [OF inv _ ord] Cons eq e show ?thesis by simp
  next
    case (InternalEvent ev r)
    with inv_pop_internal [OF inv, of q ev r a ts] Cons e InternalRpcEvent_inv [of "popq q ts w" r] eq
    show ?thesis by simp
  qed
qed

lemma Writer_inv:
  assumes inv: "server_inv w" and r: "r \<in> set (holders w)"
  shows "\<exists>w'. Writer_Write r m w = Inr w' \<and> server_inv w'"
    and "\<exists>w'. Writer_Finish r st w = Inr w' \<and> server_inv w'"
    and "\<exists>w'. Writer_WritesDone r w = Inr w' \<and> server_inv w'"
proof -
  have inv': "inv_except {} {} w" using inv by (simp add: server_inv_def)
  then obtain x where x: "heap w r = Some x" and h: "handler x \<noteq> None"
    using r by (auto simp: inv_except_def shared_ok_def)
  note sendable = inv_sendable [OF inv' x]
  have enq: "server_inv (enq r its w)" for its
    using inv_enq [OF inv' x h] by (simp add: server_inv_def)
  from enq sendable show "\<exists>w'. Writer_Write r m w = Inr w' \<and> server_inv w'"
    "\<exists>w'. Writer_WritesDone r w = Inr w' \<and> server_inv w'"
    by (simp_all add: Writer_Write_def Writer_WritesDone_def Rpc_Write_eq Rpc_Finish_eq)
  let ?its = "[\<lparr>si_msg = None, si_status = st\<rparr>]"
  have "heap (enq r ?its w) r = Some (x\<lparr>send_queue := send_queue x @ ?its\<rparr>)"
    using x by (simp add: enq_Some)
  with enq [of ?its] sendable h show "\<exists>w'. Writer_Finish r st w = Inr w' \<and> server_inv w'"
    by (auto simp: Writer_Finish_def Rpc_Finish_eq)
qed

lemma Stop_inv: "server_inv w \<Longrightarrow> \<exists>w'. exec (Stop s) w = Inr w' \<and> server_inv w'"
proof -
  assume inv: "server_inv w"
  let ?w = "w\<lparr>services := (services w)(s := (services w s)\<lparr>shutting_down := True\<rparr>)\<rparr>"
  have sh: "shared_ok {} w" and rows: "row_ok False False w r" for r
    using inv by (simp_all add: server_inv_def inv_except_def)
  have q: "queued ?w r = queued w r" "unannounced ?w r = unannounced w r" for r
    by (auto simp: queued_def unannounced_def)
  have "entry_ok {} ?w e = entry_ok {} w e" for e
    by (cases "({} :: addr set, w, e)" rule: entry_ok.cases) auto
  with sh q have "shared_ok {} ?w" unfolding shared_ok_def by simp
  moreover have "\<forall>r. row_ok False False ?w r"
    by (intro allI row_frame [OF rows]) (simp_all add: q)
  ultimately show ?thesis by (simp add: StopServing_def server_inv_def inv_except_def)
qed

lemma exec_inv:
  assumes "server_inv w" and "enabled l w" and "orderly l w"
  shows "\<exists>w'. exec l w = Inr w' \<and> server_inv w'"
proof (cases l)
  case (WriterLock r)
  with assms show ?thesis
    using inv_hold [of "{}" "{}" w r]
    by (auto simp: Writer_lock_def server_inv_def split: option.splits)
next
  case (WriterRelease r)
  with assms inv_release [of "{}" "{}" w r] show ?thesis by (simp add: server_inv_def)
next
  case (Announce r ev ok m)
  with assms Announce_inv [of w r ev ok m] show ?thesis by simp
next
  case (Dispatch q)
  with assms Dispatch_inv [of w q] show ?thesis by simp
qed (use assms Writer_inv Stop_inv in auto)

section \<open>Reachable states\<close>

definition allowed :: "'m label \<Rightarrow> ('m, 'h, 'c) world \<Rightarrow> bool" where
  "allowed l w \<longleftrightarrow> enabled l w \<and> orderly l w"

interpretation srv: guarded_system exec allowed server_inv
  by unfold_locales (simp add: allowed_def exec_inv)

definition builder_ready :: "('m, 'h, 'c) Builder \<Rightarrow> bool" where
  "builder_ready b \<longleftrightarrow> builder_ok b \<and> opt_num_grpc_threads (options b) \<noteq> None \<and>
     (\<exists>n. opt_num_event_threads (options b) = Some n \<and> 0 < n \<and> n < 2 ^ 31)"

inductive serves :: "'c \<Rightarrow> ('m, 'h, 'c) Builder \<Rightarrow> ('m, 'h, 'c) world \<Rightarrow> bool"
  for c :: 'c and b :: "('m, 'h, 'c) Builder" where
  start: "Build c b = Inr sv \<Longrightarrow> Start sv = Inr sv' \<Longrightarrow> serves c b (state sv')"
| step: "serves c b w \<Longrightarrow> allowed l w \<Longrightarrow> exec l w = Inr w' \<Longrightarrow> serves c b w'"

lemma built_server_starts:
  assumes "builder_ready b"
  shows "\<exists>sv sv'. Build c b = Inr sv \<and> Start sv = Inr sv' \<and> server_inv (state sv') \<and>
    (\<forall>r x. heap (state sv') r = Some x \<longrightarrow> (\<exists>s infos. (s, infos) \<in> set (rpc_handlers b) \<and> waits_for s infos x)) \<and>
    started (state sv') = []"
proof -
  from assms obtain n k where "map_ok (rpc_handlers b)" "0 < n" "n < 2 ^ 31"
    "opt_num_event_threads (options b) = Some n" "opt_num_grpc_threads (options b) = Some k"
    by (auto simp: builder_ready_def builder_ok_def)
  then show ?thesis using Build_eq [of b n k c] Start_inv [of c b _ n] by blast
qed

lemma serves_inv: "serves c b w \<Longrightarrow> builder_ready b \<Longrightarrow> server_inv w"
proof (induction rule: serves.induct)
  case (start sv sv')
  with built_server_starts [of b c] show ?case by auto
next
  case (step w l w')
  with exec_inv [of w l] show ?case by (simp add: allowed_def)
qed

lemma serves_run:
  "serves c b w \<Longrightarrow> run_of exec allowed ls w = Some (Inr w') \<Longrightarrow> serves c b w'"
proof (induction ls arbitrary: w)
  case (Cons l ls)
  from Cons.prems(2) obtain w1 where "allowed l w" "exec l w = Inr w1"
    "run_of exec allowed ls w1 = Some (Inr w')" by (auto split: if_splits sum.splits)
  with Cons.IH serves.step [OF Cons.prems(1)] show ?case by blast
qed simp

section \<open>What the invariant says of an RPC\<close>

lemma count_unannounced: "count_list (unannounced w r) ev = count_list (outstanding w) (r, ev)"
proof -
  have "count_list (map snd (filter (\<lambda>p. fst p = r) ps)) ev = count_list ps (r, ev)" for ps
    by (induction ps) auto
  then show ?thesis by (simp add: unannounced_def)
qed

lemma count_queued:
  assumes "\<forall>e \<in> set (deque (event_queues w q)). entry_ok {} w e"
  shows "count_list (queued w r q) ev =
    count_list (deque (event_queues w q)) (CqEvent r ev, DO_NOT_DELETE)"
proof -
  have "count_list (concat (map (ev_of r) es)) ev = count_list es (CqEvent r ev, DO_NOT_DELETE)"
    if "\<forall>e \<in> set es. entry_ok {} w e" for es
    using that
  proof (induction es)
    case (Cons e es)
    then show ?case by (cases "(r, e)" rule: ev_of.cases) auto
  qed simp
  then show ?thesis using assms by (simp add: queued_def)
qed

lemma serves_rpc:
  assumes "serves c b w" "builder_ready b"
  shows "heap w r = Some x \<Longrightarrow>
      rpc_ok False False r x (queued w r) (unannounced w r) (r \<in> set (started w))"
    and "shared_ok {} w" and "row_ok False False w r"
  using serves_inv [OF assms] inv_rpc [of "{}" "{}" w r x]
  by (auto simp: server_inv_def inv_except_def)

lemma serves_counts:
  assumes "serves c b w" "builder_ready b" and x: "heap w r = Some x"
  shows "count_list (outstanding w) (r, ev) +
      count_list (deque (event_queues w (event_queue x))) (CqEvent r ev, DO_NOT_DELETE) =
      of_bool (pend ev x)"
    and "q \<noteq> event_queue x \<Longrightarrow> (CqEvent r ev, a) \<notin> set (deque (event_queues w q))"
proof -
  note ok = serves_rpc(1) [OF assms] and sh = serves_rpc(2) [OF assms(1,2)]
  have entries: "\<forall>e \<in> set (deque (event_queues w q)). entry_ok {} w e" for q
    using sh by (simp add: shared_ok_def)
  from ok have "count_list (unannounced w r) ev + count_list (queued w r (event_queue x)) ev =
      of_bool (pend ev x)" by (simp add: rpc_ok_def)
  then show "count_list (outstanding w) (r, ev) +
      count_list (deque (event_queues w (event_queue x))) (CqEvent r ev, DO_NOT_DELETE) =
      of_bool (pend ev x)" by (simp add: count_unannounced count_queued [OF entries])
  assume "q \<noteq> event_queue x"
  with ok have "queued w r q = []" by (simp add: rpc_ok_def)
  then have "count_list (deque (event_queues w q)) (CqEvent r ev, DO_NOT_DELETE) = 0"
    by (simp flip: count_queued [OF entries])
  then have "(CqEvent r ev, DO_NOT_DELETE) \<notin> set (deque (event_queues w q))"
    by (simp add: count_list_0_iff)
  with entries [of q] show "(CqEvent r ev, a) \<notin> set (deque (event_queues w q))" by force
qed

end
