(* ===== verification/Math_Service.thy ===== *)
theory Math_Service
  imports Server_Facts
begin

text \<open>
  The \<open>Math\<close> service of \<open>src/async_grpc/server_test.cc\<close> and \<open>proto/math_service.proto\<close>: five
  handlers, one for each way the framework can be used, and the server the tests build. Every
  message of the service has one integer field and is represented by it. The state of a handler
  is its \<open>sum_\<close>; the context keeps the values for which \<open>GetEcho\<close> has left a responder.
\<close>

section \<open>The handlers\<close>

type_synonym math_class = "(int, int, int list) HandlerClass"

text \<open>A handler type that overrides nothing but \<open>OnRequest\<close>.\<close>

definition plain_handler :: "(int \<Rightarrow> int list \<Rightarrow> int \<Rightarrow> int \<times> int list \<times> int handler_action list) \<Rightarrow> math_class" where
  "plain_handler on_request =
     \<lparr>hc_Initialize = (\<lambda>c. (0, c, [])), hc_OnRequest = on_request,
      hc_OnReadsDone = (\<lambda>sum c. (sum, c, [])), hc_OnFinish = (\<lambda>sum c. (sum, c, []))\<rparr>"

definition additional_increment :: int where
  "additional_increment = 10"

definition GetSumHandler :: math_class where
  "GetSumHandler = (plain_handler (\<lambda>sum c input. (sum + additional_increment + input, c, [])))
     \<lparr>hc_OnReadsDone := (\<lambda>sum c. (sum, c, [Act_Send sum]))\<rparr>"

definition GetRunningSumHandler :: math_class where
  "GetRunningSumHandler = (plain_handler (\<lambda>sum c input.
       (sum + input, c, [Act_Send (sum + input), Act_Send (sum + input)])))
     \<lparr>hc_OnReadsDone := (\<lambda>sum c. (sum, c, [Act_Finish Status_OK]))\<rparr>"

definition GetSquareHandler :: math_class where
  "GetSquareHandler = plain_handler (\<lambda>sum c input.
     (sum, c,
      (if input < 0 then [Act_Finish \<lparr>error_code = INTERNAL, error_message = ''internal error''\<rparr>]
       else []) @ [Act_Send (input * input)]))"

definition GetEchoHandler :: math_class where
  "GetEchoHandler = plain_handler (\<lambda>sum c input. (sum, c @ [input], [Act_GetWriter]))"

definition GetSequenceHandler :: math_class where
  "GetSequenceHandler = plain_handler (\<lambda>sum c input.
     (sum, c, map (\<lambda>i. Act_Send (int i)) [0..<nat input] @ [Act_Finish Status_OK]))"

section \<open>The test server\<close>

definition message_descriptor :: "string \<Rightarrow> int Descriptor" where
  "message_descriptor name = \<lparr>full_name = ''async_grpc.proto.'' @ name, prototype = 0\<rparr>"

definition math_method :: "string \<Rightarrow> string \<Rightarrow> string \<Rightarrow> RpcType \<Rightarrow> math_class \<Rightarrow> (int, int, int list) RpcHandlerType" where
  "math_method name req resp type impl =
     \<lparr>MethodName = ''/async_grpc.proto.Math/'' @ name, RequestType = message_descriptor req,
      ResponseType = message_descriptor resp, StreamType = type, HandlerImpl = impl\<rparr>"

definition GetSum :: "(int, int, int list) RpcHandlerType" where
  "GetSum = math_method ''GetSum'' ''GetSumRequest'' ''GetSumResponse'' CLIENT_STREAMING GetSumHandler"

definition GetRunningSum :: "(int, int, int list) RpcHandlerType" where
  "GetRunningSum = math_method ''GetRunningSum'' ''GetSumRequest'' ''GetSumResponse'' BIDI_STREAMING
     GetRunningSumHandler"

definition GetSquare :: "(int, int, int list) RpcHandlerType" where
  "GetSquare = math_method ''GetSquare'' ''GetSquareRequest'' ''GetSquareResponse'' NORMAL_RPC
     GetSquareHandler"

definition GetEcho :: "(int, int, int list) RpcHandlerType" where
  "GetEcho = math_method ''GetEcho'' ''GetEchoRequest'' ''GetEchoResponse'' NORMAL_RPC GetEchoHandler"

definition GetSequence :: "(int, int, int list) RpcHandlerType" where
  "GetSequence = math_method ''GetSequence'' ''GetSequenceRequest'' ''GetSequenceResponse''
     SERVER_STREAMING GetSequenceHandler"

definition descriptor_of :: "string \<Rightarrow> string \<Rightarrow> bool \<Rightarrow> bool \<Rightarrow> int MethodDescriptor" where
  "descriptor_of req resp cs ss =
     \<lparr>input_type = message_descriptor req, output_type = message_descriptor resp,
      client_streaming = cs, server_streaming = ss\<rparr>"

definition math_pool :: "int DescriptorPool" where
  "math_pool s = (if s = ''async_grpc.proto.Math'' then Some (map_of
     [(''GetSum'', descriptor_of ''GetSumRequest'' ''GetSumResponse'' True False),
      (''GetRunningSum'', descriptor_of ''GetSumRequest'' ''GetSumResponse'' True True),
      (''GetSquare'', descriptor_of ''GetSquareRequest'' ''GetSquareResponse'' False False),
      (''GetEcho'', descriptor_of ''GetEchoRequest'' ''GetEchoResponse'' False False),
      (''GetSequence'', descriptor_of ''GetSequenceRequest'' ''GetSequenceResponse'' False True)])
     else None)"

text \<open>\<open>SetUp\<close> of the tests, with the number of threads as a parameter.\<close>

definition math_builder :: "nat \<Rightarrow> (int, int, int list) Builder result" where
  "math_builder n = block
     [SetServerAddress ''localhost:50051'', SetNumGrpcThreads n, SetNumEventThreads n,
      RegisterHandler math_pool GetSum, RegisterHandler math_pool GetSquare,
      RegisterHandler math_pool GetRunningSum, RegisterHandler math_pool GetEcho,
      RegisterHandler math_pool GetSequence] new_Builder"

definition math_server :: "nat \<Rightarrow> (int, int, int list) Server result" where
  "math_server n = bind_r (math_builder n) (\<lambda>b. bind_r (Build [] b) (block [SetExecutionContext [], Start]))"

section \<open>The state of the started test server\<close>

lemma method_order:
  "(''GetSquare'' < ''GetSum'') = True" "(''GetRunningSum'' < ''GetSquare'') = True"
  "(''GetEcho'' < ''GetRunningSum'') = True" "(''GetSequence'' < ''GetEcho'') = False"
  "(''GetSequence'' < ''GetRunningSum'') = False" "(''GetSequence'' < ''GetSquare'') = True"
  by code_simp+

definition math_infos :: "(int, int, int list) ServiceInfo" where
  "math_infos =
     [(''GetEcho'', handler_info GetEcho), (''GetRunningSum'', handler_info GetRunningSum),
      (''GetSequence'', handler_info GetSequence), (''GetSquare'', handler_info GetSquare),
      (''GetSum'', handler_info GetSum)]"

lemma register_math:
  assumes "CHR ''/'' \<notin> set name" "name \<noteq> []" and "streams_of type = (cs, ss)"
    and "\<exists>f. math_pool ''async_grpc.proto.Math'' = Some f \<and> f name = Some (descriptor_of req resp cs ss)"
  shows "RegisterHandler math_pool (math_method name req resp type impl) b =
    Inr (b\<lparr>rpc_handlers := map_modify ''async_grpc.proto.Math'' []
     (\<lambda>infos. snd (map_emplace name (handler_info (math_method name req resp type impl)) infos))
     (rpc_handlers b)\<rparr>)"
proof -
  let ?T = "math_method name req resp type impl"
  have "ParseMethodFullName (MethodName ?T) = Inr (''async_grpc.proto.Math'', name)"
    using parse_full_name [of "''async_grpc.proto.Math''" name] assms(1,2)
    by (simp add: math_method_def)
  moreover have "CheckHandlerCompatibility math_pool ?T ''async_grpc.proto.Math'' name = Inr ()"
    unfolding CheckHandlerCompatibility_iff using assms(3,4)
    by (auto simp: math_method_def descriptor_of_def)
  ultimately show ?thesis by (simp add: RegisterHandler_def)
qed

lemma register_math_methods:
  "(T, name) \<in> {(GetSum, ''GetSum''), (GetSquare, ''GetSquare''), (GetRunningSum, ''GetRunningSum''),
     (GetEcho, ''GetEcho''), (GetSequence, ''GetSequence'')} \<Longrightarrow>
   RegisterHandler math_pool T b =
    Inr (b\<lparr>rpc_handlers := map_modify ''async_grpc.proto.Math'' []
     (\<lambda>infos. snd (map_emplace name (handler_info T) infos)) (rpc_handlers b)\<rparr>)"
  unfolding GetSum_def GetSquare_def GetRunningSum_def GetEcho_def GetSequence_def
    insert_iff empty_iff prod.inject
  by (elim disjE conjE FalseE; hypsubst; rule register_math)
    (simp_all add: streams_of_def math_pool_def)

lemma math_builder_eq:
  "math_builder n = Inr
     \<lparr>options = default_Options\<lparr>opt_num_grpc_threads := Some n,
        opt_num_event_threads := Some n, server_address := ''localhost:50051''\<rparr>,
      rpc_handlers = [(''async_grpc.proto.Math'', math_infos)]\<rparr>"
  by (simp add: math_builder_def register_math_methods [of GetSum "''GetSum''"]
      register_math_methods [of GetSquare "''GetSquare''"]
      register_math_methods [of GetRunningSum "''GetRunningSum''"]
      register_math_methods [of GetEcho "''GetEcho''"]
      register_math_methods [of GetSequence "''GetSequence''"]
      SetServerAddress_def SetNumGrpcThreads_def SetNumEventThreads_def set_options_def
      new_Builder_def math_infos_def method_order)

text \<open>The five RPCs that wait for their first connection when there is one thread of each kind.\<close>

definition math_jobs :: "(nat \<times> (int, int, int list) RpcHandlerInfo \<times> nat) list" where
  "math_jobs =
     [(0, handler_info GetEcho, 0), (1, handler_info GetRunningSum, 0),
      (2, handler_info GetSequence, 0), (3, handler_info GetSquare, 0), (4, handler_info GetSum, 0)]"

definition math_rpc :: "addr \<Rightarrow> (int, int, int list) Rpc" where
  "math_rpc r = waiting_rpc ''async_grpc.proto.Math'' (math_jobs ! r) 0 r"

definition math_world :: "(int, int, int list) world" where
  "math_world =
     \<lparr>heap = [0 \<mapsto> math_rpc 0, 1 \<mapsto> math_rpc 1, 2 \<mapsto> math_rpc 2, 3 \<mapsto> math_rpc 3, 4 \<mapsto> math_rpc 4],
      next_addr = 5,
      services = (\<lambda>_. new_Service [])(''async_grpc.proto.Math'' :=
        (new_Service math_infos)\<lparr>active_rpcs := \<lparr>rpcs = [(4, 4), (3, 3), (2, 2), (1, 1), (0, 0)]\<rparr>\<rparr>),
      holders = [], num_event_threads = 1, current_event_queue_id = 0,
      event_queues = (\<lambda>_. new_queue), exec_context = [],
      calls = concat (map (\<lambda>r. waiting_calls ''async_grpc.proto.Math'' (math_jobs ! r) r) [0, 1, 2, 3, 4]),
      outstanding = concat (map (\<lambda>r. [(r, DONE), (r, NEW_CONNECTION)]) [0, 1, 2, 3, 4]),
      started = []\<rparr>"

lemma StartServing_one_single:
  assumes "num_event_threads w = 1" "current_event_queue_id w = 0"
    and "active_rpcs (services w s) = \<lparr>rpcs = as\<rparr>" "next_addr w \<notin> fst ` set as"
  shows "StartServing_one s i info cq w = Inr (w\<lparr>
    heap := (heap w)(next_addr w \<mapsto> waiting_rpc s (i, info, cq) 0 (next_addr w)),
    next_addr := Suc (next_addr w),
    services := (services w)(s := (services w s)\<lparr>active_rpcs := \<lparr>rpcs = (next_addr w, next_addr w) # as\<rparr>\<rparr>),
    calls := calls w @ waiting_calls s (i, info, cq) (next_addr w),
    outstanding := outstanding w @ [(next_addr w, DONE), (next_addr w, NEW_CONNECTION)]\<rparr>)"
proof -
  have "map_of as (next_addr w) = None" using assms(4) by (simp add: map_of_eq_None_iff)
  moreover have "w\<lparr>current_event_queue_id := 0\<rparr> = w" using assms(2) by simp
  ultimately show ?thesis
    using assms
    by (simp add: StartServing_one_def SelectNextEventQueueRoundRobin_def in_int32_def to_int32_def
        add_rpc_def Let_def ActiveRpcs_Add_def set_active_def RequestNextMethodInvocation_eq
        issue_def waiting_rpc_def waiting_calls_def)
qed

lemma math_server_state:
  "\<exists>sv. math_server 1 = Inr sv \<and> state sv = math_world"
  by (simp add: math_server_def math_builder_eq Build_eq map_ok_def SetExecutionContext_def
      Start_def on_state_def built_world_def initial_world_def StartServing_def math_infos_def
      StartServing_one_single new_Service_def new_ActiveRpcs_def Start_threads_def
      EventQueueThread_Start_def CompletionQueueThread_Start_def new_EventQueueThread_def new_CompletionQueueThread_def
      completion_queue_def
      math_world_def math_rpc_def math_jobs_def fun_eq_iff eval_nat_numeral)

section \<open>Evaluating runs of the test server\<close>

lemma math_method_facts [simp]:
  "rpc_type (handler_info GetSum) = CLIENT_STREAMING" "rpc_type (handler_info GetSquare) = NORMAL_RPC"
  "rpc_type (handler_info GetRunningSum) = BIDI_STREAMING" "rpc_type (handler_info GetEcho) = NORMAL_RPC"
  "rpc_type (handler_info GetSequence) = SERVER_STREAMING"
  "handler_class (handler_info GetSum) = GetSumHandler"
  "handler_class (handler_info GetSquare) = GetSquareHandler"
  "handler_class (handler_info GetRunningSum) = GetRunningSumHandler"
  "handler_class (handler_info GetEcho) = GetEchoHandler"
  "handler_class (handler_info GetSequence) = GetSequenceHandler"
  by (simp_all add: handler_info_def GetSum_def GetSquare_def GetRunningSum_def GetEcho_def
      GetSequence_def math_method_def)

lemma math_prototypes [simp]:
  "T \<in> {GetSum, GetSquare, GetRunningSum, GetEcho, GetSequence} \<Longrightarrow>
   prototype (request_descriptor (handler_info T)) = 0 \<and>
   prototype (response_descriptor (handler_info T)) = 0"
  by (auto simp: handler_info_def GetSum_def GetSquare_def GetRunningSum_def GetEcho_def
      GetSequence_def math_method_def message_descriptor_def)

lemma math_handler_facts [simp]:
  "hc_Initialize GetSumHandler c = (0, c, [])"
  "hc_OnRequest GetSumHandler h c i = (h + 10 + i, c, [])"
  "hc_OnReadsDone GetSumHandler h c = (h, c, [Act_Send h])"
  "hc_OnFinish GetSumHandler h c = (h, c, [])"
  "hc_Initialize GetSquareHandler c = (0, c, [])"
  "hc_OnRequest GetSquareHandler h c i = (h, c, (if i < 0
     then [Act_Finish \<lparr>error_code = INTERNAL, error_message = ''internal error''\<rparr>] else []) @ [Act_Send (i * i)])"
  "hc_OnReadsDone GetSquareHandler h c = (h, c, [])"
  "hc_OnFinish GetSquareHandler h c = (h, c, [])"
  "hc_Initialize GetEchoHandler c = (0, c, [])"
  "hc_OnRequest GetEchoHandler h c i = (h, c @ [i], [Act_GetWriter])"
  "hc_OnReadsDone GetEchoHandler h c = (h, c, [])"
  "hc_OnFinish GetEchoHandler h c = (h, c, [])"
  by (simp_all add: GetSumHandler_def GetSquareHandler_def GetEchoHandler_def plain_handler_def
      additional_increment_def)

text \<open>The definitions that evaluate a step on a concrete state.\<close>

lemmas step_defs =
  RunCompletionQueue_step_def grpc_announce_def receives_request_def PushToEventQueue_def
  push_event_def put_rpc_def Push_def new_queue_def queue_defs RunEventQueue_step_def
  PopWithTimeout_def CompletionQueueRpcEvent_Handle_def SetRpcEventState_def
  HandleNewConnection_def OnConnection_def run_actions_def RequestStreamingReadIfNeeded_def
  async_reader_interface_def grpc_issue_def get_rpc_def SelectNextEventQueueRoundRobin_def
  in_int32_def to_int32_def add_rpc_def ActiveRpcs_Add_def set_active_def SetEventQueue_def
  Clone_def RequestNextMethodInvocation_def streaming_interface_def HandleRead_def OnRequest_def
  call_handler_def OnReadsDone_def Rpc_Write_def Rpc_Finish_def EnqueueMessage_def
  push_write_needed_def Rpc_GetWeakPtr_def ActiveRpcs_GetWeakPtr_def RemoveIfNotPending_def
  IsAnyEventPending_def IsRpcEventPending_def GetRpcEventState_def InternalRpcEvent_Handle_def
  hold_def release_def HandleWrite_def HandleSendQueue_def PerformFinish_def PerformWrite_def
  SendUnaryFinish_def owned_def HandleFinish_def OnFinish_def HandleDone_def remove_rpc_def
  ActiveRpcs_Remove_def Writer_lock_def Writer_Write_def Writer_WritesDone_def Writer_Finish_def
  StopServing_def new_Service_def Let_def

lemmas new_rpc_defs =
  new_Rpc_def InitializeReadersAndWriters_def new_CompletionQueueRpcEvent_def

lemma math_rpc_fields:
  "math_rpc 0 = (new_Rpc 0 0 0 0 (handler_info GetEcho) ''async_grpc.proto.Math'')
     \<lparr>new_connection_event := \<lparr>cqe_event = NEW_CONNECTION, cqe_rpc_ptr = 0, cqe_ok = False, cqe_pending = True\<rparr>,
      done_event := \<lparr>cqe_event = DONE, cqe_rpc_ptr = 0, cqe_ok = False, cqe_pending = True\<rparr>\<rparr>"
  "math_rpc 3 = (new_Rpc 3 3 0 0 (handler_info GetSquare) ''async_grpc.proto.Math'')
     \<lparr>new_connection_event := \<lparr>cqe_event = NEW_CONNECTION, cqe_rpc_ptr = 3, cqe_ok = False, cqe_pending = True\<rparr>,
      done_event := \<lparr>cqe_event = DONE, cqe_rpc_ptr = 3, cqe_ok = False, cqe_pending = True\<rparr>\<rparr>"
  "math_rpc 4 = (new_Rpc 4 4 0 0 (handler_info GetSum) ''async_grpc.proto.Math'')
     \<lparr>new_connection_event := \<lparr>cqe_event = NEW_CONNECTION, cqe_rpc_ptr = 4, cqe_ok = False, cqe_pending = True\<rparr>,
      done_event := \<lparr>cqe_event = DONE, cqe_rpc_ptr = 4, cqe_ok = False, cqe_pending = True\<rparr>\<rparr>"
  by (simp_all add: math_rpc_def waiting_rpc_def math_jobs_def set_pend.simps new_rpc_defs)

lemma math_rpc_others:
  "math_rpc (Suc 0) = (new_Rpc (Suc 0) (Suc 0) 0 0 (handler_info GetRunningSum) ''async_grpc.proto.Math'')
     \<lparr>new_connection_event := \<lparr>cqe_event = NEW_CONNECTION, cqe_rpc_ptr = Suc 0, cqe_ok = False, cqe_pending = True\<rparr>,
      done_event := \<lparr>cqe_event = DONE, cqe_rpc_ptr = Suc 0, cqe_ok = False, cqe_pending = True\<rparr>\<rparr>"
  "math_rpc 2 = (new_Rpc 2 2 0 0 (handler_info GetSequence) ''async_grpc.proto.Math'')
     \<lparr>new_connection_event := \<lparr>cqe_event = NEW_CONNECTION, cqe_rpc_ptr = 2, cqe_ok = False, cqe_pending = True\<rparr>,
      done_event := \<lparr>cqe_event = DONE, cqe_rpc_ptr = 2, cqe_ok = False, cqe_pending = True\<rparr>\<rparr>"
  by (simp_all add: math_rpc_def waiting_rpc_def math_jobs_def set_pend.simps new_rpc_defs)

end
