(* ===== verification/Math_Runs.thy ===== *)
theory Math_Runs
  imports Server_Safety Math_Service
begin

text \<open>
  The test server of \<open>Math_Service\<close> is an instance of the reachable states of \<open>Server_Safety\<close>: the
  states on which the properties of the server are evaluated, and the equations that evaluate runs.
\<close>

definition math_options :: "(int, int, int list) Builder" where
  "math_options =
     \<lparr>options = default_Options\<lparr>opt_num_grpc_threads := Some 1,
        opt_num_event_threads := Some 1, server_address := ''localhost:50051''\<rparr>,
      rpc_handlers = [(''async_grpc.proto.Math'', math_infos)]\<rparr>"

lemma map_ok_math: "map_ok math_infos"
  by (simp add: math_infos_def map_ok_Cons)

lemma math_ready: "builder_ready math_options"
  using map_ok_math
  by (simp add: builder_ready_def builder_ok_def math_options_def map_ok_def)

lemma math_started:
  obtains sv sv' where "Build [] math_options = Inr sv" "Start sv = Inr sv'" "state sv' = math_world"
proof -
  obtain sv sv' where b: "Build [] math_options = Inr sv" "Start sv = Inr sv'"
    using built_server_starts [OF math_ready, of "[]"] by blast
  then have "SetExecutionContext [] sv = Inr sv"
    by (auto simp: SetExecutionContext_def math_options_def Build_eq map_ok_def built_world_def
        initial_world_def)
  with b have "math_server 1 = Inr sv'"
    using math_builder_eq [of 1] by (simp add: math_server_def math_options_def)
  then have "state sv' = math_world" using math_server_state by auto
  with b show ?thesis by (rule that)
qed

lemma math_serves: "serves [] math_options math_world"
  by (rule math_started) (metis serves.start)

lemmas math_eval =
  math_world_def math_rpc_fields new_rpc_defs step_defs allowed_def

text \<open>A client has connected to \<open>GetSum\<close> and sent its first number.\<close>

lemma math_connected:
  "\<exists>w x. run_of exec allowed [Announce 4 NEW_CONNECTION True 0, Dispatch 0, Announce 4 READ True 7] math_world =
     Some (Inr w) \<and> heap w 4 = Some x \<and> cqe_pending (read_event x) \<and> event_queue x = 0 \<and>
     service x = ''async_grpc.proto.Math'' \<and> holders w = [] \<and>
     deque (event_queues w 0) = [(CqEvent 4 READ, DO_NOT_DELETE)]"
  by (simp add: math_eval)

lemma math_connected_serves:
  obtains w x where "serves [] math_options w" "heap w 4 = Some x" "cqe_pending (read_event x)"
    "event_queue x = 0" "service x = ''async_grpc.proto.Math''" "holders w = []"
    "deque (event_queues w 0) = [(CqEvent 4 READ, DO_NOT_DELETE)]"
  using math_connected serves_run [OF math_serves] by blast

end
