(* ===== verification/Server_Properties.thy ===== *)
theory Server_Properties
  imports Server_Measure Math_Runs
begin

text \<open>
  What the server guarantees to its users, stated on the reachable states of \<open>Server_Safety\<close> and
  on runs of \<open>Event_Loop\<close>, with the test server of \<open>Math_Service\<close> as the concrete instance, and
  what it does not guarantee: the runs at the end of the theory end in an error.
\<close>

section \<open>Setting up\<close>

text \<open>C17. \<open>ParseMethodFullName\<close> accepts exactly the names that begin with a slash, a non-empty
  service name, a slash and a non-empty method name, and returns these two parts; what may follow a
  further slash is ignored. So it is the inverse of writing \<open>/service/method\<close>.\<close>

theorem ParseMethodFullName_iff:
  "ParseMethodFullName s = Inr (svc, m) \<longleftrightarrow>
     svc \<noteq> [] \<and> m \<noteq> [] \<and> CHR ''/'' \<notin> set svc \<and> CHR ''/'' \<notin> set m \<and>
     (\<exists>rest. s = CHR ''/'' # svc @ CHR ''/'' # m @ rest \<and> (rest = [] \<or> hd rest = CHR ''/''))"
  (is "?lhs \<longleftrightarrow> ?rhs")
proof
  assume ?lhs
  then obtain t str where s: "s = CHR ''/'' # t" and g: "getline CHR ''/'' (Some t) = (svc, str)"
    and h: "fst (getline CHR ''/'' str) = m" and ne: "svc \<noteq> []" "m \<noteq> []"
    by (auto simp: ParseMethodFullName_def check_def simp del: getline.simps
        split: list.splits if_splits prod.splits)
  from h ne(2) obtain u where u: "str = Some u" by (cases str) auto
  with g have t: "CHR ''/'' \<notin> set svc" "t = svc @ CHR ''/'' # u" by (auto simp only: getline_Some)
  show ?rhs
  proof (cases "snd (getline CHR ''/'' (Some u))")
    case None
    with h u have "getline CHR ''/'' (Some u) = (m, None)" by (simp add: prod_eq_iff del: getline.simps)
    with ne t s show ?thesis by (auto simp only: getline_None append_Nil2)
  next
    case (Some v)
    with h u have "getline CHR ''/'' (Some u) = (m, Some v)"
      by (simp add: prod_eq_iff del: getline.simps)
    then have "CHR ''/'' \<notin> set m" "u = m @ CHR ''/'' # v" by (auto simp only: getline_Some)
    with ne t s show ?thesis by auto
  qed
next
  assume r: ?rhs
  then obtain rest where s: "s = CHR ''/'' # svc @ CHR ''/'' # m @ rest"
    and rest: "rest = [] \<or> hd rest = CHR ''/''" by blast
  have "fst (getline CHR ''/'' (Some (m @ rest))) = m"
    using r rest getline_found [of "CHR ''/''" m "tl rest"] getline_end [of "CHR ''/''" m]
    by (cases rest) (simp_all del: getline.simps)
  with r s show ?lhs
    by (auto simp: ParseMethodFullName_def getline_found simp del: getline.simps split: prod.splits)
qed



section \<open>Safety\<close>






text \<open>C3. Every event of an RPC is delivered exactly once, to the thread that owns the RPC: in
  every reachable state, an event of a live RPC is pending exactly when it is either requested
  from gRPC or waiting in the RPC's own event queue, there once and not in both places, and no
  other queue holds an event of the RPC. So no two threads handle events of the same handler.\<close>

theorem events_delivered_once:
  assumes "builder_ready b" and "serves c b w" and "heap w r = Some x"
    and "ev \<noteq> WRITE_NEEDED"
  shows "(\<exists>pending. IsRpcEventPending ev x = Inr pending \<and>
      count_list (outstanding w) (r, ev) +
      count_list (deque (event_queues w (event_queue x))) (CqEvent r ev, DO_NOT_DELETE) =
        (if pending then 1 else 0)) \<and>
    (\<forall>q a. (CqEvent r ev, a) \<in> set (deque (event_queues w q)) \<longrightarrow> q = event_queue x)"
  using serves_counts(1) [OF assms(2,1,3), of ev] serves_counts(2) [OF assms(2,1,3), of _ ev]
    assms(4) by (auto simp: IsRpcEventPending_eq)

theorem events_delivered_once_witness:
  "\<exists>w x. serves [] math_options w \<and> heap w 4 = Some x \<and> IsRpcEventPending READ x = Inr True \<and>
     count_list (outstanding w) (4, READ) +
     count_list (deque (event_queues w (event_queue x))) (CqEvent 4 READ, DO_NOT_DELETE) = 1"
proof -
  obtain w x where w: "serves [] math_options w" "heap w 4 = Some x" "cqe_pending (read_event x)"
    by (rule math_connected_serves)
  have "IsRpcEventPending READ x = Inr True"
    using w(3) by (simp add: IsRpcEventPending_def GetRpcEventState_def)
  with events_delivered_once [OF math_ready w(1,2), of READ] w show ?thesis by auto
qed





section \<open>Sending\<close>



text \<open>C7. What \<open>HandleSendQueue\<close> does on every branch, for an object its constructor has built: nothing
  while the queue is empty or a write or finish is in progress; otherwise it takes the first item
  and makes exactly one call on gRPC, a \<open>Write\<close> for a message of a streaming response and one of
  the three forms of \<open>Finish\<close> for everything else, after setting the event of that call to pending.\<close>

theorem HandleSendQueue_behaviour:
  assumes "heap w r = Some x" and "well_built r x"
  shows "HandleSendQueue r w =
    (case send_queue x of
       [] \<Rightarrow> Inr w
     | item # rest \<Rightarrow>
        if cqe_pending (write_event x) \<or> cqe_pending (finish_event x) then Inr w
        else
          (case (rpc_type (rpc_handler_info x), si_msg item) of
             (SERVER_STREAMING, Some m) \<Rightarrow> Inr (w\<lparr>
               heap := (heap w)(r \<mapsto> set_pend WRITE True (x\<lparr>send_queue := rest, response := Some m\<rparr>)),
               calls := calls w @ [(r, WriteCall StreamWriter m, WRITE)],
               outstanding := outstanding w @ [(r, WRITE)]\<rparr>)
           | (BIDI_STREAMING, Some m) \<Rightarrow> Inr (w\<lparr>
               heap := (heap w)(r \<mapsto> set_pend WRITE True (x\<lparr>send_queue := rest, response := Some m\<rparr>)),
               calls := calls w @ [(r, WriteCall ReaderWriter m, WRITE)],
               outstanding := outstanding w @ [(r, WRITE)]\<rparr>)
           | (SERVER_STREAMING, None) \<Rightarrow> Inr (w\<lparr>
               heap := (heap w)(r \<mapsto> set_pend FINISH True (x\<lparr>send_queue := rest\<rparr>)),
               calls := calls w @ [(r, FinishStatus StreamWriter (si_status item), FINISH)],
               outstanding := outstanding w @ [(r, FINISH)]\<rparr>)
           | (BIDI_STREAMING, None) \<Rightarrow> Inr (w\<lparr>
               heap := (heap w)(r \<mapsto> set_pend FINISH True (x\<lparr>send_queue := rest\<rparr>)),
               calls := calls w @ [(r, FinishStatus ReaderWriter (si_status item), FINISH)],
               outstanding := outstanding w @ [(r, FINISH)]\<rparr>)
           | (NORMAL_RPC, msg) \<Rightarrow> Inr (w\<lparr>
               heap := (heap w)(r \<mapsto> set_pend FINISH True (x\<lparr>send_queue := rest, response := msg\<rparr>)),
               calls := calls w @ [(r, (case msg of Some m \<Rightarrow> FinishMessage ResponseWriter m (si_status item)
                 | None \<Rightarrow> FinishWithError ResponseWriter (si_status item)), FINISH)],
               outstanding := outstanding w @ [(r, FINISH)]\<rparr>)
           | (CLIENT_STREAMING, msg) \<Rightarrow> Inr (w\<lparr>
               heap := (heap w)(r \<mapsto> set_pend FINISH True (x\<lparr>send_queue := rest, response := msg\<rparr>)),
               calls := calls w @ [(r, (case msg of Some m \<Rightarrow> FinishMessage Reader m (si_status item)
                 | None \<Rightarrow> FinishWithError Reader (si_status item)), FINISH)],
               outstanding := outstanding w @ [(r, FINISH)]\<rparr>)))"
proof (cases "send_queue x = [] \<or> pend WRITE x \<or> pend FINISH x")
  case True
  with HandleSendQueue_idle [OF assms(1)] show ?thesis
    by (cases "send_queue x") (auto simp: pend.simps)
next
  case False
  then obtain item rest where q: "send_queue x = item # rest"
    and free: "\<not> pend WRITE x" "\<not> pend FINISH x" by (cases "send_queue x") auto
  from HandleSendQueue_send [OF assms q free] q free show ?thesis
    by (cases "rpc_type (rpc_handler_info x)"; cases "si_msg item")
      (simp_all add: pend.simps issue_def send_event_def send_call_def sent_rpc_def writes_stream_def)
qed

theorem HandleSendQueue_behaviour_witness:
  "\<exists>x. heap math_world 3 = Some x \<and> well_built 3 x \<and> HandleSendQueue 3 math_world = Inr math_world"
proof -
  have "heap math_world 3 = Some (math_rpc 3)" "well_built 3 (math_rpc 3)"
    "send_queue (math_rpc 3) = []"
    by (simp_all add: math_world_def math_rpc_def waiting_rpc_def math_jobs_def)
  with HandleSendQueue_behaviour [of math_world 3 "math_rpc 3"] show ?thesis by auto
qed

section \<open>Starting and stopping\<close>

text \<open>C10. \<open>StartServing\<close> makes a service ready: it succeeds and leaves one new RPC for every pair of
  a registered method and a completion queue, each an object as the constructor builds it for that
  method index, queue and handler, waiting for its first connection; the event queues are assigned
  in turn, starting with the one after the last used; older RPCs are untouched.\<close>

theorem StartServing_creates_rpcs:
  assumes "server_inv w" and "infos = rpc_handler_infos (services w s)" and "k = length cqs"
  shows "\<exists>w'. StartServing s cqs w = Inr w' \<and> server_inv w' \<and>
    next_addr w' = next_addr w + length infos * k \<and>
    (\<forall>i < length infos. \<forall>j < k. heap w' (next_addr w + (i * k + j)) =
       Some (waiting_rpc s (i, snd (infos ! i), cqs ! j)
         (nat ((current_event_queue_id w + 1 + int (i * k + j)) mod int (num_event_threads w)))
         (next_addr w + (i * k + j)))) \<and>
    (\<forall>r < next_addr w. heap w' r = heap w r)"
proof -
  let ?jobs = "serving_jobs cqs 0 infos"
  from serving_block [OF assms(1), of s ?jobs] obtain w' where
    1: "StartServing s cqs w = Inr w'" "server_inv w'" "next_addr w' = next_addr w + length ?jobs"
    and h: "\<And>r. heap w' r = (if next_addr w \<le> r \<and> r < next_addr w + length ?jobs
       then Some (waiting_rpc s (?jobs ! (r - next_addr w))
         (nat ((current_event_queue_id w + 1 + int (r - next_addr w)) mod int (num_event_threads w))) r)
       else heap w r)"
    unfolding StartServing_def StartServing_methods_jobs assms(2) by blast
  have "heap w' (next_addr w + (i * k + j)) =
       Some (waiting_rpc s (i, snd (infos ! i), cqs ! j)
         (nat ((current_event_queue_id w + 1 + int (i * k + j)) mod int (num_event_threads w)))
         (next_addr w + (i * k + j)))" if "i < length infos" "j < k" for i j
  proof -
    have "i * k + j < Suc i * k" using that by simp
    also have "\<dots> \<le> length infos * k" using that by (intro mult_le_mono1) simp
    finally show ?thesis
      using that serving_jobs_nth [of i infos j cqs 0]
      by (simp add: h length_serving_jobs assms(3))
  qed
  moreover have "heap w' r = heap w r" if "r < next_addr w" for r using that by (simp add: h)
  ultimately show ?thesis using 1 by (auto simp: length_serving_jobs assms(3))
qed

theorem StartServing_creates_rpcs_witness:
  "\<exists>w'. server_inv (built_world 2 [] (rpc_handlers math_options)) \<and>
     StartServing ''async_grpc.proto.Math'' [7, 8] (built_world 2 [] (rpc_handlers math_options)) = Inr w' \<and>
     next_addr w' = 10 \<and>
     heap w' 9 = Some (waiting_rpc ''async_grpc.proto.Math'' (4, handler_info GetSum, 8) 0 9)"
proof -
  let ?w = "built_world 2 [] (rpc_handlers math_options)"
  have inv: "server_inv ?w"
    unfolding built_world_def by (rule fresh_inv) (simp_all add: new_Service_def)
  have infos: "math_infos = rpc_handler_infos (services ?w ''async_grpc.proto.Math'')"
    by (simp add: built_world_def math_options_def new_Service_def)
  have two: "2 = length [7, 8 :: nat]" by simp
  from StartServing_creates_rpcs [OF inv infos two] obtain w' where
    w': "StartServing ''async_grpc.proto.Math'' [7, 8] ?w = Inr w'"
      "next_addr w' = next_addr ?w + length math_infos * 2"
    and h: "\<forall>i < length math_infos. \<forall>j < 2. heap w' (next_addr ?w + (i * 2 + j)) =
      Some (waiting_rpc ''async_grpc.proto.Math'' (i, snd (math_infos ! i), [7, 8] ! j)
        (nat ((current_event_queue_id ?w + 1 + int (i * 2 + j)) mod int (num_event_threads ?w)))
        (next_addr ?w + (i * 2 + j)))"
    by blast
  from h [rule_format, of 4 1] inv w' show ?thesis
    by (simp add: built_world_def initial_world_def math_infos_def)
qed



section \<open>A client of \<open>GetSum\<close>\<close>









section \<open>What can go wrong\<close>

text \<open>C36. When gRPC reports a failed \<open>NEW_CONNECTION\<close> to a service that is not shutting down,
  \<open>HandleNewConnection\<close> removes and so destroys the RPC and then clones the destroyed object.\<close>

theorem failed_connection_uses_destroyed_rpc:
  assumes "heap w r = Some x" and "r \<in> active_keys (active_rpcs (services w (service x)))"
    and "r \<notin> set (holders w)" and "\<not> shutting_down (services w (service x))"
  shows "HandleNewConnection (service x) r False w = Inl (UseAfterFree r)"
  using assms map_of_active [of "active_rpcs (services w (service x))" r]
  by (simp add: HandleNewConnection_def remove_rpc_def ActiveRpcs_Remove_def get_rpc_def)

theorem failed_connection_uses_destroyed_rpc_witness:
  "heap math_world 4 = Some (math_rpc 4) \<and>
   HandleNewConnection ''async_grpc.proto.Math'' 4 False math_world = Inl (UseAfterFree 4) \<and>
   run [Announce 4 NEW_CONNECTION False 0, Dispatch 0] math_world = Some (Inl (UseAfterFree 4))"
proof -
  have s: "service (math_rpc 4) = ''async_grpc.proto.Math''"
    by (simp add: math_rpc_def waiting_rpc_def math_jobs_def)
  have "heap math_world 4 = Some (math_rpc 4)" by (simp add: math_world_def)
  with failed_connection_uses_destroyed_rpc [of math_world 4 "math_rpc 4"] s show ?thesis
    by (simp add: math_world_def active_keys_def new_Service_def)
      (simp add: run_def math_eval)
qed



text \<open>After a unary call was finished and before its end is announced, \<open>Writer::Write\<close> still
  returns true, and its message becomes a second \<open>Finish\<close> on the same call.\<close>

lemma write_after_finish_finishes_twice:
  "\<exists>w. run [Announce 3 NEW_CONNECTION True 11, Dispatch 0, Dispatch 0, Announce 3 FINISH True 0,
        Dispatch 0, WriterLock 3, WriterWrite 3 5, WriterRelease 3, Dispatch 0] math_world = Some (Inr w) \<and>
     sent 3 w = [FinishMessage ResponseWriter 121 Status_OK, FinishMessage ResponseWriter 5 Status_OK]"
  by (simp add: run_def math_eval sent_def waiting_calls_def math_jobs_def request_call_def)

end
