(* ===== verification/Server_Shutdown.thy ===== *)
theory Server_Shutdown
  imports Math_Runs
begin

text \<open>
  The life of a server object from \<open>Build\<close> to its destructor: which order of calls works, what an
  orderly shutdown leaves, and how a shutdown can leave RPCs behind.
\<close>

section \<open>Facts\<close>

lemma destroy_each_Inr: "destroy_each f ts = Inr () \<longleftrightarrow> list_all (\<lambda>t. f t = Inr ()) ts"
  by (induction ts) (auto simp: bind_r_Inr_iff)

lemma stop_all_serves:
  "serves c b w \<Longrightarrow> \<exists>w'. block (map StopServing ss) w = Inr w' \<and> serves c b w'"
proof (induction ss arbitrary: w)
  case (Cons s ss)
  let ?w = "w\<lparr>services := (services w)(s := (services w s)\<lparr>shutting_down := True\<rparr>)\<rparr>"
  have stop: "StopServing s w = Inr ?w" by (simp add: StopServing_def)
  moreover have "serves c b ?w"
    by (rule serves.step [OF Cons.prems, where l = "Stop s"]) (simp_all add: allowed_def stop)
  ultimately show ?case using Cons.IH by simp
qed simp

text \<open>A started server: its fields beside the state.\<close>

definition started_server :: "('m, 'h, 'c) Builder \<Rightarrow> ('m, 'h, 'c) Server \<Rightarrow> bool" where
  "started_server b sv \<longleftrightarrow>
     (\<exists>k n. opt_num_grpc_threads (options b) = Some k \<and> opt_num_event_threads (options b) = Some n \<and>
        grpc_server sv \<and> sv_services sv = map fst (rpc_handlers b) \<and>
        cq_threads sv = map (\<lambda>q. (new_CompletionQueueThread q)\<lparr>worker_thread := Some Joinable\<rparr>) [0..<k] \<and>
        event_threads sv = map (\<lambda>q. (new_EventQueueThread q)\<lparr>eqt_thread := Some Joinable\<rparr>) [0..<n])"

lemma Start_started:
  assumes "builder_ready b" and "Build c b = Inr sv" and "Start sv = Inr sv'"
  shows "started_server b sv'"
proof -
  from assms(1) obtain n k where "map_ok (rpc_handlers b)"
    "opt_num_event_threads (options b) = Some n" "opt_num_grpc_threads (options b) = Some k"
    by (auto simp: builder_ready_def builder_ok_def)
  with Build_eq [of b n k c] assms(2,3) show ?thesis
    by (auto simp: started_server_def Start_def on_state_def Start_threads_def start_new_threads bind_r_Inr_iff)
qed

lemma started_joinable:
  assumes "started_server b sv"
  shows "list_all (\<lambda>t. worker_thread t = Some Joinable) (cq_threads sv)"
    and "list_all (\<lambda>t. eqt_thread t = Some Joinable) (event_threads sv)"
  using assms by (auto simp: started_server_def list_all_iff)

lemma started_state [simp]: "started_server b (sv\<lparr>state := w\<rparr>) = started_server b sv"
  "started_server b (sv\<lparr>sv_shutting_down := d\<rparr>) = started_server b sv"
  by (simp_all add: started_server_def)

lemma Shutdown_stop_serves:
  assumes "started_server b sv" and "serves c b (state sv)"
  shows "\<exists>w. Shutdown_stop sv = Inr (sv\<lparr>sv_shutting_down := True, state := w\<rparr>) \<and> serves c b w"
proof -
  from stop_all_serves [OF assms(2), of "sv_services sv"] obtain w where
    "block (map StopServing (sv_services sv)) (state sv) = Inr w" "serves c b w" by blast
  with assms(1) show ?thesis by (auto simp: Shutdown_stop_def on_state_def started_server_def)
qed

text \<open>A run of the shutdown under the conditions of \<open>orderly\<close> stays among the reachable states.\<close>

definition shutdown_allowed :: "'m shutdown_step \<Rightarrow> ('m, 'h, 'c) world \<times> nat list \<Rightarrow> bool" where
  "shutdown_allowed x s \<longleftrightarrow> shutdown_guard x s \<and> (case x of Step l \<Rightarrow> orderly l (fst s) | _ \<Rightarrow> True)"

lemma shutdown_run_serves:
  "serves c b (fst s) \<Longrightarrow> run_of shutdown_exec shutdown_allowed xs s = Some (Inr s') \<Longrightarrow> serves c b (fst s')"
proof (induction xs arbitrary: s)
  case (Cons x xs)
  from Cons.prems(2) obtain s1 where 1: "shutdown_allowed x s" "shutdown_exec x s = Inr s1"
    "run_of shutdown_exec shutdown_allowed xs s1 = Some (Inr s')" by (auto split: if_splits sum.splits)
  obtain w gone where s: "s = (w, gone)" by (cases s)
  have "serves c b (fst s1)"
  proof (cases x)
    case (Step l)
    with 1 s have "allowed l w" "exec l w = Inr (fst s1)"
      by (auto simp: shutdown_allowed_def allowed_def bind_r_Inr_iff)
    with Cons.prems(1) s show ?thesis by (auto intro: serves.step)
  qed (use 1(2) s Cons.prems(1) in auto)
  with Cons.IH 1(3) show ?case by blast
qed simp

text \<open>After everything gRPC can announce and every queued event, no RPC is left.\<close>

lemma quiet_no_rpc:
  assumes inv: "server_inv w" and quiet: "grpc_quiet w" and empty: "\<forall>q. deque (event_queues w q) = []"
  shows "heap w r = None" and "rpcs (active_rpcs (services w s)) = []"
proof -
  have sh: "shared_ok {} w" and rows: "row_ok False False w r" for r
    using inv by (simp_all add: server_inv_def inv_except_def)
  have U: "ev = DONE \<and> r \<notin> set (started w)" if "ev \<in> set (unannounced w r)" for ev r
    using that quiet by (auto simp: unannounced_def grpc_quiet_def list_all_iff)
  have none: "heap w r = None" for r
  proof (rule ccontr)
    assume "heap w r \<noteq> None"
    then obtain x where x: "heap w r = Some x" by blast
    note ok = row_Some [OF rows x, unfolded rpc_ok_def]
    have Q: "queued w r q = []" for q using empty by (simp add: queued_def)
    have p: "ev = DONE \<and> r \<notin> set (started w)" if "pend ev x" for ev
    proof -
      have "count_list (unannounced w r) ev + count_list (queued w r (event_queue x)) ev = of_bool (pend ev x)"
        using ok by blast
      with that Q have "count_list (unannounced w r) ev \<noteq> 0" by simp
      then show ?thesis using U by (simp add: count_list_0_iff)
    qed
    have "\<not> pend NEW_CONNECTION x" using p [of NEW_CONNECTION] by auto
    with ok have "r \<in> set (started w)" by blast
    moreover have "any_pend x" using ok by blast
    ultimately show False using p by (auto simp: any_pend_def)
  qed
  show "heap w r = None" by (rule none)
  have "active_keys (active_rpcs (services w s)) = {}"
    using sh none by (fastforce simp: shared_ok_def)
  then show "rpcs (active_rpcs (services w s)) = []" by (simp add: active_keys_def)
qed

text \<open>Then the threads can be joined, and the server object be destroyed.\<close>

lemma quiet_join:
  assumes "started_server b sv" and inv: "server_inv w" and quiet: "grpc_quiet w"
    and empty: "\<forall>q. deque (event_queues w q) = []"
  shows "\<exists>sv'. Shutdown_join (sv\<lparr>state := w\<rparr>) = Inr sv' \<and> state sv' = w \<and>
    (\<forall>r. heap w r = None) \<and> Server_destroy sv' = Inr ()"
proof -
  let ?sv = "sv\<lparr>state := w, cq_threads := map (\<lambda>t. t\<lparr>cqt_queue_shut_down := True, worker_thread := Some Joined\<rparr>) (cq_threads sv),
    event_threads := map (\<lambda>t. t\<lparr>eqt_thread := Some Joined\<rparr>) (event_threads sv)\<rparr>"
  have "Shutdown_join (sv\<lparr>state := w\<rparr>) = Inr ?sv"
    using started_joinable [OF assms(1)]
    by (simp add: Shutdown_join_def ct.shutdown_started et.shutdown_started)
  moreover have "Server_destroy ?sv = Inr ()"
    using quiet_no_rpc(2) [OF inv quiet empty] ct.destroy_stopped et.destroy_stopped
    by (simp add: Server_destroy_def bind_r_Inr_iff destroy_each_Inr list_all_iff ActiveRpcs_destroy_def thread_destroy_def)
  ultimately show ?thesis using quiet_no_rpc(1) [OF inv quiet empty] by (intro exI [of _ ?sv]) simp
qed

text \<open>Which order of the calls on a server works.\<close>

lemma started_event_thread:
  assumes "builder_ready b" and "started_server b sv"
  shows "\<exists>t \<in> set (event_threads sv). eqt_thread t = Some Joinable"
  using assms by (force simp: builder_ready_def started_server_def)

lemma Start_needs_new_threads:
  assumes "Start sv = Inr sv'" and "t \<in> set (event_threads sv)"
  shows "eqt_thread t = None"
proof -
  from assms(1) obtain es where "for_each EventQueueThread_Start (event_threads sv) = Inr es"
    by (auto simp: Start_def on_state_def Start_threads_def bind_r_Inr_iff)
  with et.start_again [OF _ assms(2)] show ?thesis by blast
qed

lemma Shutdown_stop_threads:
  "Shutdown_stop sv = Inr sv' \<Longrightarrow> event_threads sv' = event_threads sv \<and> cq_threads sv' = cq_threads sv"
  by (auto simp: Shutdown_stop_def on_state_def bind_r_Inr_iff split: if_splits)

lemma Shutdown_joins:
  assumes "Shutdown steps sv = Some (Inr sv')" and "t \<in> set (event_threads sv)"
  shows "eqt_thread t = Some Joinable" and "event_threads sv' = map (\<lambda>t. t\<lparr>eqt_thread := Some Joined\<rparr>) (event_threads sv)"
proof -
  from assms(1) obtain sv2 w cs es where 1: "Shutdown_stop sv = Inr sv2"
    and es: "for_each EventQueueThread_Shutdown (event_threads sv2) = Inr es"
    and sv': "sv' = sv2\<lparr>state := w, cq_threads := cs, event_threads := es\<rparr>"
    by (auto simp: Shutdown_def Shutdown_join_def bind_r_Inr_iff split: sum.splits option.splits if_splits)
  note ev = Shutdown_stop_threads [OF 1, THEN conjunct1]
  have j: "eqt_thread t = Some Joinable" if "t \<in> set (event_threads sv)" for t
    using es et.shutdown_again [of t "event_threads sv2"] that ev by auto
  with assms(2) show "eqt_thread t = Some Joinable" by blast
  from j have "list_all (\<lambda>t. eqt_thread t = Some Joinable) (event_threads sv2)"
    by (simp add: list_all_iff ev)
  from et.shutdown_started [OF this] es sv' ev
  show "event_threads sv' = map (\<lambda>t. t\<lparr>eqt_thread := Some Joined\<rparr>) (event_threads sv)" by simp
qed

section \<open>Properties\<close>

text \<open>C12. A shutdown under the conditions of \<open>orderly\<close> is clean. Let a started server be in any state it
  can reach, and let gRPC and the threads take any steps until gRPC has nothing more to announce,
  the queues are empty and all event threads have ended. Then \<open>Shutdown\<close> returns, every RPC
  object has been destroyed, and the server's destructor finds neither an RPC in flight nor a
  thread that was not joined.\<close>

theorem clean_shutdown:
  assumes "builder_ready b" and "Build c b = Inr sv0" and "Start sv0 = Inr sv1"
    and "serves c b w" and "Shutdown_stop (sv1\<lparr>state := w\<rparr>) = Inr sv2"
    and "run_of shutdown_exec shutdown_allowed steps (state sv2, []) = Some (Inr (w', gone))"
    and "grpc_quiet w'" and "\<forall>q. deque (event_queues w' q) = []"
    and "list_all (\<lambda>t. eqt_event_queue t \<in> set gone) (event_threads sv2)"
  shows "\<exists>sv3. Shutdown steps (sv1\<lparr>state := w\<rparr>) = Some (Inr sv3) \<and> state sv3 = w' \<and>
    (\<forall>r. heap w' r = None) \<and> Server_destroy sv3 = Inr ()"
proof -
  have st: "started_server b (sv1\<lparr>state := w\<rparr>)" using Start_started [OF assms(1-3)] by simp
  with Shutdown_stop_serves [OF st, of c] assms(4,5) have st2: "started_server b sv2"
    and serves: "serves c b (state sv2)" by auto
  have run: "run_of shutdown_exec shutdown_guard steps (state sv2, []) = Some (Inr (w', gone))"
    using assms(6) by (rule run_of_weaken) (simp add: shutdown_allowed_def)
  have "server_inv w'"
    using shutdown_run_serves [OF _ assms(6), of c b] serves serves_inv [OF _ assms(1)] by simp
  from quiet_join [OF st2 this assms(7,8)] assms(5,7,9) run show ?thesis
    by (auto simp: Shutdown_def)
qed

text \<open>The test server when nobody is connected: gRPC returns the waiting RPCs.\<close>

definition stopped_math_world :: "(int, int, int list) world" where
  "stopped_math_world = math_world\<lparr>services := (services math_world)(''async_grpc.proto.Math'' :=
     (services math_world ''async_grpc.proto.Math'')\<lparr>shutting_down := True\<rparr>)\<rparr>"

definition return_waiting :: "int shutdown_step list" where
  "return_waiting = map (\<lambda>r. Step (Announce r NEW_CONNECTION False 0)) [0, 1, 2, 3, 4]"

definition handle_returned :: "int shutdown_step list" where
  "handle_returned = [Step (Dispatch 0), Step (Dispatch 0), Step (Dispatch 0), Step (Dispatch 0),
     Step (Dispatch 0), EventThreadExit 0]"

lemma math_Shutdown_stop:
  assumes "started_server math_options sv" and "state sv = math_world"
  shows "Shutdown_stop sv = Inr (sv\<lparr>sv_shutting_down := True, state := stopped_math_world\<rparr>)"
  using assms by (simp add: Shutdown_stop_def on_state_def StopServing_def started_server_def
      math_options_def stopped_math_world_def)

lemma math_return_waiting:
  "\<exists>w'. run_of shutdown_exec shutdown_allowed
      (return_waiting @ handle_returned) (stopped_math_world, []) =
      Some (Inr (w', [0])) \<and> grpc_quiet w' \<and> (\<forall>q. deque (event_queues w' q) = [])"
  by (simp add: return_waiting_def handle_returned_def stopped_math_world_def math_eval math_rpc_others
      shutdown_allowed_def grpc_quiet_def queue_defs)

lemma math_event_threads:
  "started_server math_options sv \<Longrightarrow>
   event_threads sv = [\<lparr>eqt_event_queue = 0, eqt_thread = Some Joinable\<rparr>] \<and>
   cq_threads sv = [\<lparr>cqt_completion_queue = 0, cqt_queue_shut_down = False, worker_thread = Some Joinable\<rparr>] \<and>
   sv_services sv = [''async_grpc.proto.Math'']"
  by (simp add: started_server_def math_options_def new_EventQueueThread_def new_CompletionQueueThread_def)

theorem clean_shutdown_witness:
  "\<exists>sv0 sv1 sv3. Build [] math_options = Inr sv0 \<and> Start sv0 = Inr sv1 \<and>
     Shutdown (return_waiting @ handle_returned) sv1 = Some (Inr sv3) \<and>
     (\<forall>r. heap (state sv3) r = None) \<and> Server_destroy sv3 = Inr ()"
proof -
  obtain sv0 sv1 where sv: "Build [] math_options = Inr sv0" "Start sv0 = Inr sv1" "state sv1 = math_world"
    by (rule math_started)
  note st = Start_started [OF math_ready sv(1,2)]
  have eq: "sv1\<lparr>state := math_world\<rparr> = sv1" using sv(3) by simp
  note stop = math_Shutdown_stop [OF st sv(3)]
  obtain w' where w': "run_of shutdown_exec shutdown_allowed
      (return_waiting @ handle_returned) (stopped_math_world, []) =
      Some (Inr (w', [0]))" "grpc_quiet w'" "\<forall>q. deque (event_queues w' q) = []"
    using math_return_waiting by blast
  let ?sv2 = "sv1\<lparr>sv_shutting_down := True, state := stopped_math_world\<rparr>"
  have run: "run_of shutdown_exec shutdown_allowed
      (return_waiting @ handle_returned) (state ?sv2, []) =
      Some (Inr (w', [0]))" using w'(1) by simp
  have gone: "list_all (\<lambda>t. eqt_event_queue t \<in> set [0]) (event_threads ?sv2)"
    using math_event_threads [OF st] by simp
  from clean_shutdown [OF math_ready sv(1,2) math_serves, unfolded eq, OF stop run w'(2,3) gone] sv(1,2)
  show ?thesis by blast
qed


text \<open>C14. A server is started once and shut down once. Before \<open>Start\<close> its execution context can be set,
  \<open>WaitForShutdown\<close> returns at once and \<open>Shutdown\<close> dereferences the null server; after it, in whatever
  state the server is, the context can no longer be set, \<open>WaitForShutdown\<close> waits, a second \<open>Start\<close>
  never succeeds, the object cannot be destroyed before \<open>Shutdown\<close> has joined the threads, and after
  a \<open>Shutdown\<close> that has returned neither \<open>Start\<close> nor \<open>Shutdown\<close> succeeds again.\<close>

theorem server_lifecycle:
  assumes "builder_ready b" and "Build c b = Inr sv0" and "Start sv0 = Inr sv1" and "sv = sv1\<lparr>state := w\<rparr>"
  shows "(\<exists>sv'. SetExecutionContext c' sv0 = Inr sv' \<and> exec_context (state sv') = c') \<and>
    \<not> WaitForShutdown_waits sv0 \<and> Shutdown steps sv0 = Some (Inl NullDereference) \<and>
    SetExecutionContext c' sv = Inl (CheckFailed ''!server_'') \<and> WaitForShutdown_waits sv \<and>
    (\<nexists>sv'. Start sv = Inr sv') \<and> Server_destroy sv \<noteq> Inr () \<and>
    (\<forall>sv2. Shutdown steps sv = Some (Inr sv2) \<longrightarrow>
       (\<nexists>sv'. Start sv2 = Inr sv') \<and> (\<nexists>steps' sv'. Shutdown steps' sv2 = Some (Inr sv')))"
proof -
  have st: "started_server b sv" using Start_started [OF assms(1-3)] assms(4) by simp
  then have g: "grpc_server sv" by (auto simp: started_server_def)
  have g0: "\<not> grpc_server sv0"
    using assms(1,2) Build_eq [of b _ _ c] by (auto simp: builder_ready_def builder_ok_def)
  obtain t where t: "t \<in> set (event_threads sv)" "eqt_thread t = Some Joinable"
    using started_event_thread [OF assms(1) st] by blast
  have null: "Shutdown steps sv0 = Some (Inl NullDereference)"
  proof -
    have "\<exists>w. block (map StopServing ss) w0 = Inr w" for ss w0
      by (induction ss arbitrary: w0) (simp_all add: StopServing_def)
    then obtain w where "block (map StopServing (sv_services sv0)) (state sv0) = Inr w" by blast
    with g0 show ?thesis by (simp add: Shutdown_def Shutdown_stop_def on_state_def)
  qed
  have twice: "\<not> Start sv2 = Inr sv'" "\<not> Shutdown steps' sv2 = Some (Inr sv')"
    if "Shutdown steps sv = Some (Inr sv2)" for sv2 sv' steps'
  proof -
    have "t\<lparr>eqt_thread := Some Joined\<rparr> \<in> set (event_threads sv2)"
      using Shutdown_joins(2) [OF that t(1)] t(1) by simp
    with Start_needs_new_threads Shutdown_joins(1)
    show "\<not> Start sv2 = Inr sv'" "\<not> Shutdown steps' sv2 = Some (Inr sv')" by fastforce+
  qed
  have "Server_destroy sv \<noteq> Inr ()"
    using t by (auto simp: Server_destroy_def bind_r_Inr_iff destroy_each_Inr list_all_iff thread_destroy_def)
  with g g0 null twice t Start_needs_new_threads show ?thesis
    by (fastforce simp: SetExecutionContext_def WaitForShutdown_waits_def)
qed

theorem server_lifecycle_witness:
  "\<exists>sv0 sv1. Build [] math_options = Inr sv0 \<and> Start sv0 = Inr sv1 \<and>
     Shutdown [] sv0 = Some (Inl NullDereference) \<and>
     SetExecutionContext [1] sv1 = Inl (CheckFailed ''!server_'') \<and> Server_destroy sv1 \<noteq> Inr ()"
proof -
  obtain sv0 sv1 where sv: "Build [] math_options = Inr sv0" "Start sv0 = Inr sv1"
    by (rule math_started)
  have "sv1 = sv1\<lparr>state := state sv1\<rparr>" by simp
  from server_lifecycle [OF math_ready sv this, of "[1]" "[]"] sv show ?thesis by blast
qed

end
