(* ===== verification/Rpc_Effects.thy ===== *)
theory Rpc_Effects
  imports Server_Safety Server_Measure
begin

text \<open>
  What the functions of the server leave alone. \<open>only\<close>: everything that belongs to other RPCs than the
  one they are called for. \<open>keeps\<close>: of that RPC, its handler and the state of its reads.
\<close>

definition only :: "addr \<Rightarrow> ('m, 'h, 'c) world \<Rightarrow> ('m, 'h, 'c) world \<Rightarrow> bool" where
  "only r w w' \<longleftrightarrow> next_addr w' = next_addr w \<and> num_event_threads w' = num_event_threads w \<and>
     started w' = started w \<and>
     (\<forall>r'. r' \<noteq> r \<longrightarrow> heap w' r' = heap w r' \<and> unannounced w' r' = unannounced w r')"

definition same_reads :: "('m, 'h, 'c) Rpc \<Rightarrow> ('m, 'h, 'c) Rpc \<Rightarrow> bool" where
  "same_reads x x' \<longleftrightarrow> rpc_handler_info x' = rpc_handler_info x \<and> handler x' = handler x \<and>
     request x' = request x \<and> pend READ x' = pend READ x \<and>
     cqe_ok (read_event x') = cqe_ok (read_event x)"

definition keeps :: "addr \<Rightarrow> ('m, 'h, 'c) world \<Rightarrow> ('m, 'h, 'c) world \<Rightarrow> bool" where
  "keeps r w w' \<longleftrightarrow> only r w w' \<and>
     (\<forall>x'. heap w' r = Some x' \<longrightarrow> (\<exists>x. heap w r = Some x \<and> same_reads x x')) \<and>
     (READ \<in> set (unannounced w' r) \<longleftrightarrow> READ \<in> set (unannounced w r))"

lemma same_reads_refl [simp]: "same_reads x x"
  by (simp add: same_reads_def)

lemma same_reads_trans: "same_reads x y \<Longrightarrow> same_reads y z \<Longrightarrow> same_reads x z"
  by (simp add: same_reads_def)

lemma only_refl: "only r w w"
  by (simp add: only_def)

lemma only_trans: "only r w u \<Longrightarrow> only r u v \<Longrightarrow> only r w v"
  by (simp add: only_def)

lemma keeps_refl: "keeps r w w"
  by (simp add: keeps_def only_refl)

lemma keeps_trans: "keeps r w u \<Longrightarrow> keeps r u v \<Longrightarrow> keeps r w v"
  unfolding keeps_def using only_trans same_reads_trans by blast

lemma set_pend_read_event: "cqe_ok (read_event (set_pend ev b x)) = cqe_ok (read_event x)"
  by (cases ev) (simp_all add: set_pend.simps)

lemma same_reads_set_pend: "ev \<noteq> READ \<Longrightarrow> same_reads x (set_pend ev b x)"
  by (simp add: same_reads_def pend_set_pend set_pend_read_event)

lemma same_reads_send_queue [simp]: "same_reads x (x\<lparr>send_queue := its\<rparr>)"
  by (simp add: same_reads_def)

lemma keeps_remove: "keeps r w (w\<lparr>services := S, heap := (if b then (heap w)(r := None) else heap w)\<rparr>)"
  by (auto simp: keeps_def only_def unannounced_def)

lemma remove_rpc_keeps: "remove_rpc s r w = Inr w' \<Longrightarrow> keeps r w w'"
  using keeps_remove by (auto simp: remove_rpc_def set_active_def split: prod.splits)

lemma RemoveIfNotPending_keeps: "RemoveIfNotPending s r w = Inr w' \<Longrightarrow> keeps r w w'"
  by (auto simp: RemoveIfNotPending_def with_rpc_def bind_r_Inr_iff keeps_refl
      dest: remove_rpc_keeps split: if_splits)

lemma HandleSendQueue_keeps:
  assumes "HandleSendQueue r w = Inr w'"
  shows "keeps r w w'"
  using HandleSendQueue_Inr [OF assms]
proof (elim disjE exE conjE)
  fix x item rest
  assume x: "heap w r = Some x"
    and w': "w' = issue r (send_event x item) (send_call x item) (sent_rpc x item rest) w"
  have "send_event x item \<noteq> READ" by (simp add: send_event_def)
  moreover from this have "same_reads x (set_pend (send_event x item) True (sent_rpc x item rest))"
    by (auto simp: same_reads_def sent_rpc_def pend_set_pend set_pend_read_event)
  ultimately show ?thesis
    unfolding w' using x by (auto simp: keeps_def only_def)
qed (simp add: keeps_refl)

lemma keeps_popq: "keeps r w (popq q ts w)"
  by (auto simp: keeps_def only_def)

lemma keeps_clear: "heap w r = Some x \<Longrightarrow> ev \<noteq> READ \<Longrightarrow> keeps r w (put_rpc r (set_pend ev b x) w)"
  by (auto simp: keeps_def only_def same_reads_set_pend)

lemma keeps_enq: "keeps r w (enq r its w)"
  by (cases "heap w r") (auto simp: enq_def keeps_def only_def)

lemma keeps_holders: "keeps r w (w\<lparr>holders := hs\<rparr>)"
  by (auto simp: keeps_def only_def unannounced_def)

lemma keeps_services: "keeps r w (w\<lparr>services := S\<rparr>)"
  by (auto simp: keeps_def only_def unannounced_def)

lemma keeps_release: "keeps r w (release r w)"
  by (auto simp: release_def Let_def keeps_def only_def unannounced_def)

lemma handled_fields:
  assumes "heap w r = Some x"
  shows "unannounced (handled r h c its w) r' = unannounced w r'" "started (handled r h c its w) = started w"
    "next_addr (handled r h c its w) = next_addr w" "exec_context (handled r h c its w) = c"
    "num_event_threads (handled r h c its w) = num_event_threads w"
  using assms by (simp_all add: handled_def enq_def unannounced_def)

lemma only_handled: "heap w r = Some x \<Longrightarrow> only r w (handled r h c its w)"
  by (simp add: only_def handled_fields heap_handled)

lemma only_put: "only r w (put_rpc r x w)"
  by (simp add: only_def)

lemma only_issue: "only r w (issue r ev call x w)"
  by (simp add: only_def)

text \<open>An event that waits in a queue is not with gRPC.\<close>

lemma queued_once:
  assumes inv: "server_inv w" and q: "deque (event_queues w q) = (CqEvent r ev, a) # ts"
    and x: "heap w r = Some x"
  shows "ev \<notin> set (unannounced w r)"
proof -
  have ok: "rpc_ok False False r x (queued w r) (unannounced w r) (r \<in> set (started w))"
    using inv_rpc [of "{}" "{}" w r x] inv x by (simp add: server_inv_def)
  have "ev \<in> set (queued w r q)" using q by (simp add: queued_def)
  moreover from this ok have "event_queue x = q" by (intro rpc_ok_queue) auto
  ultimately have "count_list (queued w r (event_queue x)) ev \<noteq> 0" by (simp add: count_list_0_iff)
  moreover have "count_list (unannounced w r) ev + count_list (queued w r (event_queue x)) ev \<le> 1"
    using ok by (simp add: rpc_ok_def)
  ultimately show ?thesis by (simp add: count_list_0_iff [symmetric] del: count_list_0_iff)
qed

end
