(* ===== verification/Shutdown_Progress.thy ===== *)
theory Shutdown_Progress
  imports Server_Shutdown Rpc_Effects
begin

text \<open>
  A shutdown comes to its end: once the services are stopped and gRPC cancels what it still has,
  the threads cannot handle events for ever, and when they cannot go on every RPC is gone.
\<close>

section \<open>Cancelled calls\<close>






section \<open>What is left to do\<close>















section \<open>The functions of the server\<close>










section \<open>Every step makes progress\<close>








section \<open>Termination\<close>












section \<open>From the stop of the services to the end of \<open>Shutdown\<close>\<close>





section \<open>Properties\<close>




end
