(* ===== verification/Handler_Protocol.thy ===== *)
theory Handler_Protocol
  imports Rpc_Effects Math_Runs
begin

text \<open>
  Which calls a handler gets. A handler that records the calls made on it is a handler like any other, so
  what its record can be in a reachable state is what the server promises to every handler.
\<close>

section \<open>Handlers that record their calls\<close>

datatype 'm callback = Call_OnRequest 'm | Call_OnReadsDone | Call_OnFinish

definition then_record ::
  "'m callback list \<Rightarrow> 'h \<times> 'c \<times> 'm handler_action list \<Rightarrow>
   ('h \<times> 'm callback list) \<times> 'c \<times> 'm handler_action list" where
  "then_record cbs result = (case result of (h, c, acts) \<Rightarrow> ((h, cbs), c, acts))"

definition recording ::
  "('m, 'h, 'c) HandlerClass \<Rightarrow> ('m, 'h \<times> 'm callback list, 'c) HandlerClass" where
  "recording impl =
     \<lparr>hc_Initialize = (\<lambda>c. then_record [] (hc_Initialize impl c)),
      hc_OnRequest = (\<lambda>(h, cbs) c m. then_record (cbs @ [Call_OnRequest m]) (hc_OnRequest impl h c m)),
      hc_OnReadsDone = (\<lambda>(h, cbs) c. then_record (cbs @ [Call_OnReadsDone]) (hc_OnReadsDone impl h c)),
      hc_OnFinish = (\<lambda>(h, cbs) c. then_record (cbs @ [Call_OnFinish]) (hc_OnFinish impl h c))\<rparr>"

definition records :: "('m, 'h \<times> 'm callback list, 'c) RpcHandlerInfo \<Rightarrow> bool" where
  "records info \<longleftrightarrow> (\<exists>impl. handler_class info = recording impl)"

text \<open>
  The calls that concern requests: the requests in order, and the end of the requests unless a read is
  still pending.
\<close>

definition request_calls :: "'m callback list \<Rightarrow> 'm callback list" where
  "request_calls cbs = filter (\<lambda>cb. cb \<noteq> Call_OnFinish) cbs"

definition expected_calls :: "'m list \<Rightarrow> bool \<Rightarrow> 'm callback list" where
  "expected_calls ms reading = map Call_OnRequest ms @ (if reading then [] else [Call_OnReadsDone])"

text \<open>The requests gRPC hands over to RPC \<open>r\<close> in a run.\<close>

fun delivered :: "addr \<Rightarrow> 'm label \<Rightarrow> ('m, 'h, 'c) world \<Rightarrow> 'm list" where
  "delivered r (Announce r' event ok m) w =
     (case heap w r of
        None \<Rightarrow> []
      | Some x \<Rightarrow> if r' = r \<and> ok \<and> receives_request x event then [m] else [])"
| "delivered r _ w = []"

fun delivered_run :: "addr \<Rightarrow> 'm label list \<Rightarrow> ('m, 'h, 'c) world \<Rightarrow> 'm list" where
  "delivered_run r [] w = []"
| "delivered_run r (l # ls) w =
     delivered r l w @ (case exec l w of Inl _ \<Rightarrow> [] | Inr w' \<Rightarrow> delivered_run r ls w')"

section \<open>The invariant\<close>

text \<open>A request that has arrived and waits in an event queue to be handled.\<close>

definition request_arrived :: "('m, 'h, 'c) world \<Rightarrow> addr \<Rightarrow> ('m, 'h, 'c) Rpc \<Rightarrow> bool" where
  "request_arrived w r x \<longleftrightarrow> pend READ x \<and> READ \<notin> set (unannounced w r) \<and> cqe_ok (read_event x)"

definition rec_ok ::
  "('m, 'h \<times> 'm callback list, 'c) world \<Rightarrow> addr \<Rightarrow> ('m, 'h \<times> 'm callback list, 'c) Rpc \<Rightarrow> 'm list \<Rightarrow> bool" where
  "rec_ok w r x ds \<longleftrightarrow> records (rpc_handler_info x) \<and>
     (case handler x of
        None \<Rightarrow> ds = (if r \<in> set (started w) \<and> \<not> reads_stream x then [request x] else [])
      | Some (h, cbs) \<Rightarrow> (\<exists>ms. request_calls cbs = expected_calls ms (pend READ x) \<and>
          (\<not> reads_stream x \<longrightarrow> length ms = 1) \<and>
          ds = ms @ (if request_arrived w r x then [request x] else [])))"

definition rec_inv ::
  "('m, 'h \<times> 'm callback list, 'c) world \<Rightarrow> (addr \<Rightarrow> 'm list) \<Rightarrow> bool" where
  "rec_inv w D \<longleftrightarrow> (\<forall>r x. heap w r = Some x \<longrightarrow> rec_ok w r x (D r)) \<and> (\<forall>r. next_addr w \<le> r \<longrightarrow> D r = [])"

lemma rec_ok_None:
  "handler x = None \<Longrightarrow> rec_ok w r x ds \<longleftrightarrow> records (rpc_handler_info x) \<and>
     ds = (if r \<in> set (started w) \<and> \<not> reads_stream x then [request x] else [])"
  by (simp add: rec_ok_def)

lemma rec_ok_Some:
  "handler x = Some (h, cbs) \<Longrightarrow> rec_ok w r x ds \<longleftrightarrow> records (rpc_handler_info x) \<and>
     (\<exists>ms. request_calls cbs = expected_calls ms (pend READ x) \<and> (\<not> reads_stream x \<longrightarrow> length ms = 1) \<and>
        ds = ms @ (if request_arrived w r x then [request x] else []))"
  by (simp add: rec_ok_def)

lemma rec_ok_SomeI:
  "handler x = Some (h, cbs) \<Longrightarrow> records (rpc_handler_info x) \<Longrightarrow>
   request_calls cbs = expected_calls ms (pend READ x) \<Longrightarrow> reads_stream x \<or> length ms = 1 \<Longrightarrow>
   ds = ms @ (if request_arrived w r x then [request x] else []) \<Longrightarrow> rec_ok w r x ds"
  by (auto simp: rec_ok_Some)

lemma rec_ok_same:
  assumes "rec_ok w r x ds" and "same_reads x x'" and "r \<in> set (started w') \<longleftrightarrow> r \<in> set (started w)"
    and "READ \<in> set (unannounced w' r) \<longleftrightarrow> READ \<in> set (unannounced w r)"
  shows "rec_ok w' r x' ds"
proof -
  have eq: "reads_stream x' = reads_stream x" "request_arrived w' r x' = request_arrived w r x"
    "rpc_handler_info x' = rpc_handler_info x" "handler x' = handler x" "request x' = request x"
    "pend READ x' = pend READ x"
    using assms(2,4) by (simp_all add: same_reads_def request_arrived_def reads_stream_def)
  show ?thesis using assms(1) unfolding rec_ok_def eq assms(3) .
qed

lemma rec_inv_only:
  assumes inv: "rec_inv w D" and only: "only r w w'" and same: "\<And>r'. r' \<noteq> r \<Longrightarrow> D' r' = D r'"
    and r: "\<And>x'. heap w' r = Some x' \<Longrightarrow> rec_ok w' r x' (D' r)" and new: "next_addr w \<le> r \<Longrightarrow> D' r = []"
  shows "rec_inv w' D'"
  unfolding rec_inv_def
proof (intro conjI allI impI)
  fix r' x'
  assume x': "heap w' r' = Some x'"
  show "rec_ok w' r' x' (D' r')"
  proof (cases "r' = r")
    case False
    with only x' have "heap w r' = Some x'" "unannounced w' r' = unannounced w r'" "started w' = started w"
      by (simp_all add: only_def)
    with inv same [OF False] show ?thesis
      by - (rule rec_ok_same [of w r' x'], simp_all add: rec_inv_def)
  qed (use r x' in simp)
next
  fix r'
  assume "next_addr w' \<le> r'"
  with inv only new same show "D' r' = []" by (cases "r' = r") (auto simp: rec_inv_def only_def)
qed

lemma rec_inv_keeps:
  assumes inv: "rec_inv w D" and k: "keeps r w w'"
  shows "rec_inv w' D"
proof (rule rec_inv_only [OF inv])
  show "only r w w'" using k by (simp add: keeps_def)
  then have st: "started w' = started w" by (simp add: only_def)
  fix x' assume "heap w' r = Some x'"
  with k obtain x where "heap w r = Some x" "same_reads x x'" by (auto simp: keeps_def)
  with inv k st show "rec_ok w' r x' (D r)"
    by - (rule rec_ok_same [of w r x], simp_all add: rec_inv_def keeps_def)
qed (use inv in \<open>simp_all add: rec_inv_def\<close>)

section \<open>The calls\<close>

lemma recording_call:
  assumes s: "sendable r w" and x: "heap w r = Some x" and h: "handler x = Some (h, cbs)"
    and rec: "records (rpc_handler_info x)"
  shows "\<exists>h' c its. OnRequest r w = Inr (handled r (h', cbs @ [Call_OnRequest (request x)]) c its w)"
    and "\<exists>h' c its. OnReadsDone r w = Inr (handled r (h', cbs @ [Call_OnReadsDone]) c its w)"
    and "\<exists>h' c its. OnFinish r w = Inr (handled r (h', cbs @ [Call_OnFinish]) c its w)"
proof -
  from rec obtain impl where impl: "handler_class (rpc_handler_info x) = recording impl"
    by (auto simp: records_def)
  have call: "\<exists>h' c its. call_handler r f w = Inr (handled r (h', cbs') c its w)"
    if f: "f x (h, cbs) (exec_context w) = then_record cbs' res" for f cbs' res
  proof -
    obtain h' c acts where "res = (h', c, acts)" by (cases res)
    with f have "f x (h, cbs) (exec_context w) = ((h', cbs'), c, acts)" by (simp add: then_record_def)
    from call_handler_eq [where f = f, OF s x h this] show ?thesis by blast
  qed
  show "\<exists>h' c its. OnRequest r w = Inr (handled r (h', cbs @ [Call_OnRequest (request x)]) c its w)"
    unfolding OnRequest_def by (rule call) (simp add: impl recording_def)
  show "\<exists>h' c its. OnReadsDone r w = Inr (handled r (h', cbs @ [Call_OnReadsDone]) c its w)"
    unfolding OnReadsDone_def by (rule call) (simp add: impl recording_def)
  show "\<exists>h' c its. OnFinish r w = Inr (handled r (h', cbs @ [Call_OnFinish]) c its w)"
    unfolding OnFinish_def by (rule call) (simp add: impl recording_def)
qed

lemma recording_first:
  assumes s: "sendable r w" and x: "heap w r = Some x" and h: "handler x = None"
    and rec: "records (rpc_handler_info x)"
  shows "\<exists>h c its. OnConnection r w = RequestStreamingReadIfNeeded r (handled r (h, []) c its w)"
proof -
  from rec obtain impl where impl: "handler_class (rpc_handler_info x) = recording impl"
    by (auto simp: records_def)
  obtain h' c' acts where "hc_Initialize impl (exec_context w) = (h', c', acts)" by (metis prod_cases3)
  then have ini: "hc_Initialize (handler_class (rpc_handler_info x)) (exec_context w) = ((h', []), c', acts)"
    by (simp add: impl recording_def then_record_def)
  from first_call_eq [OF s x h this] show ?thesis by blast
qed

text \<open>A call of the handler, and then what does not concern its reads.\<close>

lemma rec_inv_call:
  assumes inv: "rec_inv w D" and x1: "heap w1 r = Some x1" and only: "only r w w1"
    and ok: "rec_ok (handled r h c its w1) r (x1\<lparr>handler := Some h, send_queue := send_queue x1 @ its\<rparr>) (D r)"
    and k: "keeps r (handled r h c its w1) w'"
  shows "rec_inv w' D"
proof (rule rec_inv_keeps [OF _ k], rule rec_inv_only [OF inv])
  show "only r w (handled r h c its w1)" using only only_handled [OF x1] by (rule only_trans)
  show "rec_ok (handled r h c its w1) r x' (D r)" if "heap (handled r h c its w1) r = Some x'" for x'
    using that ok by (simp add: heap_handled [OF x1])
qed (use inv in \<open>simp_all add: rec_inv_def\<close>)

section \<open>Handling an event\<close>

lemma only_popped: "only r w (put_rpc r x (popq q ts w))"
  using keeps_popq [of r w q ts] by (auto simp: keeps_def intro: only_trans only_put)

lemma keeps_popped:
  assumes "heap w r = Some x" and "ev \<noteq> READ"
  shows "keeps r w (put_rpc r (set_pend ev False x) (popq q ts w))"
  using keeps_trans [OF keeps_popq keeps_clear [OF _ assms(2)]] assms(1) by simp

lemma request_calls_append: "request_calls (cbs @ [cb]) = request_calls cbs @ (if cb = Call_OnFinish then [] else [cb])"
  by (simp add: request_calls_def)

lemma expected_calls_more:
  "expected_calls (ms @ [m]) True = expected_calls ms True @ [Call_OnRequest m]"
  "expected_calls ms False = expected_calls ms True @ [Call_OnReadsDone]"
  by (simp_all add: expected_calls_def)

text \<open>After a call of the handler the next request is asked for.\<close>

lemma rec_inv_read_on:
  assumes rec: "rec_inv w0 D" and only: "only r w0 w" and x: "heap w r = Some x"
    and wb: "well_built r x" and rs: "reads_stream x" and r: "records (rpc_handler_info x)"
    and ms: "request_calls cbs = expected_calls (D r) True"
    and w': "RequestStreamingReadIfNeeded r (handled r (h, cbs) c its w) = Inr w'"
  shows "rec_inv w' D"
proof -
  let ?w = "handled r (h, cbs) c its w"
  let ?x = "x\<lparr>handler := Some (h, cbs), send_queue := send_queue x @ its\<rparr>"
  have x1: "heap ?w r = Some ?x" by (simp add: heap_handled [OF x])
  have "well_built r ?x" "reads_stream ?x" using wb rs by (simp_all add: reads_stream_def)
  from RequestStreamingRead_stream [OF x1 this] w'
  have eq: "w' = issue r READ (ReadCall (read_object ?x)) ?x ?w" by simp
  show ?thesis
  proof (rule rec_inv_only [OF rec])
    show "only r w0 w'"
      unfolding eq using only only_handled [OF x] only_issue by (blast intro: only_trans)
    have "rec_ok w' r (set_pend READ True ?x) (D r)"
      by (rule rec_ok_SomeI [where h = h and cbs = cbs and ms = "D r"])
        (use ms rs r in \<open>simp_all add: eq pend_set_pend reads_stream_def request_arrived_def\<close>)
    then show "rec_ok w' r x' (D r)" if "heap w' r = Some x'" for x' using that by (simp add: eq)
  qed (use rec in \<open>simp_all add: rec_inv_def\<close>)
qed

lemma HandleRead_rec:
  assumes inv: "server_inv w" and rec: "rec_inv w D"
    and q: "deque (event_queues w q) = (CqEvent r READ, a) # ts" and x: "heap w r = Some x"
    and w': "HandleRead s r (cqe_ok (read_event x)) (put_rpc r (set_pend READ False x) (popq q ts w)) = Inr w'"
  shows "rec_inv w' D"
proof -
  let ?x = "set_pend READ False x"
  let ?w = "put_rpc r ?x (popq q ts w)"
  from inv_pop_completion [OF inv q] x have p: "pend READ x" and hd: "handler x \<noteq> None"
    and i: "inv_except {} {r} ?w" by auto
  from hd obtain h cbs where h: "handler x = Some (h, cbs)" by auto
  have x1: "heap ?w r = Some ?x" by simp
  note s = inv_sendable [OF i x1]
  have ok: "rpc_ok False False r x (queued w r) (unannounced w r) (r \<in> set (started w))"
    using inv_rpc [of "{}" "{}" w r x] inv x by (simp add: server_inv_def)
  then have wb: "well_built r x" and rs: "reads_stream x" using p by (simp_all add: rpc_ok_def)
  from rec x have rx: "rec_ok w r x (D r)" by (simp add: rec_inv_def)
  then have r: "records (rpc_handler_info ?x)" by (simp add: rec_ok_def)
  from rx h p queued_once [OF inv q x] obtain ms where ms: "request_calls cbs = expected_calls ms True"
    "D r = ms @ (if cqe_ok (read_event x) then [request x] else [])"
    by (auto simp: rec_ok_Some request_arrived_def)
  have h1: "handler ?x = Some (h, cbs)" using h by simp
  show ?thesis
  proof (cases "cqe_ok (read_event x)")
    case True
    from recording_call(1) [OF s x1 h1 r] obtain h' c its
      where 1: "OnRequest r ?w = Inr (handled r (h', cbs @ [Call_OnRequest (request x)]) c its ?w)" by auto
    with w' True
    have on: "RequestStreamingReadIfNeeded r (handled r (h', cbs @ [Call_OnRequest (request x)]) c its ?w) = Inr w'"
      by (simp add: HandleRead_def)
    show ?thesis
      by (rule rec_inv_read_on [OF rec only_popped x1 _ _ _ _ on])
        (use wb rs r ms True in \<open>simp_all add: reads_stream_def request_calls_append expected_calls_more\<close>)
  next
    case False
    from recording_call(2) [OF s x1 h1 r] obtain h' c its
      where 1: "OnReadsDone r ?w = Inr (handled r (h', cbs @ [Call_OnReadsDone]) c its ?w)" by auto
    with w' False have "keeps r (handled r (h', cbs @ [Call_OnReadsDone]) c its ?w) w'"
      by (intro RemoveIfNotPending_keeps) (simp add: HandleRead_def)
    then show ?thesis
    proof (rule rec_inv_call [OF rec x1 only_popped, rotated])
      show "rec_ok (handled r (h', cbs @ [Call_OnReadsDone]) c its ?w) r
          (?x\<lparr>handler := Some (h', cbs @ [Call_OnReadsDone]), send_queue := send_queue ?x @ its\<rparr>) (D r)"
        using ms False rs r
        by (auto simp: rec_ok_Some request_calls_append expected_calls_more pend_set_pend reads_stream_def
            request_arrived_def)
    qed
  qed
qed

lemma HandleFinish_rec:
  assumes inv: "server_inv w" and rec: "rec_inv w D"
    and q: "deque (event_queues w q) = (CqEvent r FINISH, a) # ts" and x: "heap w r = Some x"
    and w': "HandleFinish s r ok (put_rpc r (set_pend FINISH False x) (popq q ts w)) = Inr w'"
  shows "rec_inv w' D"
proof -
  let ?x = "set_pend FINISH False x"
  let ?w = "put_rpc r ?x (popq q ts w)"
  from inv_pop_completion [OF inv q] x have hd: "handler x \<noteq> None" and i: "inv_except {} {r} ?w" by auto
  from hd obtain h cbs where h: "handler ?x = Some (h, cbs)" by auto
  have x1: "heap ?w r = Some ?x" by simp
  have rec1: "rec_inv ?w D" by (rule rec_inv_keeps [OF rec keeps_popped [OF x]]) simp
  then have rx: "rec_ok ?w r ?x (D r)" by (simp add: rec_inv_def)
  then have r: "records (rpc_handler_info ?x)" by (simp add: rec_ok_def)
  from rx h obtain ms where ms: "request_calls cbs = expected_calls ms (pend READ ?x)"
    "reads_stream ?x \<or> length ms = 1" "D r = ms @ (if request_arrived ?w r ?x then [request ?x] else [])"
    by (auto simp: rec_ok_Some)
  from recording_call(3) [OF inv_sendable [OF i x1] x1 h r] obtain h' c its
    where 1: "OnFinish r ?w = Inr (handled r (h', cbs @ [Call_OnFinish]) c its ?w)" by auto
  with w' have "keeps r (handled r (h', cbs @ [Call_OnFinish]) c its ?w) w'"
    by (intro RemoveIfNotPending_keeps) (simp add: HandleFinish_def)
  then show ?thesis
  proof (rule rec_inv_call [OF rec1 x1 only_refl, rotated])
    show "rec_ok (handled r (h', cbs @ [Call_OnFinish]) c its ?w) r
        (?x\<lparr>handler := Some (h', cbs @ [Call_OnFinish]), send_queue := send_queue ?x @ its\<rparr>) (D r)"
      by (rule rec_ok_SomeI [where h = h' and cbs = "cbs @ [Call_OnFinish]" and ms = ms])
        (use r ms in \<open>simp_all add: request_calls_append request_arrived_def handled_fields [OF x1]
          reads_stream_def pend_set_pend set_pend_read_event\<close>)
  qed
qed

text \<open>The RPC for the next connection has no handler yet.\<close>

lemma accept_effect:
  assumes x: "heap w r = Some x" and w': "bind_r (get_rpc r w) (\<lambda>x.
      bind_r (SelectNextEventQueueRoundRobin w) (\<lambda>(q, w).
      bind_r (add_rpc s (\<lambda>r'. SetEventQueue q (Clone r' x)) w) (\<lambda>(r', w).
      RequestNextMethodInvocation r' w))) = Inr w'"
  shows "\<exists>y. heap w' = (heap w)(next_addr w \<mapsto> y) \<and> handler y = None \<and>
    rpc_handler_info y = rpc_handler_info x \<and> next_addr w' = Suc (next_addr w) \<and> started w' = started w \<and>
    (\<forall>r'. r' \<noteq> next_addr w \<longrightarrow> unannounced w' r' = unannounced w r')"
proof -
  from w' x obtain q w1 r' w2 where sel: "SelectNextEventQueueRoundRobin w = Inr (q, w1)"
    and add: "add_rpc s (\<lambda>r'. SetEventQueue q (Clone r' x)) w1 = Inr (r', w2)"
    and req: "RequestNextMethodInvocation r' w2 = Inr w'"
    by (auto simp: bind_r_Inr_iff get_rpc_def)
  from sel have w1: "\<exists>i. w1 = w\<lparr>current_event_queue_id := i\<rparr>"
    by (auto simp: SelectNextEventQueueRoundRobin_def Let_def split: if_splits)
  let ?y = "SetEventQueue q (Clone (next_addr w) x)"
  from add w1 have r': "r' = next_addr w" and h2: "heap w2 = (heap w)(next_addr w \<mapsto> ?y)"
    "next_addr w2 = Suc (next_addr w)" "started w2 = started w" "outstanding w2 = outstanding w"
    by (auto simp: add_rpc_def Let_def bind_r_Inr_iff set_active_def)
  then have "heap w2 r' = Some ?y" by simp
  from RequestNextMethodInvocation_eq [OF this] req
  have eq: "w' = issue r' NEW_CONNECTION (request_call ?y) (set_pend DONE True ?y)
      (issue r' DONE AsyncNotifyWhenDone ?y w2)" by simp
  have "rpc_handler_info ?y = rpc_handler_info x" by (simp add: SetEventQueue_def Clone_def)
  then show ?thesis
    using h2 r' by (intro exI [of _ "set_pend NEW_CONNECTION True (set_pend DONE True ?y)"])
      (auto simp: eq Clone_fresh unannounced_cong [OF h2(4)])
qed

lemma rec_inv_accept:
  assumes inv: "server_inv w" and rec: "rec_inv w D" and x: "heap w r = Some x"
    and w': "bind_r (get_rpc r w) (\<lambda>x.
      bind_r (SelectNextEventQueueRoundRobin w) (\<lambda>(q, w).
      bind_r (add_rpc s (\<lambda>r'. SetEventQueue q (Clone r' x)) w) (\<lambda>(r', w).
      RequestNextMethodInvocation r' w))) = Inr w'"
  shows "rec_inv w' D"
proof -
  from accept_effect [OF x w'] obtain y where y: "heap w' = (heap w)(next_addr w \<mapsto> y)" "handler y = None"
    "rpc_handler_info y = rpc_handler_info x" "next_addr w' = Suc (next_addr w)" "started w' = started w"
    "\<And>r'. r' \<noteq> next_addr w \<Longrightarrow> unannounced w' r' = unannounced w r'" by blast
  have fresh: "next_addr w \<notin> set (started w)"
    using inv by (simp add: server_inv_def inv_except_def shared_ok_def)
  have "records (rpc_handler_info y)" using rec x y(3) by (auto simp: rec_inv_def rec_ok_def)
  then have new: "rec_ok w' (next_addr w) y (D (next_addr w))"
    using rec fresh y by (simp add: rec_ok_None rec_inv_def)
  show ?thesis
    unfolding rec_inv_def
  proof (intro conjI allI impI)
    fix r' x' assume x': "heap w' r' = Some x'"
    show "rec_ok w' r' x' (D r')"
    proof (cases "r' = next_addr w")
      case False
      with x' y(1) rec have "rec_ok w r' x' (D r')" by (simp add: rec_inv_def)
      then show ?thesis by (rule rec_ok_same) (use False y(5,6) in simp_all)
    qed (use new x' y(1) in simp)
  qed (use rec y(4) in \<open>simp add: rec_inv_def\<close>)
qed

text \<open>A method with a single request gets it, and the end of the requests, at once.\<close>

lemma rec_inv_single:
  assumes rec: "rec_inv w0 D" and only: "only r w0 w" and x: "heap w r = Some x" and s: "sendable r w"
    and h: "handler x = Some (h, [])" and nr: "\<not> pend READ x" and r: "records (rpc_handler_info x)"
    and D: "D r = [request x]" and w': "block [OnRequest r, OnReadsDone r] w = Inr w'"
  shows "rec_inv w' D"
proof -
  let ?cbs = "[Call_OnRequest (request x)]"
  from recording_call(1) [OF s x h r] obtain h1 c1 is1 where
    1: "OnRequest r w = Inr (handled r (h1, ?cbs) c1 is1 w)" by auto
  let ?w1 = "handled r (h1, ?cbs) c1 is1 w"
  let ?x1 = "x\<lparr>handler := Some (h1, ?cbs), send_queue := send_queue x @ is1\<rparr>"
  have x1: "heap ?w1 r = Some ?x1" by (simp add: heap_handled [OF x])
  from recording_call(2) [OF sendable_handled [OF s] x1, of h1 ?cbs] r obtain h2 c2 is2 where
    "OnReadsDone r ?w1 = Inr (handled r (h2, ?cbs @ [Call_OnReadsDone]) c2 is2 ?w1)" by auto
  with w' 1 have eq: "w' = handled r (h2, ?cbs @ [Call_OnReadsDone]) c2 is2 ?w1" by simp
  show ?thesis
  proof (rule rec_inv_call [OF rec x1])
    show "only r w0 ?w1" by (rule only_trans [OF only only_handled [OF x]])
    show "keeps r (handled r (h2, ?cbs @ [Call_OnReadsDone]) c2 is2 ?w1) w'" unfolding eq by (rule keeps_refl)
    show "rec_ok (handled r (h2, ?cbs @ [Call_OnReadsDone]) c2 is2 ?w1) r
        (?x1\<lparr>handler := Some (h2, ?cbs @ [Call_OnReadsDone]), send_queue := send_queue ?x1 @ is2\<rparr>) (D r)"
      by (rule rec_ok_SomeI [where h = h2 and cbs = "?cbs @ [Call_OnReadsDone]" and ms = "[request x]"])
        (use D r nr in \<open>simp_all add: request_calls_def expected_calls_def request_arrived_def\<close>)
  qed
qed

lemma OnConnection_rec:
  assumes inv: "inv_except {r} {r} w" and rec: "rec_inv w D" and x: "heap w r = Some x"
    and h: "handler x = None" and n: "\<not> pend NEW_CONNECTION x" and nr: "\<not> pend READ x"
    and st: "r \<in> set (started w)" and w': "OnConnection r w = Inr w'"
  shows "rec_inv w' D"
proof -
  note s = inv_sendable [OF inv x]
  from inv_rpc [OF inv x] have wb: "well_built r x" by (simp add: rpc_ok_def)
  from rec x have rx: "rec_ok w r x (D r)" by (simp add: rec_inv_def)
  then have r: "records (rpc_handler_info x)" by (simp add: rec_ok_def)
  from rx h st have D: "D r = (if reads_stream x then [] else [request x])" by (simp add: rec_ok_None)
  from recording_first [OF s x h r] w' obtain h1 c1 is1
    where 1: "RequestStreamingReadIfNeeded r (handled r (h1, []) c1 is1 w) = Inr w'" by auto
  show ?thesis
  proof (cases "reads_stream x")
    case True
    with D have "request_calls [] = expected_calls (D r) True" by (simp add: request_calls_def expected_calls_def)
    from rec_inv_read_on [OF rec only_refl x wb True r this 1] show ?thesis .
  next
    case False
    let ?x1 = "x\<lparr>handler := Some (h1, []), send_queue := send_queue x @ is1\<rparr>"
    have x1: "heap (handled r (h1, []) c1 is1 w) r = Some ?x1" by (simp add: heap_handled [OF x])
    have "\<not> reads_stream ?x1" using False by (simp add: reads_stream_def)
    from RequestStreamingRead_single [OF x1 this] 1
    have blk: "block [OnRequest r, OnReadsDone r] (handled r (h1, []) c1 is1 w) = Inr w'" by simp
    show ?thesis
      by (rule rec_inv_single [OF rec only_handled [OF x] x1 sendable_handled [OF s] _ _ _ _ blk, of h1])
        (use D False r nr in simp_all)
  qed
qed

lemma HandleNewConnection_rec:
  assumes inv: "inv_except {r} {r} w" and rec: "rec_inv w D" and x: "heap w r = Some x"
    and h: "handler x = None" and n: "\<not> pend NEW_CONNECTION x" and d: "pend DONE x" and nr: "\<not> pend READ x"
    and st: "ok \<longrightarrow> r \<in> set (started w)" and ord: "ok \<longleftrightarrow> \<not> shutting_down (services w s)"
    and w': "HandleNewConnection s r ok w = Inr w'"
  shows "rec_inv w' D"
proof (cases ok)
  case False
  with ord w' have "remove_rpc s r w = Inr w'" by (simp add: HandleNewConnection_def)
  then show ?thesis by (intro rec_inv_keeps [OF rec remove_rpc_keeps])
next
  case True
  with ord w' have b: "bind_r (OnConnection r w) (\<lambda>w. bind_r (get_rpc r w) (\<lambda>x.
      bind_r (SelectNextEventQueueRoundRobin w) (\<lambda>(q, w).
      bind_r (add_rpc s (\<lambda>r'. SetEventQueue q (Clone r' x)) w) (\<lambda>(r', w).
      RequestNextMethodInvocation r' w)))) = Inr w'" by (simp add: HandleNewConnection_def block_single)
  then obtain w1 where con: "OnConnection r w = Inr w1" by (cases "OnConnection r w") simp_all
  from st True have st': "r \<in> set (started w)" by simp
  from OnConnection_inv [OF inv x n h d nr st'] con obtain x1 where
    1: "server_inv w1" "heap w1 r = Some x1" by auto
  from rec_inv_accept [OF 1(1) OnConnection_rec [OF inv rec x h n nr st' con] 1(2)] b con show ?thesis by simp
qed

lemma completion_rec:
  assumes inv: "server_inv w" and rec: "rec_inv w D" and ord: "orderly (Dispatch q) w"
    and q: "deque (event_queues w q) = (CqEvent r ev, a) # ts"
    and w': "CompletionQueueRpcEvent_Handle r ev (popq q ts w) = Inr w'"
  shows "rec_inv w' D"
proof -
  from inv_pop_completion [OF inv q] obtain x where x: "heap w r = Some x" "pend ev x"
    and new: "ev = NEW_CONNECTION \<longrightarrow> handler x = None \<and> pend DONE x \<and> \<not> pend READ x"
    and i: "inv_except (if ev = NEW_CONNECTION then {r} else {}) {r}
      (put_rpc r (set_pend ev False x) (popq q ts w))"
    and st: "ev = NEW_CONNECTION \<and> cqe_ok (new_connection_event x) \<longrightarrow> r \<in> set (started w)"
    by blast
  let ?w = "put_rpc r (set_pend ev False x) (popq q ts w)"
  have x1: "heap ?w r = Some (set_pend ev False x)" by simp
  have wb: "well_built r x"
    using inv_rpc [of "{}" "{}" w r x] inv x by (simp add: server_inv_def rpc_ok_def)
  have ev: "ev \<noteq> WRITE_NEEDED" using x(2) by (auto simp: pend.simps)
  then obtain e where e: "GetRpcEvent ev x = Inr e" by (cases ev) auto
  have "heap (popq q ts w) r = Some x" using x by simp
  from CompletionQueueRpcEvent_Handle_eq [OF this wb e] w'
  have h: "HandleEvent (service x) ev r (cqe_ok e) ?w = Inr w'" by simp
  have keep: "rec_inv w' D" if "ev \<noteq> READ" "keeps r ?w w'"
    using keeps_trans [OF keeps_popped [OF x(1) that(1)] that(2)] by (rule rec_inv_keeps [OF rec])
  show ?thesis
  proof (cases ev)
    case NEW_CONNECTION
    have rec1: "rec_inv ?w D" by (rule rec_inv_keeps [OF rec keeps_popped [OF x(1)]]) (simp add: NEW_CONNECTION)
    show ?thesis
      by (rule HandleNewConnection_rec [OF _ rec1 x1, of "cqe_ok e" "service x"])
        (use i new st ord q x e h NEW_CONNECTION in \<open>auto simp: pend_set_pend\<close>)
  next
    case READ
    with h e HandleRead_rec [OF inv rec, of q r a ts x] q x show ?thesis by simp
  next
    case WRITE
    with h keep show ?thesis
      by (auto simp: HandleWrite_def bind_r_Inr_iff
          intro: keeps_trans HandleSendQueue_keeps RemoveIfNotPending_keeps)
  next
    case FINISH
    with h HandleFinish_rec [OF inv rec, of q r a ts x] q x show ?thesis by simp
  next
    case DONE
    with h keep show ?thesis by (simp add: HandleDone_def RemoveIfNotPending_keeps)
  qed (use ev in simp)
qed

lemma internal_rec:
  assumes rec: "rec_inv w D" and w': "InternalRpcEvent_Handle WRITE_NEEDED r w = Inr w'"
  shows "rec_inv w' D"
proof (cases "heap w r")
  case (Some x)
  with w' obtain w1 w2 where
    1: "HandleSendQueue r (hold r w) = Inr w1" "RemoveIfNotPending (service x) r w1 = Inr w2" "w' = release r w2"
    by (auto simp: InternalRpcEvent_Handle_def HandleWrite_def bind_r_Inr_iff hold_def)
  have "keeps r w (hold r w)" unfolding hold_def by (rule keeps_holders)
  with HandleSendQueue_keeps [OF 1(1)] RemoveIfNotPending_keeps [OF 1(2)] keeps_release [of r w2] 1(3)
  have "keeps r w w'" by (blast intro: keeps_trans)
  with rec show ?thesis by (rule rec_inv_keeps)
qed (use assms in \<open>simp add: InternalRpcEvent_Handle_def\<close>)

section \<open>The other steps\<close>

text \<open>gRPC hands over one request to \<open>r\<close>, or none, and the event waits in the queue.\<close>

lemma announced_rec_ok:
  assumes ok: "rpc_ok False False r x (queued w r) (unannounced w r) (r \<in> set (started w))"
    and rec: "rec_ok w r x ds" and U: "ev \<in> set (unannounced w r)"
    and U': "unannounced w' r = remove1 ev (unannounced w r)"
    and st: "r \<in> set (started w') \<longleftrightarrow> r \<in> set (started w) \<or> ev = NEW_CONNECTION \<and> b"
    and x': "handler x' = handler x" "rpc_handler_info x' = rpc_handler_info x" "pend READ x' = pend READ x"
      "cqe_ok (read_event x') = (if ev = READ then b else cqe_ok (read_event x))"
      "request x' = (if b \<and> receives_request x ev then m else request x)"
  shows "rec_ok w' r x' (ds @ (if b \<and> receives_request x ev then [m] else []))"
proof -
  have cnt: "count_list (unannounced w r) ev' + count_list (queued w r (event_queue x)) ev' = of_bool (pend ev' x)" for ev'
    using ok by (simp add: rpc_ok_def)
  have pU: "pend ev' x" if "ev' \<in> set (unannounced w r)" for ev'
    using cnt [of ev'] that by (cases "pend ev' x") (simp_all add: count_list_0_iff)
  have once: "READ \<notin> set (unannounced w' r)" if "ev = READ"
  proof -
    have "count_list (unannounced w' r) READ = 0"
      using cnt [of READ] pU [OF U] that U by (simp add: U' count_list_remove1)
    then show ?thesis unfolding count_list_0_iff .
  qed
  have other: "READ \<in> set (unannounced w' r) \<longleftrightarrow> READ \<in> set (unannounced w r)" if "ev \<noteq> READ"
    using that by (simp add: U' in_set_remove1)
  have rs: "reads_stream x' = reads_stream x" by (simp add: reads_stream_def x'(2))
  have rr: "receives_request x ev \<longleftrightarrow> ev = READ \<or> ev = NEW_CONNECTION \<and> \<not> reads_stream x"
    by (cases "rpc_type (rpc_handler_info x)") (simp_all add: receives_request_def reads_stream_def)
  have r: "records (rpc_handler_info x')" using rec by (simp add: rec_ok_def x'(2))
  show ?thesis
  proof (cases "handler x")
    case None
    with ok have n: "pend NEW_CONNECTION x" "\<not> pend READ x" by (auto simp: rpc_ok_def)
    with pU [OF U] have "ev \<noteq> READ" by auto
    moreover have "ev = NEW_CONNECTION \<longrightarrow> r \<notin> set (started w)" using ok n U by (auto simp: rpc_ok_def)
    moreover have "handler x' = None" using None x'(1) by simp
    ultimately show ?thesis
      using rec None r by (auto simp: rec_ok_None rs rr st x'(5))
  next
    case (Some hc)
    obtain h cbs where h: "handler x = Some (h, cbs)" using Some by (cases hc) auto
    from h ok have n: "\<not> pend NEW_CONNECTION x" by (auto simp: rpc_ok_def)
    with pU [OF U] have ev: "ev \<noteq> NEW_CONNECTION" by auto
    from rec h obtain ms where ms: "request_calls cbs = expected_calls ms (pend READ x)"
      "reads_stream x \<or> length ms = 1" "ds = ms @ (if request_arrived w r x then [request x] else [])"
      by (auto simp: rec_ok_Some)
    have h': "handler x' = Some (h, cbs)" using h x'(1) by simp
    show ?thesis
    proof (rule rec_ok_SomeI [OF h' r, of ms])
      show "ds @ (if b \<and> receives_request x ev then [m] else []) =
          ms @ (if request_arrived w' r x' then [request x'] else [])"
        using ms(3) ev once other pU [OF U] U by (cases "ev = READ") (simp_all add: request_arrived_def receives_request_def x')
    qed (use ms x' rs in simp_all)
  qed
qed

lemma announce_rec:
  assumes inv: "server_inv w" and rec: "rec_inv w D" and en: "enabled (Announce r ev ok m) w"
    and w': "exec (Announce r ev ok m) w = Inr w'"
  shows "rec_inv w' (\<lambda>r'. D r' @ delivered r' (Announce r ev ok m) w)"
proof -
  from outstanding_alive [OF inv en] obtain x e where x: "heap w r = Some x"
    and U: "ev \<in> set (unannounced w r)" and e: "GetRpcEvent ev x = Inr e" by blast
  have okx: "rpc_ok False False r x (queued w r) (unannounced w r) (r \<in> set (started w))"
    using inv_rpc [of "{}" "{}" w r x] inv x by (simp add: server_inv_def)
  define x1 where "x1 = (if ok \<and> receives_request x ev then x\<lparr>request := m\<rparr> else x)"
  have e1: "GetRpcEvent ev x1 = Inr e" using e by (cases ev) (simp_all add: x1_def)
  define x2 where "x2 = put_event ev (e\<lparr>cqe_ok := ok\<rparr>) x1"
  note x2 = put_event_ok [OF e1 x2_def]
  have x2': "cqe_ok (read_event x2) = (if ev = READ then ok else cqe_ok (read_event x))"
    "request x2 = (if ok \<and> receives_request x ev then m else request x)"
    using e1 by (cases ev; auto simp: x2_def x1_def)+
  have same: "handler x2 = handler x" "rpc_handler_info x2 = rpc_handler_info x" "pend READ x2 = pend READ x"
    by (simp_all add: x2 x1_def)
  have "queue_size (event_queues w (event_queue x)) = 0"
    using inv by (simp add: server_inv_def inv_except_def shared_ok_def)
  from announce_eq [OF x e this x1_def] w'
  have eq: "w' = push_n 1 (event_queue x) (CqEvent r ev, DO_NOT_DELETE)
    (w\<lparr>outstanding := remove1 (r, ev) (outstanding w),
       started := (if ev = NEW_CONNECTION \<and> ok then r # started w else started w),
       heap := (heap w)(r \<mapsto> x2)\<rparr>)"
    by (simp add: x2_def)
  have U': "unannounced w' r' = (if r' = r then remove1 ev (unannounced w r) else unannounced w r')" for r'
    unfolding eq by (simp add: unannounced_def unannounced_remove1 unannounced_remove1_other)
  have st: "r' \<in> set (started w') \<longleftrightarrow> r' \<in> set (started w) \<or> r' = r \<and> ev = NEW_CONNECTION \<and> ok" for r'
    by (auto simp: eq)
  have D: "delivered r' (Announce r ev ok m) w = (if r' = r \<and> ok \<and> receives_request x ev then [m] else [])" for r'
    using x by (auto split: option.splits)
  have "r < next_addr w"
    using inv x by (cases "next_addr w \<le> r") (auto simp: server_inv_def inv_except_def shared_ok_def)
  show ?thesis
    unfolding rec_inv_def
  proof (intro conjI allI impI)
    fix r' x' assume x': "heap w' r' = Some x'"
    show "rec_ok w' r' x' (D r' @ delivered r' (Announce r ev ok m) w)"
    proof (cases "r' = r")
      case True
      from rec x have "rec_ok w r x (D r)" by (simp add: rec_inv_def)
      then have "rec_ok w' r x2 (D r @ (if ok \<and> receives_request x ev then [m] else []))"
        by (rule announced_rec_ok [OF okx _ U _ _ same x2']) (simp_all add: U' st)
      moreover have "x' = x2" using x' True by (simp add: eq)
      ultimately show ?thesis using True by (simp only: D) simp
    next
      case False
      with x' rec have "rec_ok w r' x' (D r')" by (simp add: eq rec_inv_def)
      then have "rec_ok w' r' x' (D r')" by (rule rec_ok_same) (use False in \<open>simp_all add: U' st\<close>)
      with False show ?thesis by (simp only: D) simp
    qed
  qed (use rec \<open>r < next_addr w\<close> in \<open>auto simp: rec_inv_def D eq simp del: delivered.simps\<close>)
qed

lemma Rpc_sends_keep:
  assumes "server_inv w" and "r \<in> set (holders w)"
  shows "Writer_Write r m w = Inr w' \<Longrightarrow> keeps r w w'" "Writer_WritesDone r w = Inr w' \<Longrightarrow> keeps r w w'"
    "Writer_Finish r st w = Inr w' \<Longrightarrow> keeps r w w'"
proof -
  from assms obtain x where x: "heap w r = Some x" by (auto simp: server_inv_def inv_except_def shared_ok_def)
  have s: "sendable r w" using assms(1) x by (auto simp: server_inv_def intro: inv_sendable)
  show "Writer_Write r m w = Inr w' \<Longrightarrow> keeps r w w'" "Writer_WritesDone r w = Inr w' \<Longrightarrow> keeps r w w'"
    "Writer_Finish r st w = Inr w' \<Longrightarrow> keeps r w w'"
    using s by (auto simp: Writer_Write_def Writer_WritesDone_def Writer_Finish_def Rpc_Write_eq Rpc_Finish_eq
        keeps_enq with_rpc_def bind_r_Inr_iff)
qed

lemma Dispatch_rec:
  assumes inv: "server_inv w" and rec: "rec_inv w D" and ord: "orderly (Dispatch q) w"
    and w': "RunEventQueue_step q w = Inr w'"
  shows "rec_inv w' D"
proof (cases "deque (event_queues w q)")
  case Nil
  with w' rec show ?thesis by (simp add: RunEventQueue_step_def PopWithTimeout_def queue_defs)
next
  case (Cons e ts)
  obtain p a where e: "e = (p, a)" by (cases e)
  with Cons w' have h: "Handle p (popq q ts w) = Inr w'" by (simp add: RunEventQueue_step_Cons popq_def)
  show ?thesis
  proof (cases p)
    case (CqEvent r ev)
    with completion_rec [OF inv rec ord, of r ev a ts] Cons e h show ?thesis by simp
  next
    case (InternalEvent ev r)
    with inv_pop_internal [OF inv, of q ev r a ts] Cons e have "ev = WRITE_NEEDED" by simp
    with internal_rec [OF rec_inv_keeps [OF rec keeps_popq]] InternalEvent h show ?thesis by simp
  qed
qed

lemma exec_rec:
  assumes inv: "server_inv w" and rec: "rec_inv w D" and al: "allowed l w" and w': "exec l w = Inr w'"
  shows "rec_inv w' (\<lambda>r. D r @ delivered r l w)"
proof -
  have k: "rec_inv w' (\<lambda>r. D r @ delivered r l w)" if "keeps r w w'" "\<And>r. delivered r l w = []" for r
    using rec_inv_keeps [OF rec that(1)] that(2) by simp
  show ?thesis
  proof (cases l)
    case (Announce r ev ok m)
    with announce_rec [OF inv rec] al w' show ?thesis by (simp add: allowed_def del: delivered.simps exec.simps enabled.simps)
  next
    case (Dispatch q)
    with Dispatch_rec [OF inv rec, of q w'] al w' have "rec_inv w' D" by (simp add: allowed_def)
    with Dispatch show ?thesis by simp
  next
    case (WriterLock r)
    with w' show ?thesis
      by (intro k [of r]) (auto simp: Writer_lock_def hold_def keeps_holders keeps_refl split: if_splits)
  next
    case (WriterRelease r)
    with w' show ?thesis by (intro k [of r]) (auto simp: keeps_release)
  next
    case (Stop s)
    with w' show ?thesis by (intro k [of undefined]) (auto simp: StopServing_def keeps_services)
  next
    case (WriterWrite r m)
    with w' al have "keeps r w w'" by (intro Rpc_sends_keep(1) [OF inv]) (simp_all add: allowed_def)
    with WriterWrite show ?thesis by (intro k) simp_all
  next
    case (WriterWritesDone r)
    with w' al have "keeps r w w'" by (intro Rpc_sends_keep(2) [OF inv]) (simp_all add: allowed_def)
    with WriterWritesDone show ?thesis by (intro k) simp_all
  next
    case (WriterFinish r st)
    with w' al have "keeps r w w'" by (intro Rpc_sends_keep(3) [OF inv]) (simp_all add: allowed_def)
    with WriterFinish show ?thesis by (intro k) simp_all
  qed
qed

lemma run_rec:
  "server_inv w \<Longrightarrow> rec_inv w D \<Longrightarrow> run_of exec allowed ls w = Some (Inr w') \<Longrightarrow>
   rec_inv w' (\<lambda>r. D r @ delivered_run r ls w)"
proof (induction ls arbitrary: w D)
  case (Cons l ls)
  from Cons.prems(3) obtain w1 where l: "allowed l w" "exec l w = Inr w1"
    "run_of exec allowed ls w1 = Some (Inr w')" by (auto split: if_splits sum.splits)
  from exec_inv [OF Cons.prems(1), of l] l(1,2) have "server_inv w1" by (auto simp: allowed_def)
  from Cons.IH [OF this exec_rec [OF Cons.prems(1,2) l(1,2)] l(3)] l(2) show ?case by simp
qed simp

section \<open>Properties\<close>

text \<open>C5. What every handler is promised, stated for handlers that record the calls made on them. In any
  run of a started server, the handler of an RPC that is alive has got the requests that gRPC has
  handed over for this RPC, all of them, once each and in their order, except the last one if it still
  waits in the event queue. After them, and only when no further read is pending, it has been told once that
  the reads are done; a method with a single request gets this one and the end of the reads. Calls of
  \<open>OnFinish\<close> may come in between.\<close>

theorem handler_protocol:
  assumes "builder_ready b"
    and "\<forall>(s, infos) \<in> set (rpc_handlers b). \<forall>(name, info) \<in> set infos. records info"
    and "Build c b = Inr sv" and "Start sv = Inr sv'"
    and "run_of exec allowed ls (state sv') = Some (Inr w)"
    and "heap w r = Some x" and "handler x = Some (h, cbs)"
  shows "\<exists>ms. filter (\<lambda>cb. cb \<noteq> Call_OnFinish) cbs =
      map Call_OnRequest ms @ (if cqe_pending (read_event x) then [] else [Call_OnReadsDone]) \<and>
    delivered_run r ls (state sv') = ms @ (if request_arrived w r x then [request x] else []) \<and>
    (rpc_type (rpc_handler_info x) \<in> {NORMAL_RPC, SERVER_STREAMING} \<longrightarrow> length ms = 1)"
proof -
  from built_server_starts [OF assms(1), of c] assms(3,4) have inv: "server_inv (state sv')"
    and wait: "\<And>r x. heap (state sv') r = Some x \<Longrightarrow>
      \<exists>s infos. (s, infos) \<in> set (rpc_handlers b) \<and> waits_for s infos x"
    and st: "started (state sv') = []" by auto
  have "rec_ok (state sv') r x []" if "heap (state sv') r = Some x" for r x
  proof -
    from wait [OF that] obtain s infos where "(s, infos) \<in> set (rpc_handlers b)" "waits_for s infos x" by blast
    with assms(2) have "records (rpc_handler_info x)" "handler x = None" by (fastforce simp: waits_for_def)+
    with st show ?thesis by (simp add: rec_ok_None)
  qed
  then have "rec_inv (state sv') (\<lambda>_. [])" by (simp add: rec_inv_def)
  from run_rec [OF inv this assms(5)] assms(6) have "rec_ok w r x (delivered_run r ls (state sv'))"
    by (simp add: rec_inv_def)
  moreover have "rpc_type (rpc_handler_info x) \<in> {NORMAL_RPC, SERVER_STREAMING} \<longleftrightarrow> \<not> reads_stream x"
    by (cases "rpc_type (rpc_handler_info x)") (simp_all add: reads_stream_def)
  ultimately show ?thesis
    using assms(7) by (auto simp: rec_ok_Some request_calls_def expected_calls_def pend.simps)
qed

text \<open>
  The \<open>GetSum\<close> handler of the server tests, recording its calls: two numbers have come, and the second one
  waits to be handled.
\<close>

definition recorded_sum :: "(int, int \<times> int callback list, int list) RpcHandlerInfo" where
  "recorded_sum =
     \<lparr>request_descriptor = message_descriptor ''GetSumRequest'', response_descriptor = message_descriptor ''GetSumResponse'',
      handler_class = recording GetSumHandler, rpc_type = CLIENT_STREAMING,
      fully_qualified_name = ''/async_grpc.proto.Math/GetSum''\<rparr>"

definition recorded_builder :: "(int, int \<times> int callback list, int list) Builder" where
  "recorded_builder = \<lparr>options = default_Options\<lparr>opt_num_grpc_threads := Some 1, opt_num_event_threads := Some 1\<rparr>,
     rpc_handlers = [(''async_grpc.proto.Math'', [(''GetSum'', recorded_sum)])]\<rparr>"

definition recorded_run :: "int label list" where
  "recorded_run = [Announce 0 NEW_CONNECTION True 0, Dispatch 0, Announce 0 READ True 7, Dispatch 0, Announce 0 READ True 8]"

definition recorded_world :: "(int, int \<times> int callback list, int list) world" where
  "recorded_world =
     \<lparr>heap = [0 \<mapsto> waiting_rpc ''async_grpc.proto.Math'' (0, recorded_sum, 0) 0 0], next_addr = 1,
      services = (\<lambda>_. new_Service [])(''async_grpc.proto.Math'' :=
        (new_Service [(''GetSum'', recorded_sum)])\<lparr>active_rpcs := \<lparr>rpcs = [(0, 0)]\<rparr>\<rparr>),
      holders = [], num_event_threads = 1, current_event_queue_id = 0,
      event_queues = (\<lambda>_. new_queue), exec_context = [],
      calls = waiting_calls ''async_grpc.proto.Math'' (0, recorded_sum, 0) 0,
      outstanding = [(0, DONE), (0, NEW_CONNECTION)], started = []\<rparr>"

lemma recorded_ready: "builder_ready recorded_builder"
  by (simp add: builder_ready_def builder_ok_def recorded_builder_def map_ok_def)

lemma recorded_started:
  "\<exists>sv sv'. Build [] recorded_builder = Inr sv \<and> Start sv = Inr sv' \<and> state sv' = recorded_world"
  by (simp add: recorded_builder_def Build_eq map_ok_def Start_def on_state_def built_world_def initial_world_def
      StartServing_def StartServing_one_single new_Service_def new_ActiveRpcs_def Start_threads_def
      EventQueueThread_Start_def CompletionQueueThread_Start_def new_EventQueueThread_def new_CompletionQueueThread_def
      completion_queue_def recorded_world_def fun_eq_iff eval_nat_numeral)

lemma recorded_sum_facts [simp]:
  "rpc_type recorded_sum = CLIENT_STREAMING" "handler_class recorded_sum = recording GetSumHandler"
  "prototype (request_descriptor recorded_sum) = 0" "prototype (response_descriptor recorded_sum) = 0"
  by (simp_all add: recorded_sum_def message_descriptor_def)

lemma recorded_reads:
  "\<exists>w x. run_of exec allowed recorded_run recorded_world = Some (Inr w) \<and> heap w 0 = Some x \<and>
     handler x = Some (17, [Call_OnRequest 7]) \<and> request_arrived w 0 x \<and> request x = 8"
  by (simp add: recorded_run_def recorded_world_def waiting_rpc_def new_rpc_defs step_defs allowed_def
      recording_def then_record_def request_arrived_def unannounced_def pend.simps set_pend.simps) auto

theorem handler_protocol_witness:
  "\<exists>sv sv' w x. Build [] recorded_builder = Inr sv \<and> Start sv = Inr sv' \<and>
     run_of exec allowed recorded_run (state sv') = Some (Inr w) \<and>
     heap w 0 = Some x \<and> handler x = Some (17, [Call_OnRequest 7]) \<and>
     delivered_run 0 recorded_run (state sv') = [7, 8]"
proof -
  obtain sv sv' where sv: "Build [] recorded_builder = Inr sv" "Start sv = Inr sv'" "state sv' = recorded_world"
    using recorded_started by blast
  obtain w x where w: "run_of exec allowed recorded_run (state sv') = Some (Inr w)" "heap w 0 = Some x"
    "handler x = Some (17, [Call_OnRequest 7])" "request_arrived w 0 x" "request x = 8"
    using recorded_reads sv(3) by auto
  have rec: "\<forall>(s, infos) \<in> set (rpc_handlers recorded_builder). \<forall>(name, info) \<in> set infos. records info"
    by (auto simp: recorded_builder_def records_def)
  from handler_protocol [OF recorded_ready rec sv(1,2) w(1-3)] w(4,5)
  have "delivered_run 0 recorded_run (state sv') = [7, 8]"
    by (auto simp: map_eq_Cons_conv append_eq_Cons_conv split: if_splits)
  with sv(1,2) w(1-3) show ?thesis by blast
qed

end
