(* ===== verification/Time.thy ===== *)
theory Time
  imports Complex_Main Prelude
begin

text \<open>
  \<open>src/async_grpc/common/time.h\<close> and \<open>time.cc\<close>. A \<open>Duration\<close> is its number of ticks of 100 ns in a
  64-bit integer, a \<open>Time\<close> the ticks since the epoch. A \<open>double\<close> is a real number; the result of every
  floating-point operation is rounded by the parameter \<open>rnd\<close>. Conversions that do not fit
  into 64 bits are undefined in C++, and an error here.
\<close>

section \<open>Conversions\<close>

type_synonym Duration = int
type_synonym Time = int

definition kUtsEpochOffsetFromUnixEpochInSeconds :: int where
  "kUtsEpochOffsetFromUnixEpochInSeconds = 719162 * 24 * 60 * 60"

definition to_int64 :: "int \<Rightarrow> int result" where
  "to_int64 i = (if in_int64 i then Inr i else Inl SignedOverflow)"

definition truncate_real :: "real \<Rightarrow> int" where
  "truncate_real x = (if 0 \<le> x then \<lfloor>x\<rfloor> else \<lceil>x\<rceil>)"

definition FromSeconds :: "(real \<Rightarrow> real) \<Rightarrow> real \<Rightarrow> Duration result" where
  "FromSeconds rnd seconds = to_int64 (truncate_real (rnd (seconds * 10 ^ 7)))"

definition ToSeconds :: "(real \<Rightarrow> real) \<Rightarrow> Duration \<Rightarrow> real" where
  "ToSeconds rnd duration = rnd (rnd (real_of_int duration) / 10 ^ 7)"

definition FromUniversal :: "int \<Rightarrow> Time" where
  "FromUniversal ticks = ticks"

definition ToUniversal :: "Time \<Rightarrow> int" where
  "ToUniversal time = time"

definition FromMilliseconds :: "int \<Rightarrow> Duration result" where
  "FromMilliseconds milliseconds = to_int64 (milliseconds * 10000)"

text \<open>\<open>std::to_string\<close> of a 64-bit integer, and what \<open>operator<<\<close> appends to a stream.\<close>

fun digits :: "nat \<Rightarrow> string" where
  "digits n = (if n < 10 then [char_of (48 + n)] else digits (n div 10) @ [char_of (48 + n mod 10)])"

declare digits.simps [simp del]

definition to_string :: "int \<Rightarrow> string" where
  "to_string i = (if i < 0 then CHR ''-'' # digits (nat (- i)) else digits (nat i))"

definition print_Time :: "string \<Rightarrow> Time \<Rightarrow> string" where
  "print_Time os time = os @ to_string (ToUniversal time)"

section \<open>Printing\<close>

text \<open>A printed time can be read back.\<close>

definition read_nat :: "string \<Rightarrow> nat" where
  "read_nat cs = foldl (\<lambda>n c. 10 * n + (of_char c - 48)) 0 cs"

definition read_int :: "string \<Rightarrow> int" where
  "read_int cs = (if take 1 cs = [CHR ''-''] then - int (read_nat (tl cs)) else int (read_nat cs))"

lemma read_digits: "read_nat (digits n) = n"
proof (induction n rule: digits.induct)
  case (1 n)
  show ?case
    by (subst digits.simps) (use 1 in \<open>simp add: read_nat_def\<close>)
qed

lemma digits_start: "\<exists>c cs. digits n = c # cs \<and> c \<noteq> CHR ''-''"
proof (induction n rule: digits.induct)
  case (1 n)
  show ?case
  proof (cases "n < 10")
    case True
    then have "(of_char (char_of (48 + n) :: char) :: nat) \<noteq> of_char (CHR ''-'')" by simp
    then have "(char_of (48 + n) :: char) \<noteq> CHR ''-''" by metis
    with True show ?thesis by (subst digits.simps) simp
  next
    case False
    with 1 show ?thesis by (subst digits.simps) auto
  qed
qed

lemma read_to_string: "read_int (to_string i) = i"
proof (cases "i < 0")
  case False
  obtain c cs where "digits (nat i) = c # cs" "c \<noteq> CHR ''-''" using digits_start by blast
  with False read_digits [of "nat i"] show ?thesis by (simp add: read_int_def to_string_def)
qed (simp add: read_int_def to_string_def read_digits)

section \<open>Errors of rounding\<close>

text \<open>Rounding to nearest with 53 bits, for numbers from a tick to the range of the ticks.\<close>

definition rounds_double :: "(real \<Rightarrow> real) \<Rightarrow> bool" where
  "rounds_double rnd \<longleftrightarrow> rnd 0 = 0 \<and>
     (\<forall>x. 1 / 2 ^ 40 \<le> \<bar>x\<bar> \<and> \<bar>x\<bar> \<le> 2 ^ 63 \<longrightarrow> \<bar>rnd x - x\<bar> \<le> \<bar>x\<bar> / 2 ^ 53)"

lemma rounds_double_D:
  "rounds_double rnd \<Longrightarrow> 1 / 2 ^ 40 \<le> \<bar>x\<bar> \<Longrightarrow> \<bar>x\<bar> \<le> 2 ^ 63 \<Longrightarrow> \<bar>rnd x - x\<bar> \<le> \<bar>x\<bar> / 2 ^ 53"
  by (simp add: rounds_double_def)

lemma truncate_real_near: "\<bar>x - real_of_int i\<bar> < 1 \<Longrightarrow> \<bar>truncate_real x - i\<bar> \<le> 1"
  unfolding truncate_real_def by (auto simp: abs_if split: if_splits) linarith+

lemma rounded_size: "\<bar>y - x\<bar> \<le> \<bar>x\<bar> / 2 ^ 53 \<Longrightarrow> \<bar>x\<bar> / 2 \<le> \<bar>y\<bar> \<and> \<bar>y\<bar> \<le> 2 * \<bar>x\<bar>" for x y :: real
proof -
  assume "\<bar>y - x\<bar> \<le> \<bar>x\<bar> / 2 ^ 53"
  moreover have "\<bar>x\<bar> / 2 ^ 53 \<le> \<bar>x\<bar> / 2" by simp
  ultimately show ?thesis by linarith
qed

lemma round_trip_error:
  assumes rnd: "rounds_double rnd" and d: "1 \<le> \<bar>d\<bar>" "\<bar>d\<bar> \<le> 2 ^ 50"
  shows "\<bar>rnd (rnd (rnd d / 10 ^ 7) * 10 ^ 7) - d\<bar> < 1"
proof -
  let ?a = "rnd d" and ?b = "rnd (rnd d / 10 ^ 7)"
  have a: "\<bar>?a - d\<bar> \<le> \<bar>d\<bar> / 2 ^ 53" by (rule rounds_double_D [OF rnd]) (use d in auto)
  have a1: "1 / 2 \<le> \<bar>?a\<bar>" "\<bar>?a\<bar> \<le> 2 ^ 51" using rounded_size [OF a] d by simp_all
  have b: "\<bar>?b - ?a / 10 ^ 7\<bar> \<le> \<bar>?a / 10 ^ 7\<bar> / 2 ^ 53"
    by (rule rounds_double_D [OF rnd]) (use a1 in \<open>auto simp: field_simps\<close>)
  have "?b * 10 ^ 7 - ?a = (?b - ?a / 10 ^ 7) * 10 ^ 7" by (simp add: left_diff_distrib)
  then have "\<bar>?b * 10 ^ 7 - ?a\<bar> = \<bar>?b - ?a / 10 ^ 7\<bar> * 10 ^ 7" by (simp only: abs_mult) simp
  also have "\<dots> \<le> \<bar>?a / 10 ^ 7\<bar> / 2 ^ 53 * 10 ^ 7" using b by simp
  finally have b': "\<bar>?b * 10 ^ 7 - ?a\<bar> \<le> \<bar>?a\<bar> / 2 ^ 53" by simp
  have b1: "1 / 4 \<le> \<bar>?b * 10 ^ 7\<bar>" "\<bar>?b * 10 ^ 7\<bar> \<le> 2 ^ 52" using rounded_size [OF b'] a1 by simp_all
  have c: "\<bar>rnd (?b * 10 ^ 7) - ?b * 10 ^ 7\<bar> \<le> \<bar>?b * 10 ^ 7\<bar> / 2 ^ 53"
    by (rule rounds_double_D [OF rnd]) (use b1 in auto)
  have "\<bar>d\<bar> / 2 ^ 53 \<le> 1 / 8" using d(2) by simp
  moreover have "\<bar>?a\<bar> / 2 ^ 53 \<le> 1 / 4" using a1(2) by simp
  moreover have "\<bar>?b * 10 ^ 7\<bar> / 2 ^ 53 \<le> 1 / 2" using b1(2) by simp
  ultimately show ?thesis using a b' c by linarith
qed

section \<open>Properties\<close>

text \<open>C35. A duration of up to \<open>2 ^ 50\<close> ticks, about three and a half years, converted to seconds and back is
  off by at most one tick, for any rounding with the precision of a \<open>double\<close>.\<close>

theorem seconds_round_trip:
  assumes "rounds_double rnd" and "\<bar>d\<bar> \<le> 2 ^ 50"
  shows "\<exists>d'. FromSeconds rnd (ToSeconds rnd d) = Inr d' \<and> \<bar>d' - d\<bar> \<le> 1"
proof -
  let ?x = "rnd (rnd (rnd (real_of_int d) / 10 ^ 7) * 10 ^ 7)"
  have "\<bar>?x - real_of_int d\<bar> < 1"
  proof (cases "d = 0")
    case True
    with assms(1) show ?thesis by (simp add: rounds_double_def)
  next
    case False
    moreover have "real_of_int \<bar>d\<bar> \<le> real_of_int (2 ^ 50)" using assms(2) by (simp only: of_int_le_iff)
    ultimately have "1 \<le> \<bar>real_of_int d\<bar>" "\<bar>real_of_int d\<bar> \<le> 2 ^ 50" by simp_all
    then show ?thesis by (rule round_trip_error [OF assms(1)])
  qed
  then have near: "\<bar>truncate_real ?x - d\<bar> \<le> 1" by (rule truncate_real_near)
  with assms(2) have "in_int64 (truncate_real ?x)" by (simp add: in_int64_def) linarith
  with near show ?thesis by (simp add: FromSeconds_def ToSeconds_def to_int64_def)
qed

theorem seconds_round_trip_witness:
  "\<exists>d'. FromSeconds (\<lambda>x. x) (ToSeconds (\<lambda>x. x) (36000 * 10 ^ 7)) = Inr d' \<and> \<bar>d' - 36000 * 10 ^ 7\<bar> \<le> 1"
  by (rule seconds_round_trip) (simp_all add: rounds_double_def)

end
