(* ===== verification/Retry.thy ===== *)
theory Retry
  imports Time Grpc_Types
begin

text \<open>
  \<open>src/async_grpc/retry.h\<close> and \<open>retry.cc\<close>: strategies that decide after each failed attempt
  whether to try again and after which delay, and the loop that applies one.

  A strategy is given the number of failed attempts, an \<open>int\<close>, and the status of the last one; it
  may fail its check. The operation and the reset are functions on the state \<open>'s\<close> of the program; a
  null \<open>std::function\<close> is \<open>None\<close>. The delays the loop sleeps are collected in order. \<open>std::pow\<close> is the
  parameter \<open>pow\<close>, the rounding of doubles the parameter \<open>rnd\<close>, as in \<open>Time\<close>.
\<close>

type_synonym RetryIndicator = "int \<Rightarrow> Status \<Rightarrow> bool"
type_synonym RetryDelayCalculator = "int \<Rightarrow> Duration result"
type_synonym RetryStrategy = "int \<Rightarrow> Status \<Rightarrow> Duration option result"

section \<open>Strategies\<close>

definition CreateRetryStrategy :: "RetryIndicator \<Rightarrow> RetryDelayCalculator \<Rightarrow> RetryStrategy" where
  "CreateRetryStrategy retry_indicator retry_delay_calculator failed_attempts status =
     (if \<not> retry_indicator failed_attempts status then Inr None
      else bind_r (retry_delay_calculator failed_attempts) (\<lambda>d. Inr (Some d)))"

definition CreateLimitedRetryIndicator :: "int \<Rightarrow> RetryIndicator" where
  "CreateLimitedRetryIndicator max_attempts failed_attempts status \<longleftrightarrow> failed_attempts < max_attempts"

definition CreateUnlimitedRetryIndicator :: RetryIndicator where
  "CreateUnlimitedRetryIndicator failed_attempts status \<longleftrightarrow> True"

definition CreateUnlimitedRetryIndicatorExcept :: "StatusCode set \<Rightarrow> RetryIndicator" where
  "CreateUnlimitedRetryIndicatorExcept unrecoverable_codes failed_attempts status \<longleftrightarrow>
     error_code status \<notin> unrecoverable_codes"

definition CreateBackoffDelayCalculator ::
  "(real \<Rightarrow> real) \<Rightarrow> ('f \<Rightarrow> int \<Rightarrow> real) \<Rightarrow> Duration \<Rightarrow> 'f \<Rightarrow> RetryDelayCalculator" where
  "CreateBackoffDelayCalculator rnd pow min_delay backoff_factor failed_attempts =
     check (failed_attempts \<ge> 0) ''failed_attempts >= 0''
       (FromSeconds rnd (rnd (pow backoff_factor (failed_attempts - 1) * ToSeconds rnd min_delay)))"

definition CreateConstantDelayCalculator :: "Duration \<Rightarrow> RetryDelayCalculator" where
  "CreateConstantDelayCalculator delay failed_attempts = Inr delay"

definition CreateLimitedBackoffStrategy ::
  "(real \<Rightarrow> real) \<Rightarrow> ('f \<Rightarrow> int \<Rightarrow> real) \<Rightarrow> Duration \<Rightarrow> 'f \<Rightarrow> int \<Rightarrow> RetryStrategy" where
  "CreateLimitedBackoffStrategy rnd pow min_delay backoff_factor max_attempts =
     CreateRetryStrategy (CreateLimitedRetryIndicator max_attempts)
       (CreateBackoffDelayCalculator rnd pow min_delay backoff_factor)"

definition CreateUnlimitedConstantDelayStrategy :: "Duration \<Rightarrow> RetryStrategy" where
  "CreateUnlimitedConstantDelayStrategy delay =
     CreateRetryStrategy CreateUnlimitedRetryIndicator (CreateConstantDelayCalculator delay)"

definition CreateUnlimitedConstantDelayStrategyExcept ::
  "Duration \<Rightarrow> StatusCode set \<Rightarrow> RetryStrategy" where
  "CreateUnlimitedConstantDelayStrategyExcept delay unrecoverable_codes =
     CreateRetryStrategy (CreateUnlimitedRetryIndicatorExcept unrecoverable_codes)
       (CreateConstantDelayCalculator delay)"

lemmas strategy_defs =
  CreateRetryStrategy_def CreateLimitedRetryIndicator_def CreateUnlimitedRetryIndicator_def
  CreateUnlimitedRetryIndicatorExcept_def CreateBackoffDelayCalculator_def
  CreateConstantDelayCalculator_def CreateLimitedBackoffStrategy_def
  CreateUnlimitedConstantDelayStrategy_def CreateUnlimitedConstantDelayStrategyExcept_def

section \<open>The loop\<close>

partial_function (option) RetryLoop ::
  "RetryStrategy option \<Rightarrow> ('s \<Rightarrow> Status \<times> 's) \<Rightarrow> ('s \<Rightarrow> 's) option \<Rightarrow> int \<Rightarrow> Duration list \<Rightarrow> 's \<Rightarrow>
   (bool \<times> Duration list \<times> 's) result option" where
  "RetryLoop retry_strategy op reset failed_attempts slept s =
     (case op s of (status, s) \<Rightarrow>
        if status_ok status then Some (Inr (True, slept, s))
        else case retry_strategy of
          None \<Rightarrow> Some (Inr (False, slept, s))
        | Some strategy \<Rightarrow>
            if \<not> in_int32 (failed_attempts + 1) then Some (Inl SignedOverflow)
            else (case strategy (failed_attempts + 1) status of
              Inl e \<Rightarrow> Some (Inl e)
            | Inr None \<Rightarrow> Some (Inr (False, slept, s))
            | Inr (Some delay) \<Rightarrow>
                RetryLoop retry_strategy op reset (failed_attempts + 1) (slept @ [delay])
                  (case reset of None \<Rightarrow> s | Some f \<Rightarrow> f s)))"

definition RetryWithStrategy ::
  "RetryStrategy option \<Rightarrow> ('s \<Rightarrow> Status \<times> 's) \<Rightarrow> ('s \<Rightarrow> 's) option \<Rightarrow> 's \<Rightarrow>
   (bool \<times> Duration list \<times> 's) result option" where
  "RetryWithStrategy retry_strategy op reset = RetryLoop retry_strategy op reset 0 []"

section \<open>Unrolling the loop\<close>

text \<open>The state before attempt \<open>k\<close> and the status of that attempt, if it is made.\<close>

primrec state_before :: "('s \<Rightarrow> Status \<times> 's) \<Rightarrow> ('s \<Rightarrow> 's) option \<Rightarrow> 's \<Rightarrow> nat \<Rightarrow> 's" where
  "state_before op reset s 0 = s"
| "state_before op reset s (Suc k) =
     (let t = snd (op (state_before op reset s k)) in case reset of None \<Rightarrow> t | Some f \<Rightarrow> f t)"

definition attempt :: "('s \<Rightarrow> Status \<times> 's) \<Rightarrow> ('s \<Rightarrow> 's) option \<Rightarrow> 's \<Rightarrow> nat \<Rightarrow> Status" where
  "attempt op reset s k = fst (op (state_before op reset s k))"

definition state_after :: "('s \<Rightarrow> Status \<times> 's) \<Rightarrow> ('s \<Rightarrow> 's) option \<Rightarrow> 's \<Rightarrow> nat \<Rightarrow> 's" where
  "state_after op reset s k = snd (op (state_before op reset s k))"

lemma RetryLoop_unroll:
  assumes "\<And>k. k < n \<Longrightarrow> \<not> status_ok (attempt op reset s k)"
    and "\<And>k. k < n \<Longrightarrow> strategy (int k + 1) (attempt op reset s k) = Inr (Some (d k))"
    and "int n < 2 ^ 31"
  shows "RetryWithStrategy (Some strategy) op reset s =
    RetryLoop (Some strategy) op reset (int n) (map d [0..<n]) (state_before op reset s n)"
  using assms
proof (induction n)
  case 0
  then show ?case by (simp add: RetryWithStrategy_def)
next
  case (Suc n)
  let ?s = "state_before op reset s n"
  obtain st t where op: "op ?s = (st, t)" by (cases "op ?s")
  with Suc.prems(1,2) [of n] have st: "\<not> status_ok st" "strategy (int n + 1) st = Inr (Some (d n))"
    by (simp_all add: attempt_def)
  have "in_int32 (int n + 1)" using Suc.prems(3) by (simp add: in_int32_def)
  with st op have "RetryLoop (Some strategy) op reset (int n) (map d [0..<n]) ?s =
      RetryLoop (Some strategy) op reset (int n + 1) (map d [0..<n] @ [d n])
        (case reset of None \<Rightarrow> t | Some f \<Rightarrow> f t)"
    by (subst RetryLoop.simps) simp
  also have "\<dots> = RetryLoop (Some strategy) op reset (int (Suc n)) (map d [0..<Suc n])
      (state_before op reset s (Suc n))"
    using op by (simp add: Let_def add.commute)
  finally have "RetryLoop (Some strategy) op reset (int n) (map d [0..<n]) ?s =
      RetryLoop (Some strategy) op reset (int (Suc n)) (map d [0..<Suc n])
        (state_before op reset s (Suc n))" .
  with Suc show ?case by simp
qed

text \<open>How the loop ends at the attempt after \<open>n\<close> failures.\<close>

lemma RetryLoop_end:
  assumes "s = state_before op reset s0 n" and "int n < 2 ^ 31 - 1"
  shows "status_ok (attempt op reset s0 n) \<Longrightarrow>
      RetryLoop (Some strategy) op reset (int n) ds s = Some (Inr (True, ds, state_after op reset s0 n))"
    and "\<not> status_ok (attempt op reset s0 n) \<Longrightarrow>
      strategy (int n + 1) (attempt op reset s0 n) = Inr None \<Longrightarrow>
      RetryLoop (Some strategy) op reset (int n) ds s = Some (Inr (False, ds, state_after op reset s0 n))"
proof -
  obtain st t where op: "op s = (st, t)" by (cases "op s")
  with assms(1) have at: "attempt op reset s0 n = st" "state_after op reset s0 n = t"
    by (simp_all add: attempt_def state_after_def)
  have "in_int32 (int n + 1)" using assms(2) by (simp add: in_int32_def)
  with op show "status_ok (attempt op reset s0 n) \<Longrightarrow>
      RetryLoop (Some strategy) op reset (int n) ds s = Some (Inr (True, ds, state_after op reset s0 n))"
    "\<not> status_ok (attempt op reset s0 n) \<Longrightarrow>
      strategy (int n + 1) (attempt op reset s0 n) = Inr None \<Longrightarrow>
      RetryLoop (Some strategy) op reset (int n) ds s = Some (Inr (False, ds, state_after op reset s0 n))"
    unfolding at by (simp_all add: RetryLoop.simps [of "Some strategy" op reset "int n" ds s])
qed

text \<open>
  An invariant of the loop: \<open>I\<close> holds before every attempt, \<open>J\<close> after it. Both may speak of the
  delays slept so far.
\<close>

lemma RetryLoop_keeps:
  fixes s s' :: 's
  assumes run: "RetryLoop strategy op reset n ds s = Some (Inr (b, ds', s'))"
    and "I ds s" and op: "\<And>ds s. I ds s \<Longrightarrow> J (fst (op s)) ds (snd (op s))"
    and again: "\<And>status ds d s. J status ds s \<Longrightarrow> \<not> status_ok status \<Longrightarrow>
      I (ds @ [d]) (case reset of None \<Rightarrow> s | Some f \<Rightarrow> f s)"
  shows "\<exists>status. b = status_ok status \<and> J status ds' s'"
proof -
  define P where "P = (\<lambda>(strategy' :: RetryStrategy option) op' reset' (n :: int) (ds :: Duration list) s
    (y :: (bool \<times> Duration list \<times> 's) result). op' = op \<longrightarrow> reset' = reset \<longrightarrow> I ds s \<longrightarrow>
    (\<forall>b ds' s'. y = Inr (b, ds', s') \<longrightarrow> (\<exists>status. b = status_ok status \<and> J status ds' s')))"
  have "P strategy op reset n ds s (Inr (b, ds', s'))"
  proof (rule RetryLoop.raw_induct [of P, OF _ run])
    fix loop strategy' op' reset' n ds s y
    assume IH: "\<And>strategy' op' reset' n ds s y. loop strategy' op' reset' n ds s = Some y \<Longrightarrow>
        P strategy' op' reset' n ds s y"
      and step: "(case op' s of (status, s) \<Rightarrow>
        if status_ok status then Some (Inr (True, ds, s))
        else case strategy' of None \<Rightarrow> Some (Inr (False, ds, s))
        | Some strategy \<Rightarrow>
            if \<not> in_int32 (n + 1) then Some (Inl SignedOverflow)
            else (case strategy (n + 1) status of
              Inl e \<Rightarrow> Some (Inl e)
            | Inr None \<Rightarrow> Some (Inr (False, ds, s))
            | Inr (Some delay) \<Rightarrow> loop strategy' op' reset' (n + 1) (ds @ [delay])
                (case reset' of None \<Rightarrow> s | Some f \<Rightarrow> f s))) = Some y"
    have "\<exists>status. b = status_ok status \<and> J status ds' s'"
      if eqs: "op' = op" "reset' = reset" "I ds s" "y = Inr (b, ds', s')" for b ds' s'
    proof -
      obtain st t where t: "op s = (st, t)" by (cases "op s")
      with op [OF eqs(3)] have J: "J st ds t" by simp
      show ?thesis
      proof (cases "status_ok st")
        case True
        with J step eqs t show ?thesis by auto
      next
        case False
        note I = again [OF J False]
        from IH [unfolded P_def] I eqs step t J False show ?thesis
          by (auto split: if_splits option.splits sum.splits)
      qed
    qed
    then show "P strategy' op' reset' n ds s y" by (simp add: P_def)
  qed
  with assms(2) show ?thesis by (simp add: P_def)
qed


lemma unlimited_except:
  "CreateUnlimitedConstantDelayStrategyExcept delay codes n status =
     (if error_code status \<in> codes then Inr None else Inr (Some delay))"
  by (simp add: strategy_defs)

lemma map_const_upt: "map (\<lambda>_. d) [0..<n] = replicate n d"
  by (simp add: map_replicate_const)

section \<open>Properties\<close>



text \<open>C19. With an unlimited strategy the loop goes on exactly until an attempt succeeds or fails with an
  unrecoverable code: if the first \<open>n\<close> attempts fail with other codes, it sleeps \<open>n\<close> times the
  constant delay, and attempt \<open>n\<close> decides: it returns true if this attempt succeeds, false if its
  code is unrecoverable. (Attempts are counted in an \<open>int\<close>.)\<close>

theorem unlimited_retry_result:
  assumes "\<forall>k < n. \<not> status_ok (attempt op reset s k) \<and> error_code (attempt op reset s k) \<notin> codes"
    and "int n < 2 ^ 31 - 1"
    and "status_ok (attempt op reset s n) \<or> error_code (attempt op reset s n) \<in> codes"
  shows "RetryWithStrategy (Some (CreateUnlimitedConstantDelayStrategyExcept delay codes)) op reset s =
    Some (Inr (status_ok (attempt op reset s n), replicate n delay, state_after op reset s n))"
proof -
  let ?strategy = "CreateUnlimitedConstantDelayStrategyExcept delay codes"
  have "RetryWithStrategy (Some ?strategy) op reset s = RetryLoop (Some ?strategy) op reset (int n)
      (map (\<lambda>_. delay) [0..<n]) (state_before op reset s n)"
    by (rule RetryLoop_unroll) (use assms(1,2) in \<open>simp_all add: unlimited_except\<close>)
  with RetryLoop_end [OF refl assms(2), of op reset s ?strategy] assms(3) show ?thesis
    by (cases "status_ok (attempt op reset s n)") (simp_all add: unlimited_except map_const_upt)
qed

theorem unlimited_retry_result_witness:
  "RetryWithStrategy (Some (CreateUnlimitedConstantDelayStrategyExcept 10000000 {INTERNAL}))
     (\<lambda>calls. (\<lparr>error_code = (if calls < 2 then UNAVAILABLE else INTERNAL), error_message = []\<rparr>, Suc calls))
     None (0 :: nat) =
   Some (Inr (False, [10000000, 10000000], 3))"
proof -
  let ?op = "\<lambda>calls :: nat.
    (\<lparr>error_code = (if calls < 2 then UNAVAILABLE else INTERNAL), error_message = []\<rparr>, Suc calls)"
  have before: "state_before ?op None 0 k = k" for k by (induction k) simp_all
  have at: "attempt ?op None 0 k = \<lparr>error_code = (if k < 2 then UNAVAILABLE else INTERNAL), error_message = []\<rparr>" for k
    by (simp add: attempt_def before)
  have "RetryWithStrategy (Some (CreateUnlimitedConstantDelayStrategyExcept 10000000 {INTERNAL})) ?op None 0 =
      Some (Inr (status_ok (attempt ?op None 0 2), replicate 2 10000000, state_after ?op None 0 2))"
    by (rule unlimited_retry_result) (simp_all add: at status_ok_def)
  moreover have "replicate 2 d = [d, d]" for d :: int by (simp add: numeral_2_eq_2)
  ultimately show ?thesis by (simp add: at before state_after_def status_ok_def)
qed

end
