(* ===== verification/Client.thy ===== *)
theory Client
  imports Retry
begin

text \<open>
  The four blocking clients of \<open>src/async_grpc/client.h\<close>. gRPC's client side is not part of the
  repository: what the code does with it is a list of calls (\<open>client_call\<close>), and what gRPC and the
  clock answer is given by the functions of \<open>ClientGrpc\<close>, each of the calls made so far, the one
  being answered included. So a theorem about every \<open>ClientGrpc\<close> is one about every behaviour of
  gRPC and of the network.

  A \<open>ClientContext\<close> is represented by its deadline, if it has one. Times are in nanoseconds of
  the system clock, a \<open>Duration\<close> in ticks of 100 ns.
\<close>

section \<open>gRPC's client side\<close>

datatype 'q client_call =
    ClockNow
  | BlockingUnaryCall "int option" 'q
  | CreateClientWriter "int option"
  | CreateClientReader "int option" 'q
  | CreateClientReaderWriter "int option"
  | StreamWrite 'q
  | StreamRead
  | StreamWritesDone
  | StreamFinish

record ('q, 'p) ClientGrpc =
  answer_now :: "'q client_call list \<Rightarrow> int"
  answer_status :: "'q client_call list \<Rightarrow> Status"
  answer_ok :: "'q client_call list \<Rightarrow> bool"
  answer_response :: "'q client_call list \<Rightarrow> 'p"

section \<open>Unary calls\<close>

record ('q, 'p) UnaryClient =
  client_context :: "int option"
  timeout :: "Duration option"
  response_u :: 'p
  retry_strategy :: "RetryStrategy option"
  history_u :: "'q client_call list"

text \<open>The two constructors; \<open>blank\<close> is the default message of the response type.\<close>

definition new_Client_u :: "'p \<Rightarrow> ('q, 'p) UnaryClient" where
  "new_Client_u blank =
     \<lparr>client_context = None, timeout = None, response_u = blank, retry_strategy = None, history_u = []\<rparr>"

definition new_Client_u_timeout :: "'p \<Rightarrow> Duration \<Rightarrow> RetryStrategy option \<Rightarrow> ('q, 'p) UnaryClient" where
  "new_Client_u_timeout blank t strategy =
     \<lparr>client_context = None, timeout = Some t, response_u = blank, retry_strategy = strategy, history_u = []\<rparr>"

definition ResetContext :: "int option \<Rightarrow> int option" where
  "ResetContext deadline = deadline"

definition MakeBlockingUnaryCall ::
  "('q, 'p) ClientGrpc \<Rightarrow> 'q \<Rightarrow> ('q, 'p) UnaryClient \<Rightarrow> Status \<times> ('q, 'p) UnaryClient" where
  "MakeBlockingUnaryCall g request c =
     (let h = history_u c @ [BlockingUnaryCall (client_context c) request]; status = answer_status g h in
      (status, c\<lparr>history_u := h,
        response_u := answer_response g h\<rparr>))"

definition WriteImpl_u ::
  "('q, 'p) ClientGrpc \<Rightarrow> 'q \<Rightarrow> ('q, 'p) UnaryClient \<Rightarrow> bool \<times> Status \<times> ('q, 'p) UnaryClient" where
  "WriteImpl_u g request c =
     (case MakeBlockingUnaryCall g request c of (status, c) \<Rightarrow> (status_ok status, status, c))"

definition deadline_of :: "int \<Rightarrow> Duration option \<Rightarrow> int option result" where
  "deadline_of now t =
     (case t of
        None \<Rightarrow> Inr None
      | Some d \<Rightarrow> if in_int64 (100 * d) \<and> in_int64 (now + 100 * d) then Inr (Some (now + 100 * d))
                  else Inl SignedOverflow)"

text \<open>The result, the status reported through the pointer argument, the delays slept, the client.\<close>

definition Write_u ::
  "('q, 'p) ClientGrpc \<Rightarrow> 'q \<Rightarrow> ('q, 'p) UnaryClient \<Rightarrow>
   (bool \<times> Status \<times> Duration list \<times> ('q, 'p) UnaryClient) result option" where
  "Write_u g request c =
     (let c = (case timeout c of None \<Rightarrow> c | Some _ \<Rightarrow> c\<lparr>history_u := history_u c @ [ClockNow]\<rparr>) in
      case deadline_of (answer_now g (history_u c)) (timeout c) of
        Inl e \<Rightarrow> Some (Inl e)
      | Inr deadline \<Rightarrow>
          map_option (map_sum id (\<lambda>(result, slept, internal_status, c). (result, internal_status, slept, c)))
            (RetryWithStrategy (retry_strategy c)
              (\<lambda>(_, c). case WriteImpl_u g request c of (_, status, c) \<Rightarrow> (status, (status, c)))
              (Some (\<lambda>(status, c). (status, c\<lparr>client_context := ResetContext deadline\<rparr>)))
              (Status_OK, c\<lparr>client_context := ResetContext deadline\<rparr>)))"

section \<open>Client streaming\<close>

record ('q, 'p) ClientStreamingClient =
  client_writer :: bool
  response_cs :: 'p
  history_cs :: "'q client_call list"

definition new_Client_cs :: "'p \<Rightarrow> ('q, 'p) ClientStreamingClient" where
  "new_Client_cs blank = \<lparr>client_writer = False, response_cs = blank, history_cs = []\<rparr>"

definition InstantiateClientWriterIfNeeded ::
  "('q, 'p) ClientStreamingClient \<Rightarrow> ('q, 'p) ClientStreamingClient" where
  "InstantiateClientWriterIfNeeded c =
     (if client_writer c then c
      else c\<lparr>client_writer := True, history_cs := history_cs c @ [CreateClientWriter None]\<rparr>)"

definition WriteImpl_cs ::
  "('q, 'p) ClientGrpc \<Rightarrow> 'q \<Rightarrow> ('q, 'p) ClientStreamingClient \<Rightarrow> bool \<times> ('q, 'p) ClientStreamingClient" where
  "WriteImpl_cs g request c =
     (let c = InstantiateClientWriterIfNeeded c; h = history_cs c @ [StreamWrite request] in
      (answer_ok g h, c\<lparr>history_cs := h\<rparr>))"

definition Write_cs ::
  "('q, 'p) ClientGrpc \<Rightarrow> 'q \<Rightarrow> ('q, 'p) ClientStreamingClient \<Rightarrow>
   bool \<times> Status \<times> ('q, 'p) ClientStreamingClient" where
  "Write_cs g request c =
     (let internal_status = Status_OK in
      case WriteImpl_cs g request c of (_, c) \<Rightarrow> (status_ok internal_status, internal_status, c))"

definition StreamWritesDone_cs ::
  "('q, 'p) ClientGrpc \<Rightarrow> ('q, 'p) ClientStreamingClient \<Rightarrow> bool \<times> ('q, 'p) ClientStreamingClient" where
  "StreamWritesDone_cs g c =
     (let c = InstantiateClientWriterIfNeeded c; h = history_cs c @ [StreamWritesDone] in
      (answer_ok g h, c\<lparr>history_cs := h\<rparr>))"

definition StreamFinish_cs ::
  "('q, 'p) ClientGrpc \<Rightarrow> ('q, 'p) ClientStreamingClient \<Rightarrow> Status \<times> ('q, 'p) ClientStreamingClient" where
  "StreamFinish_cs g c =
     (let c = InstantiateClientWriterIfNeeded c; h = history_cs c @ [StreamFinish];
          status = answer_status g h in
      (status, c\<lparr>history_cs := h,
         response_cs := answer_response g h\<rparr>))"

section \<open>Server streaming\<close>

record 'q ServerStreamingClient =
  client_reader :: bool
  history_ss :: "'q client_call list"


definition InstantiateClientReader :: "'q \<Rightarrow> 'q ServerStreamingClient \<Rightarrow> 'q ServerStreamingClient" where
  "InstantiateClientReader request c =
     c\<lparr>client_reader := True, history_ss := history_ss c @ [CreateClientReader None request]\<rparr>"

definition WriteImpl_ss :: "'q \<Rightarrow> 'q ServerStreamingClient \<Rightarrow> bool \<times> 'q ServerStreamingClient" where
  "WriteImpl_ss request c = (True, InstantiateClientReader request c)"

definition Write_ss :: "'q \<Rightarrow> 'q ServerStreamingClient \<Rightarrow> bool \<times> Status \<times> 'q ServerStreamingClient" where
  "Write_ss request c =
     (let internal_status = Status_OK in
      case WriteImpl_ss request c of (_, c) \<Rightarrow> (status_ok internal_status, internal_status, c))"

definition StreamRead_ss ::
  "('q, 'p) ClientGrpc \<Rightarrow> 'q ServerStreamingClient \<Rightarrow> (bool \<times> 'p \<times> 'q ServerStreamingClient) result" where
  "StreamRead_ss g c =
     check (client_reader c) ''client_reader_''
       (let h = history_ss c @ [StreamRead] in Inr (answer_ok g h, answer_response g h, c\<lparr>history_ss := h\<rparr>))"

definition StreamFinish_ss ::
  "('q, 'p) ClientGrpc \<Rightarrow> 'q ServerStreamingClient \<Rightarrow> (Status \<times> 'q ServerStreamingClient) result" where
  "StreamFinish_ss g c =
     check (client_reader c) ''client_reader_''
       (let h = history_ss c @ [StreamFinish] in Inr (answer_status g h, c\<lparr>history_ss := h\<rparr>))"

section \<open>Bidirectional streaming\<close>

record 'q BidiStreamingClient =
  client_reader_writer :: bool
  history_bs :: "'q client_call list"

definition new_Client_bs :: "'q BidiStreamingClient" where
  "new_Client_bs = \<lparr>client_reader_writer = False, history_bs = []\<rparr>"

definition InstantiateClientReaderWriterIfNeeded :: "'q BidiStreamingClient \<Rightarrow> 'q BidiStreamingClient" where
  "InstantiateClientReaderWriterIfNeeded c =
     (if client_reader_writer c then c
      else c\<lparr>client_reader_writer := True, history_bs := history_bs c @ [CreateClientReaderWriter None]\<rparr>)"

definition StreamRead_bs ::
  "('q, 'p) ClientGrpc \<Rightarrow> 'q BidiStreamingClient \<Rightarrow> bool \<times> 'p \<times> 'q BidiStreamingClient" where
  "StreamRead_bs g c =
     (let c = InstantiateClientReaderWriterIfNeeded c; h = history_bs c @ [StreamRead] in
      (answer_ok g h, answer_response g h, c\<lparr>history_bs := h\<rparr>))"

definition WriteImpl_bs ::
  "('q, 'p) ClientGrpc \<Rightarrow> 'q \<Rightarrow> 'q BidiStreamingClient \<Rightarrow> bool \<times> 'q BidiStreamingClient" where
  "WriteImpl_bs g request c =
     (let c = InstantiateClientReaderWriterIfNeeded c; h = history_bs c @ [StreamWrite request] in
      (answer_ok g h, c\<lparr>history_bs := h\<rparr>))"

definition Write_bs ::
  "('q, 'p) ClientGrpc \<Rightarrow> 'q \<Rightarrow> 'q BidiStreamingClient \<Rightarrow> bool \<times> Status \<times> 'q BidiStreamingClient" where
  "Write_bs g request c =
     (let internal_status = Status_OK in
      case WriteImpl_bs g request c of (_, c) \<Rightarrow> (status_ok internal_status, internal_status, c))"

definition StreamWritesDone_bs ::
  "('q, 'p) ClientGrpc \<Rightarrow> 'q BidiStreamingClient \<Rightarrow> bool \<times> 'q BidiStreamingClient" where
  "StreamWritesDone_bs g c =
     (let c = InstantiateClientReaderWriterIfNeeded c; h = history_bs c @ [StreamWritesDone] in
      (answer_ok g h, c\<lparr>history_bs := h\<rparr>))"

definition StreamFinish_bs ::
  "('q, 'p) ClientGrpc \<Rightarrow> 'q BidiStreamingClient \<Rightarrow> Status \<times> 'q BidiStreamingClient" where
  "StreamFinish_bs g c =
     (let c = InstantiateClientReaderWriterIfNeeded c; h = history_bs c @ [StreamFinish] in
      (answer_status g h, c\<lparr>history_bs := h\<rparr>))"

section \<open>Programs on a streaming client\<close>

text \<open>
  What a user may call on a streaming client, and the gRPC call each makes on the stream. A client
  streaming client has no \<open>StreamRead\<close>, a server streaming one no \<open>StreamWritesDone\<close>.
\<close>

datatype 'q stream_op = OpWrite 'q | OpRead | OpWritesDone | OpFinish

definition stream_call :: "'q stream_op \<Rightarrow> 'q client_call" where
  "stream_call x = (case x of OpWrite q \<Rightarrow> StreamWrite q | OpRead \<Rightarrow> StreamRead
     | OpWritesDone \<Rightarrow> StreamWritesDone | OpFinish \<Rightarrow> StreamFinish)"

definition exec_cs ::
  "('q, 'p) ClientGrpc \<Rightarrow> 'q stream_op \<Rightarrow> ('q, 'p) ClientStreamingClient \<Rightarrow> ('q, 'p) ClientStreamingClient" where
  "exec_cs g x c =
     (case x of OpWrite q \<Rightarrow> snd (snd (Write_cs g q c)) | OpRead \<Rightarrow> c
      | OpWritesDone \<Rightarrow> snd (StreamWritesDone_cs g c) | OpFinish \<Rightarrow> snd (StreamFinish_cs g c))"

definition exec_bs ::
  "('q, 'p) ClientGrpc \<Rightarrow> 'q stream_op \<Rightarrow> 'q BidiStreamingClient \<Rightarrow> 'q BidiStreamingClient" where
  "exec_bs g x c =
     (case x of OpWrite q \<Rightarrow> snd (snd (Write_bs g q c)) | OpRead \<Rightarrow> snd (snd (StreamRead_bs g c))
      | OpWritesDone \<Rightarrow> snd (StreamWritesDone_bs g c) | OpFinish \<Rightarrow> snd (StreamFinish_bs g c))"


text \<open>
  The contract of a client that opens its stream at the first use: the stream is created once,
  before the first call on it, and every operation makes its one call on it.
\<close>

locale lazy_stream =
  fixes history :: "'s \<Rightarrow> 'q client_call list" and opened :: "'s \<Rightarrow> bool"
    and step :: "'o \<Rightarrow> 's \<Rightarrow> 's" and offered :: "'o \<Rightarrow> bool" and create :: "'q client_call"
    and call_of :: "'o \<Rightarrow> 'q client_call"
  assumes step_opens: "offered x \<Longrightarrow> opened (step x s)"
    and step_history: "offered x \<Longrightarrow>
      history (step x s) = history s @ (if opened s then [] else [create]) @ [call_of x]"
begin

lemma opened_fold: "list_all offered xs \<Longrightarrow> opened (fold step xs s) \<longleftrightarrow> opened s \<or> xs \<noteq> []"
  by (induction xs arbitrary: s) (auto simp: step_opens)

lemma history_fold:
  "list_all offered xs \<Longrightarrow> history (fold step xs s) =
     history s @ (if opened s \<or> xs = [] then [] else [create]) @ map call_of xs"
  by (induction xs arbitrary: s) (auto simp: step_opens step_history)

end

lemmas stream_defs =
  Write_cs_def WriteImpl_cs_def StreamWritesDone_cs_def StreamFinish_cs_def InstantiateClientWriterIfNeeded_def
  Write_bs_def WriteImpl_bs_def StreamRead_bs_def StreamWritesDone_bs_def StreamFinish_bs_def
  InstantiateClientReaderWriterIfNeeded_def Write_ss_def WriteImpl_ss_def InstantiateClientReader_def
  StreamRead_ss_def StreamFinish_ss_def

interpretation cs: lazy_stream history_cs client_writer "exec_cs g" "\<lambda>x. x \<noteq> OpRead"
  "CreateClientWriter None" stream_call for g
  by unfold_locales (auto simp: exec_cs_def stream_call_def stream_defs Let_def split: stream_op.splits)

interpretation bs: lazy_stream history_bs client_reader_writer "exec_bs g" "\<lambda>x. True"
  "CreateClientReaderWriter None" stream_call for g
  by unfold_locales (auto simp: exec_bs_def stream_call_def stream_defs Let_def split: stream_op.splits)




section \<open>Properties\<close>

text \<open>C20. A unary \<open>Write\<close> that returns has made its attempts, one more than the delays it slept, with
  the same request and the same deadline, which was computed once from the clock and the timeout
  before the first attempt: retries count towards a single timeout. It returns true exactly when
  the status it reports is OK, and that status and the response are those of the last attempt.\<close>

theorem Write_u_attempts:
  assumes "Write_u g request c = Some (Inr (result, status, slept, c'))"
  shows "\<exists>deadline h.
    h = history_u c @ (case timeout c of None \<Rightarrow> [] | Some _ \<Rightarrow> [ClockNow]) \<and>
    deadline_of (answer_now g h) (timeout c) = Inr deadline \<and>
    history_u c' = h @ replicate (length slept + 1) (BlockingUnaryCall deadline request) \<and>
    result = status_ok status \<and>
    status = answer_status g (history_u c') \<and> response_u c' = answer_response g (history_u c')"
proof -
  define h where "h = history_u c @ (case timeout c of None \<Rightarrow> [] | Some _ \<Rightarrow> [ClockNow])"
  define c0 where "c0 = (case timeout c of None \<Rightarrow> c | Some _ \<Rightarrow> c\<lparr>history_u := history_u c @ [ClockNow]\<rparr>)"
  have c0: "history_u c0 = h" "timeout c0 = timeout c"
    by (simp_all add: c0_def h_def split: option.splits)
  from assms obtain deadline where d: "deadline_of (answer_now g h) (timeout c) = Inr deadline"
    and run: "RetryLoop (retry_strategy c0)
      (\<lambda>(_, c). case WriteImpl_u g request c of (_, status, c) \<Rightarrow> (status, (status, c)))
      (Some (\<lambda>(status, c). (status, c\<lparr>client_context := ResetContext deadline\<rparr>))) 0 []
      (Status_OK, c0\<lparr>client_context := ResetContext deadline\<rparr>) = Some (Inr (result, slept, status, c'))"
    unfolding Write_u_def Let_def c0_def [symmetric] c0 RetryWithStrategy_def
    by (auto simp: map_sum_Inr split: sum.splits)
  let ?call = "BlockingUnaryCall deadline request"
  let ?I = "\<lambda>ds (st :: Status, c). client_context c = deadline \<and> history_u c = h @ replicate (length ds) ?call"
  let ?J = "\<lambda>status ds (st, c). st = status \<and> client_context c = deadline \<and>
    history_u c = h @ replicate (length ds + 1) ?call \<and>
    status = answer_status g (history_u c) \<and> response_u c = answer_response g (history_u c)"
  have "\<exists>st. result = status_ok st \<and> ?J st slept (status, c')"
    using run
  proof (rule RetryLoop_keeps [where I = ?I and J = ?J])
    show "?I [] (Status_OK, c0\<lparr>client_context := ResetContext deadline\<rparr>)"
      by (simp add: c0 ResetContext_def)
  qed (auto simp: WriteImpl_u_def MakeBlockingUnaryCall_def Let_def ResetContext_def
      replicate_append_same)
  then have "result = status_ok status" "history_u c' = h @ replicate (length slept + 1) ?call"
    "status = answer_status g (history_u c')" "response_u c' = answer_response g (history_u c')"
    by auto
  with d h_def show ?thesis by blast
qed

theorem Write_u_attempts_witness:
  "let g = \<lparr>answer_now = (\<lambda>_. 5000),
        answer_status = (\<lambda>h. \<lparr>error_code = (if length h < 3 then UNAVAILABLE else OK), error_message = []\<rparr>),
        answer_ok = (\<lambda>_. True), answer_response = (\<lambda>h. length h)\<rparr>;
       c = new_Client_u_timeout 0 70 (Some (CreateUnlimitedConstantDelayStrategy 4));
       c' = c\<lparr>client_context := Some 12000, response_u := 3,
         history_u := ClockNow # replicate 2 (BlockingUnaryCall (Some 12000) (''q'' :: string))\<rparr> in
   Write_u g ''q'' c = Some (Inr (True, Status_OK, [4], c')) \<and>
   (\<exists>deadline h. h = history_u c @ (case timeout c of None \<Rightarrow> [] | Some _ \<Rightarrow> [ClockNow]) \<and>
      deadline_of (answer_now g h) (timeout c) = Inr deadline \<and>
      history_u c' = h @ replicate (length [4 :: Duration] + 1) (BlockingUnaryCall deadline ''q'') \<and>
      True = status_ok Status_OK \<and>
      Status_OK = answer_status g (history_u c') \<and> response_u c' = answer_response g (history_u c'))"
proof -
  let ?g = "\<lparr>answer_now = (\<lambda>_. 5000),
        answer_status = (\<lambda>h. \<lparr>error_code = (if length h < 3 then UNAVAILABLE else OK), error_message = []\<rparr>),
        answer_ok = (\<lambda>_. True), answer_response = (\<lambda>h. length h)\<rparr>"
  let ?c = "new_Client_u_timeout 0 70 (Some (CreateUnlimitedConstantDelayStrategy 4))"
  let ?c' = "?c\<lparr>client_context := Some 12000, response_u := 3,
         history_u := ClockNow # replicate 2 (BlockingUnaryCall (Some 12000) (''q'' :: string))\<rparr>"
  have run: "Write_u ?g ''q'' ?c = Some (Inr (True, Status_OK, [4], ?c'))"
    by (simp add: Write_u_def new_Client_u_timeout_def deadline_of_def in_int64_def in_int32_def
        RetryWithStrategy_def RetryLoop.simps WriteImpl_u_def MakeBlockingUnaryCall_def ResetContext_def
        status_ok_def strategy_defs Status_OK_def numeral_2_eq_2)
  from run Write_u_attempts [OF run] show ?thesis unfolding Let_def by (rule conjI)
qed

text \<open>C21. The client streaming and the bidirectional client create their stream exactly once, before the
  first call on it, whichever operation comes first, and every operation of the user is one call on
  it, in the order of the program.\<close>

theorem streams_open_lazily_once:
  assumes "OpRead \<notin> set xs" and "xs \<noteq> []" and "ys \<noteq> []"
  shows "history_cs (fold (exec_cs g) xs (new_Client_cs blank)) = CreateClientWriter None # map stream_call xs \<and>
    history_bs (fold (exec_bs g) ys new_Client_bs) = CreateClientReaderWriter None # map stream_call ys"
proof -
  have "list_all (\<lambda>x. x \<noteq> OpRead) xs" using assms(1) by (induction xs) auto
  with assms(2,3) show ?thesis
    by (simp add: cs.history_fold bs.history_fold new_Client_cs_def new_Client_bs_def list_all_iff)
qed

theorem streams_open_lazily_once_witness:
  "let g = \<lparr>answer_now = (\<lambda>_. 0), answer_status = (\<lambda>_. Status_OK), answer_ok = (\<lambda>_. True),
        answer_response = (\<lambda>h. length h)\<rparr> in
   history_cs (fold (exec_cs g) [OpWrite (7 :: nat), OpWrite 8, OpWritesDone, OpFinish] (new_Client_cs 0)) =
     [CreateClientWriter None, StreamWrite 7, StreamWrite 8, StreamWritesDone, StreamFinish] \<and>
   history_bs (fold (exec_bs g) [OpRead, OpWrite (1 :: nat)] new_Client_bs) =
     [CreateClientReaderWriter None, StreamRead, StreamWrite 1]"
  unfolding Let_def
  using streams_open_lazily_once [of "[OpWrite (7 :: nat), OpWrite 8, OpWritesDone, OpFinish]" "[OpRead, OpWrite 1]"
      "\<lparr>answer_now = (\<lambda>_. 0), answer_status = (\<lambda>_. Status_OK), answer_ok = (\<lambda>_. True),
        answer_response = (\<lambda>h. length h)\<rparr>" 0]
  by (simp add: stream_call_def)



text \<open>\<open>Write\<close> of a streaming client drops the result of the write on the stream: whatever gRPC
  answers, also on a broken stream where \<open>WriteImpl\<close> returns false, it returns true and reports an
  OK status. Only \<open>StreamFinish\<close> shows that a stream has failed.\<close>

lemma streaming_write_hides_failure:
  "fst (WriteImpl_cs g q c) = answer_ok g (history_cs (snd (WriteImpl_cs g q c))) \<and>
   Write_cs g q c = (True, Status_OK, snd (WriteImpl_cs g q c)) \<and>
   fst (WriteImpl_bs g q d) = answer_ok g (history_bs (snd (WriteImpl_bs g q d))) \<and>
   Write_bs g q d = (True, Status_OK, snd (WriteImpl_bs g q d)) \<and>
   fst (StreamFinish_cs g c) = answer_status g (history_cs (snd (StreamFinish_cs g c))) \<and>
   fst (StreamFinish_bs g d) = answer_status g (history_bs (snd (StreamFinish_bs g d)))"
  by (simp add: stream_defs Let_def)

end
