(* ===== verification/Completion_Queue_Pool.thy ===== *)
theory Completion_Queue_Pool
  imports Threads
begin

text \<open>
  \<open>src/async_grpc/completion_queue_pool.h\<close> and \<open>completion_queue_pool.cc\<close>: the process-wide pool of
  completion queues with their threads, which the asynchronous clients share. The pool is a
  singleton, so its state is passed along; a queue of it is named by its index. \<open>rand()\<close> is an
  argument of \<open>GetCompletionQueue\<close>. What a thread of the pool runs is in \<open>Async_Client\<close>.
\<close>

section \<open>A queue and its thread\<close>

record CompletionQueue =
  cq_shut_down :: bool
  cq_thread :: "std_thread option"

definition new_CompletionQueue :: CompletionQueue where
  "new_CompletionQueue = \<lparr>cq_shut_down = False, cq_thread = None\<rparr>"

definition CompletionQueue_Start :: "CompletionQueue \<Rightarrow> CompletionQueue result" where
  "CompletionQueue_Start q =
     check (cq_thread q = None) ''CompletionQueue already started.'' (Inr (q\<lparr>cq_thread := Some Joinable\<rparr>))"

definition CompletionQueue_Shutdown :: "CompletionQueue \<Rightarrow> CompletionQueue result" where
  "CompletionQueue_Shutdown q =
     check (cq_thread q \<noteq> None) ''CompletionQueue not yet started.''
       (let q = q\<lparr>cq_shut_down := True\<rparr> in
        bind_r (join (cq_thread q)) (\<lambda>th. Inr (q\<lparr>cq_thread := th\<rparr>)))"

interpretation qt: thread_owner CompletionQueue_Start CompletionQueue_Shutdown cq_thread
  "\<lambda>th q. q\<lparr>cq_thread := Some th\<rparr>" "\<lambda>q. q\<lparr>cq_shut_down := True, cq_thread := Some Joined\<rparr>"
  by unfold_locales
    (auto simp: CompletionQueue_Start_def CompletionQueue_Shutdown_def check_def join_def Let_def
      split: option.splits std_thread.splits if_splits)

section \<open>The pool\<close>

record CompletionQueuePool =
  initialized :: bool
  number_completion_queues :: nat
  completion_queues :: "CompletionQueue list"

definition kDefaultNumberCompletionQueues :: nat where
  "kDefaultNumberCompletionQueues = 2"

definition new_CompletionQueuePool :: CompletionQueuePool where
  "new_CompletionQueuePool = \<lparr>initialized = False,
     number_completion_queues = kDefaultNumberCompletionQueues, completion_queues = []\<rparr>"

text \<open>\<open>kInstance\<close> is created by the first call that asks for the pool.\<close>

definition completion_queue_pool :: "CompletionQueuePool option \<Rightarrow> CompletionQueuePool" where
  "completion_queue_pool kInstance =
     (case kInstance of None \<Rightarrow> new_CompletionQueuePool | Some pool \<Rightarrow> pool)"

definition SetNumberCompletionQueues :: "nat \<Rightarrow> CompletionQueuePool cmd" where
  "SetNumberCompletionQueues n pool =
     check (\<not> initialized pool) ''Can't change number of completion queues after initialization.''
     (check (n > 0) ''number_completion_queues > 0''
     (Inr (pool\<lparr>number_completion_queues := n\<rparr>)))"

definition resize :: "nat \<Rightarrow> 'a \<Rightarrow> 'a list \<Rightarrow> 'a list" where
  "resize n x xs = take n xs @ replicate (n - length xs) x"

definition Initialize :: "CompletionQueuePool cmd" where
  "Initialize pool =
     (if initialized pool then Inr pool
      else
        bind_r (for_each CompletionQueue_Start
            (resize (number_completion_queues pool) new_CompletionQueue (completion_queues pool))) (\<lambda>qs.
        Inr (pool\<lparr>completion_queues := qs, initialized := True\<rparr>)))"

definition GetCompletionQueue :: "nat \<Rightarrow> CompletionQueuePool \<Rightarrow> (nat \<times> CompletionQueuePool) result" where
  "GetCompletionQueue rand pool =
     bind_r (Initialize pool) (\<lambda>pool.
       let size = length (completion_queues pool) in
       if size = 0 then Inl DivisionByZero
       else
         let qid = (rand mod size) mod 2 ^ 32 in
         if qid < size then Inr (qid, pool) else Inl OutOfRange)"

definition Pool_Start :: "CompletionQueuePool cmd" where
  "Pool_Start pool = Initialize pool"

definition Pool_Shutdown :: "CompletionQueuePool cmd" where
  "Pool_Shutdown pool =
     bind_r (for_each CompletionQueue_Shutdown (completion_queues pool)) (\<lambda>_.
     Inr (pool\<lparr>completion_queues := [], initialized := False\<rparr>))"

section \<open>The pool's invariant\<close>

text \<open>
  What a user sees of the pool: how many queues it has or will have, and whether they run. The
  queues are exactly as many as configured, each with a running thread, or there are none.
\<close>

definition pool_of :: "nat \<Rightarrow> bool \<Rightarrow> CompletionQueuePool" where
  "pool_of n running = \<lparr>initialized = running, number_completion_queues = n,
     completion_queues = (if running
       then replicate n \<lparr>cq_shut_down = False, cq_thread = Some Joinable\<rparr> else [])\<rparr>"

datatype pool_op = OpSetNumber nat | OpGet nat | OpStart | OpShutdown

definition pool_exec :: "pool_op \<Rightarrow> CompletionQueuePool cmd" where
  "pool_exec x pool =
     (case x of
        OpSetNumber n \<Rightarrow> SetNumberCompletionQueues n pool
      | OpGet rand \<Rightarrow> bind_r (GetCompletionQueue rand pool) (\<lambda>(_, pool). Inr pool)
      | OpStart \<Rightarrow> Pool_Start pool
      | OpShutdown \<Rightarrow> Pool_Shutdown pool)"

lemma new_pool: "new_CompletionQueuePool = pool_of 2 False"
  by (simp add: new_CompletionQueuePool_def pool_of_def kDefaultNumberCompletionQueues_def)

lemma Initialize_pool: "Initialize (pool_of n running) = Inr (pool_of n True)"
proof (cases running)
  case False
  have "for_each CompletionQueue_Start (replicate n new_CompletionQueue) =
      Inr (map (\<lambda>q. q\<lparr>cq_thread := Some Joinable\<rparr>) (replicate n new_CompletionQueue))"
    by (rule qt.start_new) (simp add: list_all_iff new_CompletionQueue_def)
  with False show ?thesis
    by (simp add: Initialize_def pool_of_def resize_def new_CompletionQueue_def)
qed (simp add: Initialize_def pool_of_def)

lemma Get_pool:
  assumes "0 < n"
  shows "GetCompletionQueue rand (pool_of n running) = Inr ((rand mod n) mod 2 ^ 32, pool_of n True)"
    and "(rand mod n) mod 2 ^ 32 < n"
proof -
  have "(rand mod n) mod 2 ^ 32 \<le> rand mod n" by (rule mod_less_eq_dividend)
  also have "rand mod n < n" using assms by simp
  finally show less: "(rand mod n) mod 2 ^ 32 < n" .
  with assms show "GetCompletionQueue rand (pool_of n running) = Inr ((rand mod n) mod 2 ^ 32, pool_of n True)"
    by (simp add: GetCompletionQueue_def Initialize_pool) (simp add: pool_of_def)
qed

lemma Shutdown_pool: "Pool_Shutdown (pool_of n running) = Inr (pool_of n False)"
proof -
  have "for_each CompletionQueue_Shutdown (replicate n \<lparr>cq_shut_down = False, cq_thread = Some Joinable\<rparr>) =
      Inr (map (\<lambda>q. q\<lparr>cq_shut_down := True, cq_thread := Some Joined\<rparr>)
        (replicate n \<lparr>cq_shut_down = False, cq_thread = Some Joinable\<rparr>))"
    by (rule qt.shutdown_started) (simp add: list_all_iff)
  then show ?thesis by (simp add: Pool_Shutdown_def pool_of_def)
qed

text \<open>The contract as a function of what a user sees.\<close>

definition pool_spec :: "pool_op \<Rightarrow> nat \<times> bool \<Rightarrow> (nat \<times> bool) result" where
  "pool_spec x s =
     (case (x, s) of
        (OpSetNumber m, (n, running)) \<Rightarrow>
          if running then Inl (CheckFailed ''Can't change number of completion queues after initialization.'')
          else if m = 0 then Inl (CheckFailed ''number_completion_queues > 0'') else Inr (m, False)
      | (OpGet _, (n, _)) \<Rightarrow> Inr (n, True)
      | (OpStart, (n, _)) \<Rightarrow> Inr (n, True)
      | (OpShutdown, (n, _)) \<Rightarrow> Inr (n, False))"

lemma pool_step:
  assumes "0 < fst s"
  shows "pool_exec x (case_prod pool_of s) = map_sum id (case_prod pool_of) (pool_spec x s) \<and>
    (\<forall>s'. pool_spec x s = Inr s' \<longrightarrow> 0 < fst s')"
proof -
  obtain n running where s: "s = (n, running)" by (cases s)
  have set: "SetNumberCompletionQueues m (pool_of n running) =
      (if running then Inl (CheckFailed ''Can't change number of completion queues after initialization.'')
       else if m = 0 then Inl (CheckFailed ''number_completion_queues > 0'') else Inr (pool_of m False))" for m
    by (simp add: SetNumberCompletionQueues_def pool_of_def check_def)
  from assms s Get_pool(1) [of n _ running] set show ?thesis
    by (cases x) (auto simp: pool_exec_def pool_spec_def Pool_Start_def Initialize_pool Shutdown_pool)
qed

lemma pool_run:
  "0 < fst s \<Longrightarrow> run_of pool_exec (\<lambda>_ _. True) xs (case_prod pool_of s) =
     map_option (map_sum id (case_prod pool_of)) (run_of pool_spec (\<lambda>_ _. True) xs s) \<and>
   (\<forall>s'. run_of pool_spec (\<lambda>_ _. True) xs s = Some (Inr s') \<longrightarrow> 0 < fst s')"
proof (induction xs arbitrary: s)
  case (Cons x xs)
  note step = pool_step [OF Cons.prems, of x]
  show ?case
  proof (cases "pool_spec x s")
    case (Inr s')
    with step have "0 < fst s'" by blast
    from Cons.IH [OF this] Inr step show ?thesis by simp
  qed (use step in simp)
qed simp

section \<open>Properties\<close>

text \<open>C25. The pool implements its contract, for any sequence of calls from the start of the process: with the number
  of queues it has been given (two by default) and whether it runs as the abstract state, every
  call has the result and the effect of \<open>pool_spec\<close>. In particular starting and getting a queue start the
  queues if needed and never fail, shutting down is always possible, any number of times, and the
  pool can be used again after it; the number can be changed exactly while the pool does not run,
  and not to zero.\<close>

theorem pool_refines_spec:
  "run_of pool_exec (\<lambda>_ _. True) xs (completion_queue_pool None) =
     map_option (map_sum id (case_prod pool_of)) (run_of pool_spec (\<lambda>_ _. True) xs (2, False))"
  using pool_run [of "(2, False)" xs] by (simp add: completion_queue_pool_def new_pool)

text \<open>C26. \<open>GetCompletionQueue\<close> always returns one of the pool's queues, whose thread is running, for any
  random number and in every state the pool can be in.\<close>

theorem GetCompletionQueue_running:
  assumes "run_of pool_exec (\<lambda>_ _. True) xs new_CompletionQueuePool = Some (Inr pool)"
  shows "\<exists>qid pool'. GetCompletionQueue rand pool = Inr (qid, pool') \<and>
    qid < length (completion_queues pool') \<and> length (completion_queues pool') = number_completion_queues pool \<and>
    completion_queues pool' ! qid = \<lparr>cq_shut_down = False, cq_thread = Some Joinable\<rparr>"
proof -
  let ?spec = "run_of pool_spec (\<lambda>_ _. True) xs (2, False)"
  have run: "map_option (map_sum id (case_prod pool_of)) ?spec = Some (Inr pool)"
    and pos: "\<forall>s'. ?spec = Some (Inr s') \<longrightarrow> 0 < fst s'"
    using assms pool_run [of "(2, False)" xs] by (simp_all add: new_pool)
  from run pos obtain s' where "pool = case_prod pool_of s'" "0 < fst s'"
    unfolding map_option_eq_Some map_sum_Inr by blast
  then obtain n running where "pool = pool_of n running" "0 < n" by (cases s') simp
  with Get_pool(1) [of n rand running] Get_pool(2) [of n rand] show ?thesis by (simp add: pool_of_def)
qed

theorem GetCompletionQueue_running_witness:
  "run_of pool_exec (\<lambda>_ _. True) [OpSetNumber 3, OpStart, OpShutdown] new_CompletionQueuePool =
     Some (Inr (pool_of 3 False)) \<and>
   (\<exists>qid pool'. GetCompletionQueue 7 (pool_of 3 False) = Inr (qid, pool') \<and> qid < length (completion_queues pool'))"
proof -
  have run: "run_of pool_exec (\<lambda>_ _. True) [OpSetNumber 3, OpStart, OpShutdown] new_CompletionQueuePool =
     Some (Inr (pool_of 3 False))"
    using pool_step [of "(2, False)" "OpSetNumber 3"] pool_step [of "(3, False)" OpStart]
      pool_step [of "(3, True)" OpShutdown]
    by (simp add: new_pool pool_spec_def)
  from run GetCompletionQueue_running [OF run, of 7] show ?thesis by blast
qed

end
