(* ===== verification/Async_Client.thy ===== *)
theory Async_Client
  imports Completion_Queue_Pool Grpc_Types
begin

text \<open>
  The asynchronous clients of \<open>src/async_grpc/async_client.h\<close> and the loop of the pool's threads that
  calls them (\<open>CompletionQueue::RunCompletionQueue\<close>). The user's callback is recorded: \<open>callbacks\<close> lists
  its calls, with the status and the response they were given. gRPC's side is the list of calls made
  on it, the operations it still has to announce, and what it announces: an operation, whether it
  succeeded, and the message or status it has written for the program.
\<close>

section \<open>Events\<close>

datatype ClientEventKind = Client_FINISH | Client_READ | Client_WRITE

record ClientEvent =
  ce_event :: ClientEventKind
  ce_ok :: bool

definition new_ClientEvent :: "ClientEventKind \<Rightarrow> ClientEvent" where
  "new_ClientEvent event = \<lparr>ce_event = event, ce_ok = False\<rparr>"

datatype 'q async_call = Async_StartCall 'q nat | Async_Read | Async_Finish

text \<open>An announcement: the operation, its success, a message and a status.\<close>

datatype 'p announcement = Announcement ClientEventKind bool 'p Status

section \<open>Unary calls\<close>

record ('q, 'p) AsyncUnaryClient =
  au_callback :: bool
  au_completion_queue :: nat
  au_response_reader :: bool
  au_finish_event :: ClientEvent
  au_status :: Status
  au_response :: 'p
  au_callbacks :: "(Status \<times> 'p option) list"
  au_calls :: "'q async_call list"
  au_outstanding :: "ClientEventKind list"

text \<open>The constructor takes a queue of the pool.\<close>

definition new_AsyncUnaryClient ::
  "'p \<Rightarrow> bool \<Rightarrow> nat \<Rightarrow> CompletionQueuePool \<Rightarrow> (('q, 'p) AsyncUnaryClient \<times> CompletionQueuePool) result" where
  "new_AsyncUnaryClient blank callback rand pool =
     bind_r (GetCompletionQueue rand pool) (\<lambda>(q, pool).
       Inr (\<lparr>au_callback = callback, au_completion_queue = q, au_response_reader = False,
          au_finish_event = new_ClientEvent Client_FINISH, au_status = Status_OK, au_response = blank,
          au_callbacks = [], au_calls = [], au_outstanding = []\<rparr>, pool))"

definition WriteAsync_u :: "'q \<Rightarrow> ('q, 'p) AsyncUnaryClient \<Rightarrow> ('q, 'p) AsyncUnaryClient" where
  "WriteAsync_u request c =
     c\<lparr>au_response_reader := True,
       au_calls := au_calls c @ [Async_StartCall request (au_completion_queue c), Async_Finish],
       au_outstanding := au_outstanding c @ [Client_FINISH]\<rparr>"

definition HandleFinishEvent_u :: "('q, 'p) AsyncUnaryClient cmd" where
  "HandleFinishEvent_u c = Inr
     (if au_callback c
      then c\<lparr>au_callbacks := au_callbacks c @
        [(au_status c, if status_ok (au_status c) then Some (au_response c) else None)]\<rparr>
      else c)"

definition HandleEvent_u :: "ClientEvent \<Rightarrow> ('q, 'p) AsyncUnaryClient cmd" where
  "HandleEvent_u e c =
     (case ce_event e of Client_FINISH \<Rightarrow> HandleFinishEvent_u c
      | _ \<Rightarrow> Inl (LogFatal ''Unhandled event type''))"

text \<open>gRPC has written the response and the status before it announces the end of the call.\<close>

definition RunCompletionQueue_u :: "'p announcement \<Rightarrow> ('q, 'p) AsyncUnaryClient cmd" where
  "RunCompletionQueue_u a c =
     (case a of Announcement event ok response status \<Rightarrow>
        let c = c\<lparr>au_outstanding := remove1 event (au_outstanding c), au_response := response,
                  au_status := status\<rparr>;
            e = (au_finish_event c)\<lparr>ce_ok := ok\<rparr>
        in HandleEvent_u e (c\<lparr>au_finish_event := e\<rparr>))"

section \<open>Server streaming\<close>

record ('q, 'p) AsyncStreamClient =
  as_callback :: bool
  as_completion_queue :: nat
  as_response_reader :: bool
  as_write_event :: ClientEvent
  as_read_event :: ClientEvent
  as_finish_event :: ClientEvent
  as_response :: 'p
  as_finish_status :: Status
  as_callbacks :: "(Status \<times> 'p option) list"
  as_calls :: "'q async_call list"
  as_outstanding :: "ClientEventKind list"

definition new_AsyncStreamClient ::
  "'p \<Rightarrow> bool \<Rightarrow> nat \<Rightarrow> CompletionQueuePool \<Rightarrow> (('q, 'p) AsyncStreamClient \<times> CompletionQueuePool) result" where
  "new_AsyncStreamClient blank callback rand pool =
     bind_r (GetCompletionQueue rand pool) (\<lambda>(q, pool).
       Inr (\<lparr>as_callback = callback, as_completion_queue = q, as_response_reader = False,
          as_write_event = new_ClientEvent Client_WRITE, as_read_event = new_ClientEvent Client_READ,
          as_finish_event = new_ClientEvent Client_FINISH, as_response = blank,
          as_finish_status = Status_OK, as_callbacks = [], as_calls = [], as_outstanding = []\<rparr>, pool))"

text \<open>The call is started with the write event as its tag.\<close>

definition WriteAsync_s :: "'q \<Rightarrow> ('q, 'p) AsyncStreamClient \<Rightarrow> ('q, 'p) AsyncStreamClient" where
  "WriteAsync_s request c =
     c\<lparr>as_response_reader := True,
       as_calls := as_calls c @ [Async_StartCall request (as_completion_queue c)],
       as_outstanding := as_outstanding c @ [Client_WRITE]\<rparr>"

text \<open>\<open>response_reader_->Read\<close> and \<open>response_reader_->Finish\<close>.\<close>

definition reader_call :: "'q async_call \<Rightarrow> ClientEventKind \<Rightarrow> ('q, 'p) AsyncStreamClient cmd" where
  "reader_call call event c =
     (if as_response_reader c
      then Inr (c\<lparr>as_calls := as_calls c @ [call], as_outstanding := as_outstanding c @ [event]\<rparr>)
      else Inl NullDereference)"

definition call_back :: "Status \<Rightarrow> 'p option \<Rightarrow> ('q, 'p) AsyncStreamClient \<Rightarrow> ('q, 'p) AsyncStreamClient" where
  "call_back status response c = c\<lparr>as_callbacks := as_callbacks c @ [(status, response)]\<rparr>"

definition write_failed :: Status where
  "write_failed = \<lparr>error_code = INTERNAL, error_message = ''Write failed in async server streaming.''\<rparr>"

definition finish_failed :: Status where
  "finish_failed = \<lparr>error_code = INTERNAL, error_message = ''Finish failed in async server streaming.''\<rparr>"

definition HandleWriteEvent :: "ClientEvent \<Rightarrow> ('q, 'p) AsyncStreamClient cmd" where
  "HandleWriteEvent e c =
     (if \<not> ce_ok e
      then block
        [(\<lambda>c. Inr (if as_callback c then (call_back write_failed None c)\<lparr>as_callback := False\<rparr> else c)),
         (\<lambda>c. Inr (c\<lparr>as_finish_status := write_failed\<rparr>)),
         reader_call Async_Finish Client_FINISH] c
      else reader_call Async_Read Client_READ c)"

definition HandleReadEvent :: "ClientEvent \<Rightarrow> ('q, 'p) AsyncStreamClient cmd" where
  "HandleReadEvent e c =
     (if ce_ok e
      then block
        [(\<lambda>c. Inr (if as_callback c
            then (let c = call_back Status_OK (Some (as_response c)) c in
                  if \<not> ce_ok e then c\<lparr>as_callback := False\<rparr> else c)
            else c)),
         reader_call Async_Read Client_READ] c
      else block
        [(\<lambda>c. Inr (c\<lparr>as_finish_status := Status_OK\<rparr>)),
         reader_call Async_Finish Client_FINISH] c)"

definition HandleFinishEvent_s :: "ClientEvent \<Rightarrow> ('q, 'p) AsyncStreamClient cmd" where
  "HandleFinishEvent_s e c = Inr
     (if as_callback c
      then (call_back (if ce_ok e then Status_OK else finish_failed) None c)\<lparr>as_callback := False\<rparr>
      else c)"

definition HandleEvent_s :: "ClientEvent \<Rightarrow> ('q, 'p) AsyncStreamClient cmd" where
  "HandleEvent_s e c =
     (case ce_event e of
        Client_WRITE \<Rightarrow> HandleWriteEvent e c
      | Client_READ \<Rightarrow> HandleReadEvent e c
      | Client_FINISH \<Rightarrow> HandleFinishEvent_s e c)"

text \<open>
  gRPC has written a received message into \<open>response_\<close> before it announces a successful read, and the
  status the server finished with into \<open>finish_status_\<close> before it announces the end of the call.
\<close>

definition RunCompletionQueue_s :: "'p announcement \<Rightarrow> ('q, 'p) AsyncStreamClient cmd" where
  "RunCompletionQueue_s a c =
     (case a of Announcement event ok response status \<Rightarrow>
        let c = c\<lparr>as_outstanding := remove1 event (as_outstanding c)\<rparr> in
        (case event of
           Client_WRITE \<Rightarrow>
             let e = (as_write_event c)\<lparr>ce_ok := ok\<rparr> in HandleEvent_s e (c\<lparr>as_write_event := e\<rparr>)
         | Client_READ \<Rightarrow>
             let e = (as_read_event c)\<lparr>ce_ok := ok\<rparr>;
                 c = (if ok then c\<lparr>as_response := response\<rparr> else c)
             in HandleEvent_s e (c\<lparr>as_read_event := e\<rparr>)
         | Client_FINISH \<Rightarrow>
             let e = (as_finish_event c)\<lparr>ce_ok := ok\<rparr>
             in HandleEvent_s e (c\<lparr>as_finish_event := e, as_finish_status := status\<rparr>)))"

section \<open>What gRPC may announce\<close>

fun announced_kind :: "'p announcement \<Rightarrow> ClientEventKind" where
  "announced_kind (Announcement event ok response status) = event"

definition may_announce_u :: "'p announcement \<Rightarrow> ('q, 'p) AsyncUnaryClient \<Rightarrow> bool" where
  "may_announce_u a c \<longleftrightarrow> announced_kind a \<in> set (au_outstanding c)"

definition may_announce_s :: "'p announcement \<Rightarrow> ('q, 'p) AsyncStreamClient \<Rightarrow> bool" where
  "may_announce_s a c \<longleftrightarrow> announced_kind a \<in> set (as_outstanding c)"




section \<open>The phases of a stream\<close>

text \<open>One operation is outstanding at a time; \<open>cb\<close> says whether the callback is still set.\<close>

definition in_phase :: "ClientEventKind list \<Rightarrow> bool \<Rightarrow> ('q, 'p) AsyncStreamClient \<Rightarrow> bool" where
  "in_phase out cb c \<longleftrightarrow>
     as_outstanding c = out \<and> as_callback c = cb \<and> as_response_reader c \<and>
     ce_event (as_write_event c) = Client_WRITE \<and> ce_event (as_read_event c) = Client_READ \<and>
     ce_event (as_finish_event c) = Client_FINISH"

lemmas async_defs = RunCompletionQueue_s_def HandleEvent_s_def HandleWriteEvent_def HandleReadEvent_def
  HandleFinishEvent_s_def reader_call_def call_back_def in_phase_def Let_def










section \<open>Properties\<close>

text \<open>C24. An asynchronous unary call calls its callback exactly once, when gRPC announces the end of the
  call, with the status of the call, and with the response exactly when that status is OK; no other
  event can reach the client and it does not fail.\<close>

theorem async_unary_result:
  assumes "new_AsyncUnaryClient blank True rand pool = Inr (c, pool')"
    and "run_of RunCompletionQueue_u may_announce_u as (WriteAsync_u request c) = Some res"
  shows "\<exists>c'. res = Inr c' \<and>
    au_calls c' = [Async_StartCall request (au_completion_queue c), Async_Finish] \<and>
    (as = [] \<and> au_callbacks c' = [] \<and> au_outstanding c' = [Client_FINISH] \<or>
     (\<exists>ok response status. as = [Announcement Client_FINISH ok response status] \<and> au_outstanding c' = [] \<and>
        au_callbacks c' = [(status, if status_ok status then Some response else None)]))"
proof -
  have c: "au_outstanding c = []" "au_callback c" "au_callbacks c = []" "au_calls c = []"
    "ce_event (au_finish_event c) = Client_FINISH"
    using assms(1) by (auto simp: new_AsyncUnaryClient_def bind_r_Inr_iff new_ClientEvent_def)
  show ?thesis
  proof (cases as)
    case (Cons a as')
    obtain event ok response status where a: "a = Announcement event ok response status" by (cases a)
    with assms(2) Cons c have ev: "event = Client_FINISH"
      by (auto simp: may_announce_u_def WriteAsync_u_def split: if_splits)
    obtain c' where 1: "RunCompletionQueue_u a (WriteAsync_u request c) = Inr c'" "au_outstanding c' = []"
      "au_callbacks c' = [(status, if status_ok status then Some response else None)]"
      "au_calls c' = [Async_StartCall request (au_completion_queue c), Async_Finish]"
      using c a ev by (auto simp: RunCompletionQueue_u_def HandleEvent_u_def HandleFinishEvent_u_def
          WriteAsync_u_def Let_def)
    with assms(2) Cons have "run_of RunCompletionQueue_u may_announce_u as' c' = Some res"
      by (auto split: if_splits)
    with 1(2) have "as' = []" "res = Inr c'"
      by (cases as'; auto simp: may_announce_u_def split: if_splits)+
    with 1 Cons a ev show ?thesis by simp
  qed (use assms(2) c in \<open>auto simp: WriteAsync_u_def\<close>)
qed

theorem async_unary_result_witness:
  "\<exists>c pool' c'. new_AsyncUnaryClient 0 True 5 new_CompletionQueuePool = Inr (c, pool') \<and>
     run_of RunCompletionQueue_u may_announce_u [Announcement Client_FINISH True (49 :: int) Status_OK]
       (WriteAsync_u ''q'' c) = Some (Inr c') \<and> au_callbacks c' = [(Status_OK, Some 49)]"
proof -
  obtain c :: "(string, int) AsyncUnaryClient" and pool' where
    c: "new_AsyncUnaryClient 0 True 5 new_CompletionQueuePool = Inr (c, pool')"
    "au_outstanding c = []" "au_finish_event c = new_ClientEvent Client_FINISH"
    by (simp add: new_AsyncUnaryClient_def new_pool Get_pool(1))
  then have "\<exists>c'. run_of RunCompletionQueue_u may_announce_u [Announcement Client_FINISH True 49 Status_OK]
       (WriteAsync_u ''q'' c) = Some (Inr c')"
    by (simp add: may_announce_u_def WriteAsync_u_def RunCompletionQueue_u_def HandleEvent_u_def
        HandleFinishEvent_u_def new_ClientEvent_def Let_def)
  then obtain c' where run: "run_of RunCompletionQueue_u may_announce_u
      [Announcement Client_FINISH True 49 Status_OK] (WriteAsync_u ''q'' c) = Some (Inr c')" by blast
  from async_unary_result [OF c(1) run] c(1) run show ?thesis by auto
qed



text \<open>The end of a stream is reported as OK whatever status the server has finished the call with: the
  status gRPC has written is not looked at.\<close>

lemma async_stream_hides_status:
  "\<exists>c pool' c'. new_AsyncStreamClient blank True rand new_CompletionQueuePool = Inr (c, pool') \<and>
     run_of RunCompletionQueue_s may_announce_s
       [Announcement Client_WRITE True blank Status_OK, Announcement Client_READ False blank Status_OK,
        Announcement Client_FINISH True blank status] (WriteAsync_s request c) = Some (Inr c') \<and>
     as_finish_status c' = status \<and> as_callbacks c' = [(Status_OK, None)]"
  by (simp add: new_AsyncStreamClient_def new_pool Get_pool(1) may_announce_s_def WriteAsync_s_def
      async_defs new_ClientEvent_def)

end
