(* ===== verification/Mutex.thy ===== *)
theory Mutex
  imports Blocking_Queue
begin

text \<open>
  \<open>src/async_grpc/common/mutex.h\<close>: a mutex with a condition variable, locked through a \<open>Locker\<close> that
  waits for predicates and, in its destructor, unlocks and then notifies all waiting threads. Every
  use of it in the sources is one scope: lock, perhaps \<open>Await\<close> or \<open>AwaitWithTimeout\<close>, a body,
  and the destructor. A scope is a \<open>critical_section\<close>; threads take the steps of their scopes in any
  interleaving, with spurious wake-ups, and a timeout whenever a timed wait sleeps.

  The invariant gives mutual exclusion, that no wake-up is lost, and that the steps implement
  scopes that happen at one instant. The calls of \<open>BlockingQueue\<close> are the instance: it is what allows
  \<open>Blocking_Queue\<close> to describe each of them as one function.
\<close>

section \<open>Scopes\<close>

text \<open>\<open>late\<close> is what a timed scope returns when its predicate is still false after the timeout.\<close>

record ('s, 'r) critical_section =
  awaits :: "'s \<Rightarrow> bool"
  timed :: bool
  body :: "'s \<Rightarrow> 'r \<times> 's"
  late :: 'r

text \<open>
  Where a thread is: before the lock, in it and about to test its predicate (again after a timeout or
  not), asleep, about to lock again, in the lock with a true predicate, in the lock with its result,
  unlocked but still to notify, finished.
\<close>

datatype 'r pc = Outside | Testing bool | Sleeping | Waking bool | InBody | Leaving 'r | Notifying 'r | Done 'r

record ('s, 'r) monitor =
  shared :: 's
  owner :: "nat option"
  pcs :: "nat \<Rightarrow> 'r pc"
  log :: "(nat \<times> 'r) list"

definition new_monitor :: "'s \<Rightarrow> ('s, 'r) monitor" where
  "new_monitor s = \<lparr>shared = s, owner = None, pcs = (\<lambda>_. Outside), log = []\<rparr>"

section \<open>Steps\<close>

definition set_pc :: "nat \<Rightarrow> 'r pc \<Rightarrow> ('s, 'r) monitor \<Rightarrow> ('s, 'r) monitor" where
  "set_pc t p m = m\<lparr>pcs := (pcs m)(t := p)\<rparr>"

text \<open>The constructor of \<open>Locker\<close>, and the lock that a wait takes again.\<close>

definition Locker_lock :: "nat \<Rightarrow> ('s, 'r) monitor \<Rightarrow> ('s, 'r) monitor" where
  "Locker_lock t m =
     (set_pc t (case pcs m t of Waking b \<Rightarrow> Testing b | _ \<Rightarrow> Testing False) m)\<lparr>owner := Some t\<rparr>"

text \<open>
  One test of the predicate in \<open>wait\<close> or \<open>wait_for\<close>: go on if it holds, give up if it does not and the
  time is over, otherwise unlock and sleep.
\<close>

definition Await_test ::
  "(nat \<Rightarrow> ('s, 'r) critical_section) \<Rightarrow> nat \<Rightarrow> ('s, 'r) monitor \<Rightarrow> ('s, 'r) monitor" where
  "Await_test prog t m =
     (if awaits (prog t) (shared m) then set_pc t InBody m
      else if pcs m t = Testing True
      then (set_pc t (Leaving (late (prog t))) m)\<lparr>log := log m @ [(t, late (prog t))]\<rparr>
      else (set_pc t Sleeping m)\<lparr>owner := None\<rparr>)"

definition run_body ::
  "(nat \<Rightarrow> ('s, 'r) critical_section) \<Rightarrow> nat \<Rightarrow> ('s, 'r) monitor \<Rightarrow> ('s, 'r) monitor" where
  "run_body prog t m =
     (case body (prog t) (shared m) of (r, s) \<Rightarrow>
        (set_pc t (Leaving r) m)\<lparr>shared := s, log := log m @ [(t, r)]\<rparr>)"

text \<open>The two statements of the destructor of \<open>Locker\<close>.\<close>

definition Locker_unlock :: "nat \<Rightarrow> ('s, 'r) monitor \<Rightarrow> ('s, 'r) monitor" where
  "Locker_unlock t m = (case pcs m t of Leaving r \<Rightarrow> (set_pc t (Notifying r) m)\<lparr>owner := None\<rparr> | _ \<Rightarrow> m)"

definition Locker_notify_all :: "nat \<Rightarrow> ('s, 'r) monitor \<Rightarrow> ('s, 'r) monitor" where
  "Locker_notify_all t m =
     (case pcs m t of
        Notifying r \<Rightarrow> m\<lparr>pcs := (\<lambda>u. if u = t then Done r else if pcs m u = Sleeping then Waking False else pcs m u)\<rparr>
      | _ \<Rightarrow> m)"

datatype monitor_step =
    Lock nat | Test nat | Run nat | Unlock nat | Notify nat | SpuriousWake nat | TimeOut nat

fun monitor_exec ::
  "(nat \<Rightarrow> ('s, 'r) critical_section) \<Rightarrow> monitor_step \<Rightarrow> ('s, 'r) monitor cmd" where
  "monitor_exec prog (Lock t) m = Inr (Locker_lock t m)"
| "monitor_exec prog (Test t) m = Inr (Await_test prog t m)"
| "monitor_exec prog (Run t) m = Inr (run_body prog t m)"
| "monitor_exec prog (Unlock t) m = Inr (Locker_unlock t m)"
| "monitor_exec prog (Notify t) m = Inr (Locker_notify_all t m)"
| "monitor_exec prog (SpuriousWake t) m = Inr (set_pc t (Waking False) m)"
| "monitor_exec prog (TimeOut t) m = Inr (set_pc t (Waking True) m)"

fun monitor_enabled ::
  "(nat \<Rightarrow> ('s, 'r) critical_section) \<Rightarrow> monitor_step \<Rightarrow> ('s, 'r) monitor \<Rightarrow> bool" where
  "monitor_enabled prog (Lock t) m \<longleftrightarrow>
     owner m = None \<and> (case pcs m t of Outside \<Rightarrow> True | Waking _ \<Rightarrow> True | _ \<Rightarrow> False)"
| "monitor_enabled prog (Test t) m \<longleftrightarrow> (case pcs m t of Testing _ \<Rightarrow> True | _ \<Rightarrow> False)"
| "monitor_enabled prog (Run t) m \<longleftrightarrow> pcs m t = InBody"
| "monitor_enabled prog (Unlock t) m \<longleftrightarrow> (case pcs m t of Leaving _ \<Rightarrow> True | _ \<Rightarrow> False)"
| "monitor_enabled prog (Notify t) m \<longleftrightarrow> (case pcs m t of Notifying _ \<Rightarrow> True | _ \<Rightarrow> False)"
| "monitor_enabled prog (SpuriousWake t) m \<longleftrightarrow> pcs m t = Sleeping"
| "monitor_enabled prog (TimeOut t) m \<longleftrightarrow> pcs m t = Sleeping \<and> timed (prog t)"

section \<open>The invariant\<close>

text \<open>A scope as one function of the shared state; \<open>None\<close> when it would have to wait.\<close>

definition atomic :: "('s, 'r) critical_section \<Rightarrow> 's \<Rightarrow> ('r \<times> 's) option" where
  "atomic c s = (if awaits c s then Some (body c s) else if timed c then Some (late c, s) else None)"

text \<open>The scopes of a log, executed one after the other with the results it says.\<close>

fun replay :: "(nat \<Rightarrow> ('s, 'r) critical_section) \<Rightarrow> (nat \<times> 'r) list \<Rightarrow> 's \<Rightarrow> 's option" where
  "replay prog [] s = Some s"
| "replay prog ((t, r) # l) s =
     (case atomic (prog t) s of None \<Rightarrow> None | Some (r', s') \<Rightarrow> if r' = r then replay prog l s' else None)"

lemma replay_append:
  "replay prog (l @ l') s = (case replay prog l s of None \<Rightarrow> None | Some s' \<Rightarrow> replay prog l' s')"
  by (induction l arbitrary: s) (auto split: option.splits)

fun holds_lock :: "'r pc \<Rightarrow> bool" where
  "holds_lock (Testing _) = True"
| "holds_lock InBody = True"
| "holds_lock (Leaving _) = True"
| "holds_lock _ = False"

fun will_notify :: "'r pc \<Rightarrow> bool" where
  "will_notify (Leaving _) = True"
| "will_notify (Notifying _) = True"
| "will_notify _ = False"

fun result_of :: "'r pc \<Rightarrow> 'r option" where
  "result_of (Leaving r) = Some r"
| "result_of (Notifying r) = Some r"
| "result_of (Done r) = Some r"
| "result_of _ = None"

definition monitor_inv :: "(nat \<Rightarrow> ('s, 'r) critical_section) \<Rightarrow> 's \<Rightarrow> ('s, 'r) monitor \<Rightarrow> bool" where
  "monitor_inv prog s0 m \<longleftrightarrow>
     (\<forall>t. holds_lock (pcs m t) \<longleftrightarrow> owner m = Some t) \<and>
     (\<forall>t. pcs m t = InBody \<longrightarrow> awaits (prog t) (shared m)) \<and>
     (\<forall>t. pcs m t = Testing True \<or> pcs m t = Waking True \<longrightarrow> timed (prog t)) \<and>
     (\<forall>t. pcs m t = Sleeping \<and> awaits (prog t) (shared m) \<longrightarrow> (\<exists>u. will_notify (pcs m u))) \<and>
     replay prog (log m) s0 = Some (shared m) \<and>
     (\<forall>t r. (t, r) \<in> set (log m) \<longleftrightarrow> result_of (pcs m t) = Some r) \<and>
     distinct (map fst (log m))"

lemmas monitor_defs = Locker_lock_def Await_test_def run_body_def Locker_unlock_def Locker_notify_all_def
  set_pc_def

lemma new_monitor_inv: "monitor_inv prog s (new_monitor s)"
  by (simp add: monitor_inv_def new_monitor_def)

lemma monitor_inv_D:
  assumes "monitor_inv prog s0 m"
  shows "holds_lock (pcs m t) \<longleftrightarrow> owner m = Some t"
    and "pcs m t = InBody \<Longrightarrow> awaits (prog t) (shared m)"
    and "pcs m t = Testing True \<or> pcs m t = Waking True \<Longrightarrow> timed (prog t)"
    and "pcs m t = Sleeping \<Longrightarrow> awaits (prog t) (shared m) \<Longrightarrow> \<exists>u. will_notify (pcs m u)"
    and "replay prog (log m) s0 = Some (shared m)"
    and "(t, r) \<in> set (log m) \<longleftrightarrow> result_of (pcs m t) = Some r"
    and "distinct (map fst (log m))"
  using assms unfolding monitor_inv_def by blast+

text \<open>A step that changes one thread's place and neither the shared state nor the log.\<close>

lemma monitor_inv_move:
  assumes inv: "monitor_inv prog s0 m"
    and m': "m' = m\<lparr>pcs := (pcs m)(t := p), owner := w\<rparr>"
    and lock: "holds_lock p \<longleftrightarrow> w = Some t" "\<And>u. u \<noteq> t \<Longrightarrow> w = Some u \<longleftrightarrow> owner m = Some u"
    and body: "p = InBody \<Longrightarrow> awaits (prog t) (shared m)"
    and late: "p = Testing True \<or> p = Waking True \<Longrightarrow> timed (prog t)"
    and sleep: "p = Sleeping \<Longrightarrow> \<not> awaits (prog t) (shared m)"
    and notify: "will_notify (pcs m t) \<Longrightarrow> will_notify p"
    and res: "result_of p = result_of (pcs m t)"
  shows "monitor_inv prog s0 m'"
proof -
  have L: "\<forall>u. holds_lock (pcs m' u) \<longleftrightarrow> owner m' = Some u"
    using monitor_inv_D(1) [OF inv] lock by (auto simp: m')
  have S: "\<exists>v. will_notify (pcs m' v)" if "pcs m' u = Sleeping" "awaits (prog u) (shared m')" for u
  proof -
    have "u \<noteq> t" using that sleep by (auto simp: m')
    with that monitor_inv_D(4) [OF inv, of u] obtain v where "will_notify (pcs m v)" by (auto simp: m')
    with notify show ?thesis by (cases "v = t") (auto simp: m')
  qed
  have R: "\<forall>u r. (u, r) \<in> set (log m') \<longleftrightarrow> result_of (pcs m' u) = Some r"
    using monitor_inv_D(6) [OF inv] res by (simp add: m')
  have "\<forall>u. pcs m' u = InBody \<longrightarrow> awaits (prog u) (shared m')"
    and "\<forall>u. pcs m' u = Testing True \<or> pcs m' u = Waking True \<longrightarrow> timed (prog u)"
    and "replay prog (log m') s0 = Some (shared m')" "distinct (map fst (log m'))"
    using monitor_inv_D(2,3,5,7) [OF inv] body late by (simp_all add: m')
  with L S R show ?thesis unfolding monitor_inv_def by blast
qed

lemma monitor_inv_move_same:
  assumes "monitor_inv prog s0 m" and "holds_lock p = holds_lock (pcs m t)"
    and "p = InBody \<Longrightarrow> awaits (prog t) (shared m)"
    and "p = Testing True \<or> p = Waking True \<Longrightarrow> timed (prog t)"
    and "p \<noteq> Sleeping" and "\<not> will_notify (pcs m t)" and "result_of p = result_of (pcs m t)"
  shows "monitor_inv prog s0 (m\<lparr>pcs := (pcs m)(t := p)\<rparr>)"
proof -
  have "m\<lparr>pcs := (pcs m)(t := p)\<rparr> = m\<lparr>pcs := (pcs m)(t := p), owner := owner m\<rparr>" by simp
  from monitor_inv_move [OF assms(1) this] assms monitor_inv_D(1) [OF assms(1), of t] show ?thesis by simp
qed

text \<open>A step in the lock that appends to the log.\<close>

lemma monitor_inv_log:
  assumes inv: "monitor_inv prog s0 m" and held: "holds_lock (pcs m t)" and new: "result_of (pcs m t) = None"
    and m': "m' = m\<lparr>pcs := (pcs m)(t := Leaving r), shared := s, log := log m @ [(t, r)]\<rparr>"
    and at: "atomic (prog t) (shared m) = Some (r, s)"
  shows "monitor_inv prog s0 m'"
proof -
  have own: "owner m = Some t" using held monitor_inv_D(1) [OF inv] by simp
  then have others: "\<not> holds_lock (pcs m u)" if "u \<noteq> t" for u
    using monitor_inv_D(1) [OF inv, of u] that by simp
  have "replay prog (log m') s0 = Some (shared m')"
    using monitor_inv_D(5) [OF inv] at by (simp add: m' replay_append)
  moreover have "\<forall>u v. (u, v) \<in> set (log m') \<longleftrightarrow> result_of (pcs m' u) = Some v"
    using monitor_inv_D(6) [OF inv] new by (auto simp: m')
  moreover have "distinct (map fst (log m'))"
    using monitor_inv_D(6,7) [OF inv] new by (auto simp: m')
  moreover have "\<forall>u. holds_lock (pcs m' u) \<longleftrightarrow> owner m' = Some u"
    using monitor_inv_D(1) [OF inv] own by (auto simp: m')
  moreover have "pcs m' u \<noteq> InBody" for u
    using others [of u] by (cases "u = t") (auto simp: m')
  moreover have "will_notify (pcs m' t)" by (simp add: m')
  ultimately show ?thesis
    unfolding monitor_inv_def using monitor_inv_D(3) [OF inv] by (auto simp: m')
qed

lemma monitor_step_inv:
  assumes inv: "monitor_inv prog s0 m" and en: "monitor_enabled prog l m"
  shows "\<exists>m'. monitor_exec prog l m = Inr m' \<and> monitor_inv prog s0 m'"
proof (cases l)
  case (Lock t)
  with en have o: "owner m = None" and p: "pcs m t = Outside \<or> (\<exists>b. pcs m t = Waking b)"
    by (auto split: pc.splits)
  let ?p = "case pcs m t of Waking b \<Rightarrow> Testing b | _ \<Rightarrow> Testing False"
  have "monitor_inv prog s0 (m\<lparr>pcs := (pcs m)(t := ?p), owner := Some t\<rparr>)"
    by (rule monitor_inv_move [OF inv refl]) (use p o monitor_inv_D(3) [OF inv, of t] in auto)
  then show ?thesis using Lock by (simp add: monitor_defs)
next
  case (Test t)
  with en obtain b where p: "pcs m t = Testing b" by (auto split: pc.splits)
  then have o: "owner m = Some t" using monitor_inv_D(1) [OF inv, of t] by simp
  consider "awaits (prog t) (shared m)" | "\<not> awaits (prog t) (shared m)" "b" | "\<not> awaits (prog t) (shared m)" "\<not> b"
    by blast
  then have "monitor_inv prog s0 (Await_test prog t m)"
  proof cases
    case 1
    have "monitor_inv prog s0 (m\<lparr>pcs := (pcs m)(t := InBody)\<rparr>)"
      by (rule monitor_inv_move_same [OF inv]) (use 1 p in auto)
    then show ?thesis using 1 by (simp add: monitor_defs)
  next
    case 2
    have "atomic (prog t) (shared m) = Some (late (prog t), shared m)"
      using 2 p monitor_inv_D(3) [OF inv, of t] by (simp add: atomic_def)
    from monitor_inv_log [OF inv _ _ refl this] p have
      "monitor_inv prog s0 (m\<lparr>pcs := (pcs m)(t := Leaving (late (prog t))), shared := shared m,
         log := log m @ [(t, late (prog t))]\<rparr>)" by simp
    then show ?thesis using 2 p by (simp add: monitor_defs)
  next
    case 3
    have "monitor_inv prog s0 (m\<lparr>pcs := (pcs m)(t := Sleeping), owner := None\<rparr>)"
      by (rule monitor_inv_move [OF inv refl]) (use 3 p o in auto)
    then show ?thesis using 3 p by (simp add: monitor_defs)
  qed
  then show ?thesis using Test by simp
next
  case (Run t)
  with en have p: "pcs m t = InBody" by simp
  obtain r s where b: "body (prog t) (shared m) = (r, s)" by (cases "body (prog t) (shared m)")
  have "atomic (prog t) (shared m) = Some (r, s)"
    using monitor_inv_D(2) [OF inv p] b by (simp add: atomic_def)
  from monitor_inv_log [OF inv _ _ refl this] p b Run show ?thesis by (simp add: monitor_defs)
next
  case (Unlock t)
  with en obtain r where p: "pcs m t = Leaving r" by (auto split: pc.splits)
  then have o: "owner m = Some t" using monitor_inv_D(1) [OF inv, of t] by simp
  have "monitor_inv prog s0 (m\<lparr>pcs := (pcs m)(t := Notifying r), owner := None\<rparr>)"
    by (rule monitor_inv_move [OF inv refl]) (use p o in auto)
  then show ?thesis using Unlock p by (simp add: monitor_defs)
next
  case (Notify t)
  with en obtain r where p: "pcs m t = Notifying r" by (auto split: pc.splits)
  let ?q = "\<lambda>u. if u = t then Done r else if pcs m u = Sleeping then Waking False else pcs m u"
  have "holds_lock (?q u) = holds_lock (pcs m u)" "result_of (?q u) = result_of (pcs m u)"
    "?q u \<noteq> Sleeping" "?q u = InBody \<Longrightarrow> pcs m u = InBody"
    "?q u = Testing True \<or> ?q u = Waking True \<Longrightarrow> pcs m u = Testing True \<or> pcs m u = Waking True" for u
    using p by (auto split: if_splits)
  then have "monitor_inv prog s0 (m\<lparr>pcs := ?q\<rparr>)"
    using inv unfolding monitor_inv_def by simp
  then show ?thesis using Notify p by (simp add: monitor_defs)
next
  case (SpuriousWake t)
  with en have p: "pcs m t = Sleeping" by simp
  have "monitor_inv prog s0 (m\<lparr>pcs := (pcs m)(t := Waking False)\<rparr>)"
    by (rule monitor_inv_move_same [OF inv]) (use p in auto)
  then show ?thesis using SpuriousWake by (simp add: set_pc_def)
next
  case (TimeOut t)
  with en have p: "pcs m t = Sleeping" "timed (prog t)" by simp_all
  have "monitor_inv prog s0 (m\<lparr>pcs := (pcs m)(t := Waking True)\<rparr>)"
    by (rule monitor_inv_move_same [OF inv]) (use p in auto)
  then show ?thesis using TimeOut by (simp add: set_pc_def)
qed

interpretation mon: guarded_system "monitor_exec prog" "monitor_enabled prog" "monitor_inv prog s0" for prog s0
  by unfold_locales (rule monitor_step_inv)

section \<open>The queue as a monitor\<close>

datatype 'a queue_call =
    CallPush 'a | CallPushWithTimeout 'a | CallPop | CallPopWithTimeout | CallPeek | CallSize | CallWaitUntilEmpty

datatype 'a queue_result = Pushed bool | Popped "'a option" | Peeked "'a option" | SizeIs nat | IsEmpty

definition front_pop :: "'a BlockingQueue \<Rightarrow> 'a queue_result \<times> 'a BlockingQueue" where
  "front_pop q = (case deque q of [] \<Rightarrow> (Popped None, q) | t # ts \<Rightarrow> (Popped (Some t), q\<lparr>deque := ts\<rparr>))"

fun queue_section :: "'a queue_call \<Rightarrow> ('a BlockingQueue, 'a queue_result) critical_section" where
  "queue_section (CallPush t) = \<lparr>awaits = QueueNotFullCondition, timed = False,
     body = (\<lambda>q. (Pushed True, q\<lparr>deque := deque q @ [t]\<rparr>)), late = Pushed False\<rparr>"
| "queue_section (CallPushWithTimeout t) = \<lparr>awaits = QueueNotFullCondition, timed = True,
     body = (\<lambda>q. (Pushed True, q\<lparr>deque := deque q @ [t]\<rparr>)), late = Pushed False\<rparr>"
| "queue_section CallPop = \<lparr>awaits = (\<lambda>q. \<not> QueueEmptyCondition q), timed = False,
     body = front_pop, late = Popped None\<rparr>"
| "queue_section CallPopWithTimeout = \<lparr>awaits = (\<lambda>q. \<not> QueueEmptyCondition q), timed = True,
     body = front_pop, late = Popped None\<rparr>"
| "queue_section CallPeek = \<lparr>awaits = (\<lambda>_. True), timed = False,
     body = (\<lambda>q. (Peeked (Peek q), q)), late = Peeked None\<rparr>"
| "queue_section CallSize = \<lparr>awaits = (\<lambda>_. True), timed = False,
     body = (\<lambda>q. (SizeIs (Size q), q)), late = IsEmpty\<rparr>"
| "queue_section CallWaitUntilEmpty = \<lparr>awaits = QueueEmptyCondition, timed = False,
     body = (\<lambda>q. (IsEmpty, q)), late = IsEmpty\<rparr>"

text \<open>The same calls by the functions of \<open>Blocking_Queue\<close>.\<close>

fun queue_function :: "'a queue_call \<Rightarrow> 'a BlockingQueue \<Rightarrow> ('a queue_result \<times> 'a BlockingQueue) option" where
  "queue_function (CallPush t) q = map_option (\<lambda>q'. (Pushed True, q')) (Push t q)"
| "queue_function (CallPushWithTimeout t) q = Some (case PushWithTimeout t q of (b, q') \<Rightarrow> (Pushed b, q'))"
| "queue_function CallPop q = map_option (\<lambda>(t, q'). (Popped (Some t), q')) (Pop q)"
| "queue_function CallPopWithTimeout q = Some (case PopWithTimeout q of (t, q') \<Rightarrow> (Popped t, q'))"
| "queue_function CallPeek q = Some (Peeked (Peek q), q)"
| "queue_function CallSize q = Some (SizeIs (Size q), q)"
| "queue_function CallWaitUntilEmpty q = map_option (\<lambda>_. (IsEmpty, q)) (WaitUntilEmpty q)"

lemma queue_atomic: "atomic (queue_section c) q = queue_function c q"
  by (cases c) (auto simp: atomic_def queue_defs front_pop_def split: list.splits)

fun replay_calls :: "(nat \<Rightarrow> 'a queue_call) \<Rightarrow> (nat \<times> 'a queue_result) list \<Rightarrow> 'a BlockingQueue \<Rightarrow> 'a BlockingQueue option" where
  "replay_calls calls [] q = Some q"
| "replay_calls calls ((t, r) # l) q =
     (case queue_function (calls t) q of None \<Rightarrow> None
      | Some (r', q') \<Rightarrow> if r' = r then replay_calls calls l q' else None)"

lemma replay_queue: "replay (queue_section \<circ> calls) l q = replay_calls calls l q"
  by (induction l arbitrary: q) (auto simp: queue_atomic split: option.splits)

section \<open>Properties\<close>

text \<open>C31. The mutex excludes and loses no wake-up, for any threads, scopes and interleaving of their steps:
  in every reachable state at most one thread is inside the lock; a body runs only while its
  predicate holds; and a thread that sleeps although its predicate has become true will be woken,
  because some thread is still to notify. So when no thread is inside the lock or about to notify,
  every sleeping thread waits for a predicate that is false.\<close>

theorem mutex_no_lost_wakeup:
  assumes "run_of (monitor_exec prog) (monitor_enabled prog) ls (new_monitor s) = Some res"
  shows "\<exists>m. res = Inr m \<and>
    (\<forall>t u. holds_lock (pcs m t) \<and> holds_lock (pcs m u) \<longrightarrow> t = u) \<and>
    (\<forall>t. pcs m t = InBody \<longrightarrow> awaits (prog t) (shared m)) \<and>
    (\<forall>t. pcs m t = Sleeping \<and> awaits (prog t) (shared m) \<longrightarrow> (\<exists>u. monitor_enabled prog (Unlock u) m \<or> monitor_enabled prog (Notify u) m))"
proof -
  from mon.run_inv [OF new_monitor_inv assms] obtain m where m: "res = Inr m" "monitor_inv prog s m"
    by blast
  note D = monitor_inv_D [OF m(2)]
  have "monitor_enabled prog (Unlock u) m \<or> monitor_enabled prog (Notify u) m" if "will_notify (pcs m u)" for u
    using that by (cases "pcs m u") auto
  then have "\<forall>t. pcs m t = Sleeping \<and> awaits (prog t) (shared m) \<longrightarrow>
      (\<exists>u. monitor_enabled prog (Unlock u) m \<or> monitor_enabled prog (Notify u) m)"
    using D(4) by blast
  moreover have "\<forall>t u. holds_lock (pcs m t) \<and> holds_lock (pcs m u) \<longrightarrow> t = u" using D(1) by auto
  ultimately show ?thesis using m(1) D(2) by simp
qed

text \<open>A thread sleeps in \<open>Pop\<close> while another has pushed an item and not yet notified.\<close>

definition one_pop :: "nat \<Rightarrow> int queue_call" where
  "one_pop t = (if t = 0 then CallPop else CallPush 7)"

definition popper_asleep :: "monitor_step list" where
  "popper_asleep = [Lock 0, Test 0, Lock 1, Test 1, Run 1, Unlock 1]"

lemma popper_asleep_run:
  "\<exists>m. run_of (monitor_exec (queue_section \<circ> one_pop)) (monitor_enabled (queue_section \<circ> one_pop)) popper_asleep
     (new_monitor (new_queue_sized 0)) = Some (Inr m) \<and> pcs m 0 = Sleeping \<and>
     awaits (queue_section (one_pop 0)) (shared m) \<and> log m = [(1, Pushed True)]"
  by (simp add: popper_asleep_def one_pop_def monitor_defs new_monitor_def queue_defs)

theorem mutex_no_lost_wakeup_witness:
  "\<exists>m. run_of (monitor_exec (queue_section \<circ> one_pop)) (monitor_enabled (queue_section \<circ> one_pop)) popper_asleep
     (new_monitor (new_queue_sized 0)) = Some (Inr m) \<and> pcs m 0 = Sleeping \<and>
     (\<exists>u. monitor_enabled (queue_section \<circ> one_pop) (Unlock u) m \<or>
          monitor_enabled (queue_section \<circ> one_pop) (Notify u) m)"
proof -
  obtain m where run: "run_of (monitor_exec (queue_section \<circ> one_pop))
      (monitor_enabled (queue_section \<circ> one_pop)) popper_asleep (new_monitor (new_queue_sized 0)) = Some (Inr m)"
    and m: "pcs m 0 = Sleeping" "awaits (queue_section (one_pop 0)) (shared m)"
    using popper_asleep_run by blast
  from mutex_no_lost_wakeup [OF run] run m show ?thesis by auto
qed

text \<open>C30. The calls on a \<open>BlockingQueue\<close> are linearizable: however threads interleave the steps of their
  calls on the mutex, the queue is as if the finished calls had been made one after the other, once each in
  the order of the log, each by the function that describes it and with the result its thread got.\<close>

theorem queue_linearizable:
  assumes "run_of (monitor_exec (queue_section \<circ> calls)) (monitor_enabled (queue_section \<circ> calls)) ls
      (new_monitor (new_queue_sized n)) = Some res"
  shows "\<exists>m. res = Inr m \<and> replay_calls calls (log m) (new_queue_sized n) = Some (shared m) \<and>
    distinct (map fst (log m)) \<and> (\<forall>t r. pcs m t = Done r \<longrightarrow> (t, r) \<in> set (log m))"
proof -
  from mon.run_inv [OF new_monitor_inv assms] obtain m where m: "res = Inr m"
    "monitor_inv (queue_section \<circ> calls) (new_queue_sized n) m" by blast
  from monitor_inv_D(5-7) [OF m(2)] m(1) show ?thesis by (simp add: replay_queue)
qed

theorem queue_linearizable_witness:
  "\<exists>m. run_of (monitor_exec (queue_section \<circ> one_pop)) (monitor_enabled (queue_section \<circ> one_pop)) popper_asleep
     (new_monitor (new_queue_sized 0)) = Some (Inr m) \<and> log m = [(1, Pushed True)] \<and>
     replay_calls one_pop (log m) (new_queue_sized 0) = Some (shared m)"
proof -
  obtain m where run: "run_of (monitor_exec (queue_section \<circ> one_pop))
      (monitor_enabled (queue_section \<circ> one_pop)) popper_asleep (new_monitor (new_queue_sized 0)) = Some (Inr m)"
    and m: "log m = [(1, Pushed True)]"
    using popper_asleep_run by blast
  from queue_linearizable [OF run] run m show ?thesis by auto
qed

end
