(* ===== verification/Execution_Context.thy ===== *)
theory Execution_Context
  imports Mutex
begin

text \<open>
  \<open>src/async_grpc/execution_context.h\<close>: the state that the handlers of a server share, with a mutex of its own.
  \<open>GetContext<T>()\<close> of a handler or of the server (\<open>rpc_handler.h\<close>, \<open>server.h\<close>) gives a \<open>Synchronized\<close> object, which
  holds the mutex while it lives; a call through it is a scope of \<open>Mutex\<close> that waits for nothing but
  the lock.
\<close>

section \<open>Calls on the context\<close>

text \<open>\<open>f\<close> is what the call does to the context and returns.\<close>

definition Synchronized :: "('c \<Rightarrow> 'r \<times> 'c) \<Rightarrow> ('c, 'r option) critical_section" where
  "Synchronized f = \<lparr>awaits = (\<lambda>_. True), timed = False,
     body = (\<lambda>c. case f c of (r, c') \<Rightarrow> (Some r, c')), late = None\<rparr>"

text \<open>Without \<open>SetExecutionContext\<close> the pointer to the context is null.\<close>

definition GetContext :: "'c option \<Rightarrow> ('c \<Rightarrow> 'r \<times> 'c) \<Rightarrow> ('c, 'r option) critical_section result" where
  "GetContext execution_context f =
     (case execution_context of None \<Rightarrow> Inl NullDereference | Some _ \<Rightarrow> Inr (Synchronized f))"

definition GetUnsynchronizedContext :: "'c option \<Rightarrow> 'c option" where
  "GetUnsynchronizedContext execution_context = execution_context"



section \<open>Nobody sleeps\<close>





section \<open>Properties\<close>




end
