(* ===== verification/Optional.thy ===== *)
theory Optional
  imports Prelude
begin

text \<open>
  \<open>common::optional\<close> of \<open>src/async_grpc/common/optional.h\<close>: a value that may be absent, kept behind an
  owning pointer. Objects and the values they own live in an explicit store, so that copying, assigning an
  object to itself and assigning an object's own value to it are what they are in the source. The
  store implements a map from objects to \<open>option\<close> values, which is how the other theories
  describe members of this type.
\<close>

section \<open>The store\<close>

text \<open>\<open>objects\<close> gives \<open>value_\<close> of every object that is alive, \<open>cells\<close> the allocated values.\<close>

record 'a store =
  objects :: "nat \<Rightarrow> addr option option"
  cells :: "addr \<Rightarrow> 'a option"
  next_cell :: addr

definition new_store :: "'a store" where
  "new_store = \<lparr>objects = (\<lambda>_. None), cells = (\<lambda>_. None), next_cell = 0\<rparr>"

definition make_unique :: "'a \<Rightarrow> 'a store \<Rightarrow> addr \<times> 'a store" where
  "make_unique v st =
     (next_cell st, st\<lparr>cells := (cells st)(next_cell st \<mapsto> v), next_cell := Suc (next_cell st)\<rparr>)"

definition deref_cell :: "addr \<Rightarrow> 'a store \<Rightarrow> 'a result" where
  "deref_cell p st = (case cells st p of None \<Rightarrow> Inl (UseAfterFree p) | Some v \<Rightarrow> Inr v)"

definition alive :: "nat \<Rightarrow> 'a store \<Rightarrow> addr option result" where
  "alive i st = (case objects st i of None \<Rightarrow> Inl (UseAfterFree i) | Some p \<Rightarrow> Inr p)"

text \<open>Assignment to \<open>value_\<close>: the pointer is replaced, then what it pointed to is freed.\<close>

definition set_value :: "nat \<Rightarrow> addr option \<Rightarrow> 'a store cmd" where
  "set_value i p st =
     bind_r (alive i st) (\<lambda>old.
       let st = st\<lparr>objects := (objects st)(i \<mapsto> p)\<rparr> in
       Inr (case old of None \<Rightarrow> st | Some q \<Rightarrow> st\<lparr>cells := (cells st)(q := None)\<rparr>))"

section \<open>The operations\<close>

text \<open>
  The identity of an object stands for its storage. That storage is not constructed in twice is what the
  language demands of a program, not a check of the source.
\<close>

definition construct :: "nat \<Rightarrow> 'a store cmd" where
  "construct i st = check (objects st i = None) ''object constructed twice''
     (Inr (st\<lparr>objects := (objects st)(i \<mapsto> None)\<rparr>))"

definition has_value :: "nat \<Rightarrow> 'a store \<Rightarrow> bool result" where
  "has_value i st = bind_r (alive i st) (\<lambda>p. Inr (p \<noteq> None))"

text \<open>\<open>value()\<close> returns a reference, which is the address of the value.\<close>

definition value_ref :: "nat \<Rightarrow> 'a store \<Rightarrow> addr result" where
  "value_ref i st = bind_r (alive i st) (\<lambda>p.
     case p of None \<Rightarrow> Inl (CheckFailed ''value_ != nullptr'') | Some q \<Rightarrow> Inr q)"

definition assign_new :: "nat \<Rightarrow> 'a \<Rightarrow> 'a store cmd" where
  "assign_new i v st = (case make_unique v st of (p, st) \<Rightarrow> set_value i (Some p) st)"

definition assign_value :: "nat \<Rightarrow> addr \<Rightarrow> 'a store cmd" where
  "assign_value i p st = bind_r (deref_cell p st) (\<lambda>v. assign_new i v st)"

definition construct_value :: "nat \<Rightarrow> 'a \<Rightarrow> 'a store cmd" where
  "construct_value i v = block [construct i, assign_new i v]"

definition construct_copy :: "nat \<Rightarrow> nat \<Rightarrow> 'a store cmd" where
  "construct_copy i other = block
     [construct i,
      (\<lambda>st. bind_r (has_value other st) (\<lambda>b.
         if b then bind_r (value_ref other st) (\<lambda>p. assign_value i p st) else Inr st))]"

definition assign :: "nat \<Rightarrow> nat \<Rightarrow> 'a store cmd" where
  "assign i other st =
     bind_r (has_value other st) (\<lambda>b.
       if \<not> b then set_value i None st
       else bind_r (value_ref other st) (\<lambda>p. assign_value i p st))"

definition destroy :: "nat \<Rightarrow> 'a store cmd" where
  "destroy i = block [set_value i None, (\<lambda>st. Inr (st\<lparr>objects := (objects st)(i := None)\<rparr>))]"

text \<open>
  What a program can do; \<open>AssignValueOf i j\<close> is \<open>i = j.value()\<close>. A user's value is assigned through
  a reference to a cell of no object, which \<open>assign_new\<close> abbreviates.
\<close>

datatype 'a optional_op =
    Construct nat | ConstructValue nat 'a | ConstructCopy nat nat | AssignValue nat 'a
  | AssignValueOf nat nat | Assign nat nat | Destroy nat

fun optional_exec :: "'a optional_op \<Rightarrow> 'a store cmd" where
  "optional_exec (Construct i) st = construct i st"
| "optional_exec (ConstructValue i v) st = construct_value i v st"
| "optional_exec (ConstructCopy i j) st = construct_copy i j st"
| "optional_exec (AssignValue i v) st = assign_new i v st"
| "optional_exec (AssignValueOf i j) st = bind_r (value_ref j st) (\<lambda>p. assign_value i p st)"
| "optional_exec (Assign i j) st = assign i j st"
| "optional_exec (Destroy i) st = destroy i st"

section \<open>The specification\<close>

type_synonym 'a option_values = "nat \<Rightarrow> 'a option option"

definition lookup :: "nat \<Rightarrow> 'a option_values \<Rightarrow> 'a option result" where
  "lookup i m = (case m i of None \<Rightarrow> Inl (UseAfterFree i) | Some v \<Rightarrow> Inr v)"

definition update :: "nat \<Rightarrow> 'a option \<Rightarrow> 'a option_values cmd" where
  "update i v m = bind_r (lookup i m) (\<lambda>_. Inr (m(i \<mapsto> v)))"

definition create :: "nat \<Rightarrow> 'a option_values cmd" where
  "create i m = check (m i = None) ''object constructed twice'' (Inr (m(i \<mapsto> None)))"

fun optional_spec :: "'a optional_op \<Rightarrow> 'a option_values cmd" where
  "optional_spec (Construct i) m = create i m"
| "optional_spec (ConstructValue i v) m = block [create i, update i (Some v)] m"
| "optional_spec (ConstructCopy i j) m = block [create i, (\<lambda>m. bind_r (lookup j m) (\<lambda>v. update i v m))] m"
| "optional_spec (AssignValue i v) m = update i (Some v) m"
| "optional_spec (AssignValueOf i j) m = bind_r (lookup j m) (\<lambda>v.
     check (v \<noteq> None) ''value_ != nullptr'' (update i v m))"
| "optional_spec (Assign i j) m = bind_r (lookup j m) (\<lambda>v. update i v m)"
| "optional_spec (Destroy i) m = bind_r (lookup i m) (\<lambda>_. Inr (m(i := None)))"

text \<open>Every object that has a value owns a cell of its own, and every allocated cell is owned.\<close>

definition store_ok :: "'a store \<Rightarrow> bool" where
  "store_ok st \<longleftrightarrow>
     (\<forall>p. next_cell st \<le> p \<longrightarrow> cells st p = None) \<and>
     (\<forall>p. cells st p \<noteq> None \<longleftrightarrow> (\<exists>i. objects st i = Some (Some p))) \<and>
     (\<forall>i j p. objects st i = Some (Some p) \<and> objects st j = Some (Some p) \<longrightarrow> i = j)"

definition values_of :: "'a store \<Rightarrow> 'a option_values" where
  "values_of st i = map_option (\<lambda>p. Option.bind p (cells st)) (objects st i)"

text \<open>A command on the store implements one on the values: same error, or same values and a good store.\<close>

definition implements :: "'a store result \<Rightarrow> 'a option_values result \<Rightarrow> bool" where
  "implements res m \<longleftrightarrow> map_sum id values_of res = m \<and> (\<forall>st'. res = Inr st' \<longrightarrow> store_ok st')"

lemma implements_simps [simp]:
  "implements (Inl e) m \<longleftrightarrow> m = Inl e"
  "implements (Inr st) m \<longleftrightarrow> m = Inr (values_of st) \<and> store_ok st"
  by (auto simp: implements_def)

lemma implements_bind:
  assumes "implements res m" "\<And>st. res = Inr st \<Longrightarrow> store_ok st \<Longrightarrow> implements (f st) (g (values_of st))"
  shows "implements (bind_r res f) (bind_r m g)"
  using assms by (cases res) auto

lemma implements_block:
  assumes "implements (f st) (f' (values_of st))"
    and "\<And>st'. f st = Inr st' \<Longrightarrow> store_ok st' \<Longrightarrow> implements (g st') (g' (values_of st'))"
  shows "implements (block [f, g] st) (block [f', g'] (values_of st))"
  unfolding block.simps(2) block_single using assms by (rule implements_bind)

text \<open>
  The store after \<open>value_\<close> of an object has become a pointer to a new cell, or null: its old cell is
  gone, the others are as they were.
\<close>

lemma replaced_store:
  assumes ok: "store_ok st" and i: "objects st i = Some old"
    and objects: "objects st' = (objects st)(i \<mapsto> map_option (\<lambda>_. next_cell st) v)"
    and cells: "cells st' = (\<lambda>p. if Some p = old then None else if p = next_cell st then v else cells st p)"
    and "next_cell st' = (if v = None then next_cell st else Suc (next_cell st))"
  shows "values_of st' = (values_of st)(i \<mapsto> v) \<and> store_ok st'"
proof -
  have fresh: "cells st p = None" if "next_cell st \<le> p" for p using ok that by (simp add: store_ok_def)
  have own: "(\<exists>v. cells st p = Some v) \<longleftrightarrow> (\<exists>j. objects st j = Some (Some p))" for p
    using ok by (simp add: store_ok_def)
  have uniq: "j = k" if "objects st j = Some (Some p)" "objects st k = Some (Some p)" for j k p
    using ok that unfolding store_ok_def by blast
  have old: "old \<noteq> Some (next_cell st)" using fresh own i by (metis option.distinct(1) order_refl)
  have other: "objects st j \<noteq> Some (Some (next_cell st))" for j using fresh own by (metis option.distinct(1) order_refl)
  have "values_of st' j = ((values_of st)(i \<mapsto> v)) j" for j
    using i old other uniq
    by (cases "objects st j") (auto simp: values_of_def objects cells split: Option.bind_splits)
  moreover have "store_ok st'"
    unfolding store_ok_def using assms(5) fresh own uniq i old other
    by (auto simp: objects cells) (metis option.inject)+
  ultimately show ?thesis by blast
qed

lemma lookup_values:
  "objects st i = None \<Longrightarrow> lookup i (values_of st) = Inl (UseAfterFree i)"
  "objects st i = Some p \<Longrightarrow> lookup i (values_of st) = Inr (Option.bind p (cells st))"
  by (simp_all add: lookup_def values_of_def)

lemma clear_implements:
  assumes "store_ok st"
  shows "implements (set_value i None st) (update i None (values_of st))"
proof (cases "objects st i")
  case (Some old)
  let ?st = "st\<lparr>objects := (objects st)(i \<mapsto> None), cells := (\<lambda>p. if Some p = old then None else cells st p)\<rparr>"
  have "cells st (next_cell st) = None" using assms by (simp add: store_ok_def)
  then have "values_of ?st = (values_of st)(i \<mapsto> None) \<and> store_ok ?st"
    by (intro replaced_store [OF assms Some, where v = None]) auto
  moreover have "set_value i None st = Inr ?st"
    using Some by (cases old) (auto simp: set_value_def alive_def fun_eq_iff)
  ultimately show ?thesis using Some by (simp add: update_def lookup_values)
qed (simp add: set_value_def alive_def update_def lookup_values)

lemma assign_new_implements:
  assumes "store_ok st"
  shows "implements (assign_new i v st) (update i (Some v) (values_of st))"
proof (cases "objects st i")
  case (Some old)
  let ?st = "st\<lparr>objects := (objects st)(i \<mapsto> Some (next_cell st)), next_cell := Suc (next_cell st),
    cells := (\<lambda>p. if Some p = old then None else if p = next_cell st then Some v else cells st p)\<rparr>"
  have "values_of ?st = (values_of st)(i \<mapsto> Some v) \<and> store_ok ?st"
    by (intro replaced_store [OF assms Some, where v = "Some v"]) auto
  moreover have "assign_new i v st = Inr ?st"
    using Some by (cases old) (auto simp: assign_new_def make_unique_def set_value_def alive_def fun_eq_iff)
  ultimately show ?thesis using Some by (simp add: update_def lookup_values)
qed (simp add: assign_new_def make_unique_def set_value_def alive_def update_def lookup_values)

lemma construct_implements:
  assumes "store_ok st"
  shows "implements (construct i st) (create i (values_of st))"
proof (cases "objects st i")
  case None
  let ?st = "st\<lparr>objects := (objects st)(i \<mapsto> None)\<rparr>"
  have "store_ok ?st"
    using assms None unfolding store_ok_def by (auto split: if_splits) (metis option.distinct(1))+
  with None show ?thesis by (auto simp: construct_def create_def values_of_def fun_eq_iff)
qed (simp add: construct_def create_def values_of_def)

lemma copy_implements:
  assumes "store_ok st"
  shows "implements (bind_r (value_ref j st) (\<lambda>p. assign_value i p st))
      (bind_r (lookup j (values_of st)) (\<lambda>v. check (v \<noteq> None) ''value_ != nullptr'' (update i v (values_of st))))"
proof (cases "objects st j")
  case (Some p)
  show ?thesis
  proof (cases p)
    case q: (Some q)
    with assms Some obtain v where "cells st q = Some v" unfolding store_ok_def by blast
    with Some q assign_new_implements [OF assms] show ?thesis
      by (simp add: value_ref_def alive_def assign_value_def deref_cell_def lookup_values)
  qed (simp add: Some value_ref_def alive_def lookup_values)
qed (simp add: value_ref_def alive_def lookup_values)

lemma assign_implements:
  assumes "store_ok st"
  shows "implements (assign i j st) (bind_r (lookup j (values_of st)) (\<lambda>v. update i v (values_of st)))"
proof (cases "objects st j")
  case (Some p)
  show ?thesis
  proof (cases p)
    case q: (Some q)
    with assms Some obtain v where "cells st q = Some v" unfolding store_ok_def by blast
    with Some q copy_implements [OF assms, of j i] show ?thesis
      by (simp add: assign_def has_value_def alive_def lookup_values)
  qed (use Some clear_implements [OF assms] in \<open>simp add: assign_def has_value_def alive_def lookup_values\<close>)
qed (simp add: assign_def has_value_def alive_def lookup_values)

lemma construct_copy_implements:
  assumes "store_ok st"
  shows "implements (construct_copy i j st)
    (block [create i, (\<lambda>m. bind_r (lookup j m) (\<lambda>v. update i v m))] (values_of st))"
  unfolding construct_copy_def
proof (rule implements_block)
  show "implements (construct i st) (create i (values_of st))" by (rule construct_implements [OF assms])
next
  fix st' assume c: "construct i st = Inr st'" and ok: "store_ok st'"
  then have i: "objects st' i = Some None" by (auto simp: construct_def check_def split: if_splits)
  show "implements (bind_r (has_value j st') (\<lambda>b. if b then bind_r (value_ref j st') (\<lambda>p. assign_value i p st') else Inr st'))
      (bind_r (lookup j (values_of st')) (\<lambda>v. update i v (values_of st')))"
  proof (cases "objects st' j")
    case (Some p)
    show ?thesis
    proof (cases p)
      case None
      have "update i None (values_of st') = Inr (values_of st')"
        using i by (auto simp: update_def lookup_values values_of_def fun_eq_iff)
      with Some None ok show ?thesis by (simp add: has_value_def alive_def lookup_values)
    next
      case q: (Some q)
      with Some assign_implements [OF ok, of i j] show ?thesis
        by (simp add: assign_def has_value_def alive_def lookup_values)
    qed
  qed (simp add: has_value_def alive_def lookup_values)
qed

lemma destroy_implements:
  assumes "store_ok st"
  shows "implements (destroy i st) (bind_r (lookup i (values_of st)) (\<lambda>_. Inr ((values_of st)(i := None))))"
proof (cases "objects st i")
  case (Some p)
  then obtain st' where st': "set_value i None st = Inr st'" "objects st' i = Some None"
    by (cases p) (auto simp: set_value_def alive_def)
  with clear_implements [OF assms, of i] Some have ok: "store_ok st'" and v: "values_of st' = (values_of st)(i \<mapsto> None)"
    by (simp_all add: update_def lookup_values)
  let ?st = "st'\<lparr>objects := (objects st')(i := None)\<rparr>"
  have "store_ok ?st"
    using ok st'(2) unfolding store_ok_def by (auto split: if_splits) (metis option.distinct(1) option.inject)+
  moreover have "values_of ?st = (values_of st)(i := None)"
  proof
    show "values_of ?st k = ((values_of st)(i := None)) k" for k
      using fun_cong [OF v, of k] by (auto simp: values_of_def)
  qed
  ultimately show ?thesis using st' Some by (simp add: destroy_def lookup_values)
qed (simp add: destroy_def set_value_def alive_def lookup_values)

lemma optional_exec_implements:
  assumes "store_ok st"
  shows "implements (optional_exec x st) (optional_spec x (values_of st))"
proof (cases x)
  case (ConstructValue i v)
  then show ?thesis
    by (simp add: construct_value_def del: block.simps)
      (rule implements_block; simp add: assms construct_implements assign_new_implements)
qed (use assms in \<open>simp_all add: construct_implements construct_copy_implements assign_new_implements copy_implements
  assign_implements destroy_implements del: block.simps not_None_eq\<close>)

section \<open>Properties\<close>

text \<open>C28. An \<open>optional\<close> behaves as a value of an option type: whatever a program constructs, copies, assigns and
  destroys, also an object to itself or its own value to it, every object has the value and every call the
  error that the program has on plain option values; no cell is used after it was freed, no two
  objects share one, and a cell is allocated exactly while an object owns it.\<close>

theorem optional_refines_option:
  "map_sum id values_of (block (map optional_exec xs) new_store) = block (map optional_spec xs) (\<lambda>_. None) \<and>
   (case block (map optional_exec xs) new_store of Inl _ \<Rightarrow> True | Inr st \<Rightarrow> store_ok st)"
proof -
  have "implements (block (map optional_exec xs) st) (block (map optional_spec xs) (values_of st))"
    if "store_ok st" for st :: "'a store"
    using that
  proof (induction xs arbitrary: st)
    case (Cons x xs)
    then show ?case by (simp add: implements_bind [OF optional_exec_implements])
  qed simp
  moreover have "store_ok (new_store :: 'a store)" "values_of (new_store :: 'a store) = (\<lambda>_. None)"
    by (simp_all add: store_ok_def new_store_def values_of_def fun_eq_iff)
  ultimately show ?thesis unfolding implements_def by (metis (no_types, lifting) old.sum.simps(5) old.sum.simps(6) sum.exhaust)
qed

end
