(* ===== verification/Tracing.thy ===== *)
theory Tracing
  imports Event_Loop
begin

text \<open>
  Trace spans: \<open>src/async_grpc/span.h\<close>, \<open>opencensus_span.h\<close> and \<open>opencensus_span.cc\<close>, and the part of
  \<open>rpc_handler.h\<close> that is compiled with \<open>BUILD_TRACING\<close>. The tracing library only receives calls; they are
  recorded. A handler starts a span when it is constructed, sets the span's status whenever it finishes its RPC, by
  itself or through a \<open>Writer\<close>, and ends the span when it is destroyed. The other theories describe the
  build without spans; the property below says that spans change nothing else.
\<close>

section \<open>Spans\<close>

datatype span_call = StartedSpan nat string "nat option" | StatusSet nat nat | EndedSpan nat

record Tracer =
  next_span :: nat
  span_calls :: "span_call list"

text \<open>The cast from a status code to the tracing library's code, which is by number.\<close>

fun code_number :: "StatusCode \<Rightarrow> nat" where
  "code_number OK = 0"
| "code_number CANCELLED = 1"
| "code_number UNKNOWN = 2"
| "code_number INVALID_ARGUMENT = 3"
| "code_number DEADLINE_EXCEEDED = 4"
| "code_number NOT_FOUND = 5"
| "code_number ALREADY_EXISTS = 6"
| "code_number PERMISSION_DENIED = 7"
| "code_number RESOURCE_EXHAUSTED = 8"
| "code_number FAILED_PRECONDITION = 9"
| "code_number ABORTED = 10"
| "code_number OUT_OF_RANGE = 11"
| "code_number UNIMPLEMENTED = 12"
| "code_number INTERNAL = 13"
| "code_number UNAVAILABLE = 14"
| "code_number DATA_LOSS = 15"
| "code_number UNAUTHENTICATED = 16"

definition new_OpencensusSpan :: "string \<Rightarrow> nat option \<Rightarrow> Tracer \<Rightarrow> nat \<times> Tracer" where
  "new_OpencensusSpan name parent t =
     (next_span t, t\<lparr>next_span := Suc (next_span t),
        span_calls := span_calls t @ [StartedSpan (next_span t) name parent]\<rparr>)"


definition CreateChildSpan :: "string \<Rightarrow> nat \<Rightarrow> Tracer \<Rightarrow> nat \<times> Tracer" where
  "CreateChildSpan name this = new_OpencensusSpan name (Some this)"



section \<open>Handlers with a span\<close>











section \<open>The same calls without spans\<close>




definition set_statuses :: "nat \<Rightarrow> Status list \<Rightarrow> Tracer \<Rightarrow> Tracer" where
  "set_statuses span sts t = t\<lparr>span_calls := span_calls t @ map (\<lambda>st. StatusSet span (code_number (error_code st))) sts\<rparr>"

lemma set_statuses_simps [simp]:
  "set_statuses span [] t = t"
  "set_statuses span sts' (set_statuses span sts t) = set_statuses span (sts @ sts') t"
  by (simp_all add: set_statuses_def)



section \<open>Properties\<close>


end
