(* ===== verification/Handler_Wrapper.thy ===== *)
theory Handler_Wrapper
  imports Event_Loop
begin

text \<open>
  \<open>RpcHandlerWrapper\<close> of \<open>src/async_grpc/testing/rpc_handler_wrapper.h\<close>: a handler that does what the
  handler under test does and then reports the call. The reports go into the event queue of the
  test server, which stands beside the execution context in the wrapped handler's context.

  \<open>wrapped_world\<close> puts wrapped handlers into a state of the server. One lemma for each operation says
  that it does on the wrapped state what it does on the state itself, apart from the reports; so a
  server with wrapped handlers takes exactly the steps of the server under test.
\<close>

section \<open>The wrapper\<close>

datatype RpcHandlerEvent = ON_REQUEST | ON_READS_DONE | ON_FINISH

type_synonym 'c wrapped_context = "'c \<times> RpcHandlerEvent BlockingQueue"

text \<open>The queue of the test server is unbounded, so that the push does not wait.\<close>

definition event_callback :: "RpcHandlerEvent \<Rightarrow> 'c wrapped_context \<Rightarrow> 'c wrapped_context" where
  "event_callback event = (\<lambda>(c, q). (c, case Push event q of Some q' \<Rightarrow> q' | None \<Rightarrow> q))"

definition then_report ::
  "RpcHandlerEvent \<Rightarrow> ('c \<Rightarrow> 'h \<times> 'c \<times> 'm handler_action list) \<Rightarrow>
   'c wrapped_context \<Rightarrow> 'h \<times> 'c wrapped_context \<times> 'm handler_action list" where
  "then_report event call = (\<lambda>(c, q).
     case call c of (h, c', acts) \<Rightarrow> (h, event_callback event (c', q), acts))"

definition RpcHandlerWrapper :: "('m, 'h, 'c) HandlerClass \<Rightarrow> ('m, 'h, 'c wrapped_context) HandlerClass" where
  "RpcHandlerWrapper impl =
     \<lparr>hc_Initialize = (\<lambda>(c, q). case hc_Initialize impl c of (h, c', acts) \<Rightarrow> (h, (c', q), acts)),
      hc_OnRequest = (\<lambda>h c m. then_report ON_REQUEST (\<lambda>c. hc_OnRequest impl h c m) c),
      hc_OnReadsDone = (\<lambda>h. then_report ON_READS_DONE (hc_OnReadsDone impl h)),
      hc_OnFinish = (\<lambda>h. then_report ON_FINISH (hc_OnFinish impl h))\<rparr>"

section \<open>A state with wrapped handlers\<close>

definition wrapped_info :: "('m, 'h, 'c) RpcHandlerInfo \<Rightarrow> ('m, 'h, 'c wrapped_context) RpcHandlerInfo" where
  "wrapped_info info =
     \<lparr>request_descriptor = request_descriptor info, response_descriptor = response_descriptor info,
      handler_class = RpcHandlerWrapper (handler_class info), rpc_type = rpc_type info,
      fully_qualified_name = fully_qualified_name info\<rparr>"

definition wrapped_rpc :: "('m, 'h, 'c) Rpc \<Rightarrow> ('m, 'h, 'c wrapped_context) Rpc" where
  "wrapped_rpc x =
     \<lparr>method_index = method_index x, server_completion_queue = server_completion_queue x,
      event_queue = event_queue x, rpc_handler_info = wrapped_info (rpc_handler_info x), service = service x,
      new_connection_event = new_connection_event x, read_event = read_event x, write_event = write_event x,
      finish_event = finish_event x, done_event = done_event x, request = request x, response = response x,
      handler = handler x, server_async_response_writer = server_async_response_writer x,
      server_async_reader = server_async_reader x, server_async_reader_writer = server_async_reader_writer x,
      server_async_writer = server_async_writer x, send_queue = send_queue x\<rparr>"

definition wrapped_infos ::
  "(string \<times> ('m, 'h, 'c) RpcHandlerInfo) list \<Rightarrow> (string \<times> ('m, 'h, 'c wrapped_context) RpcHandlerInfo) list" where
  "wrapped_infos infos = map (\<lambda>(name, info). (name, wrapped_info info)) infos"

definition wrapped_service :: "('m, 'h, 'c) Service \<Rightarrow> ('m, 'h, 'c wrapped_context) Service" where
  "wrapped_service s =
     \<lparr>rpc_handler_infos = wrapped_infos (rpc_handler_infos s), active_rpcs = active_rpcs s,
      shutting_down = shutting_down s, grpc_methods = grpc_methods s\<rparr>"

definition reports :: "RpcHandlerEvent list \<Rightarrow> RpcHandlerEvent BlockingQueue" where
  "reports es = new_queue\<lparr>deque := es\<rparr>"

definition wrapped_world ::
  "RpcHandlerEvent list \<Rightarrow> ('m, 'h, 'c) world \<Rightarrow> ('m, 'h, 'c wrapped_context) world" where
  "wrapped_world es w =
     \<lparr>heap = (\<lambda>r. map_option wrapped_rpc (heap w r)), next_addr = next_addr w,
      services = (\<lambda>s. wrapped_service (services w s)), holders = holders w,
      num_event_threads = num_event_threads w, current_event_queue_id = current_event_queue_id w,
      event_queues = event_queues w, exec_context = (exec_context w, reports es), calls = calls w,
      outstanding = outstanding w, started = started w\<rparr>"

lemma wrapped_info_fields [simp]:
  "request_descriptor (wrapped_info info) = request_descriptor info"
  "response_descriptor (wrapped_info info) = response_descriptor info"
  "handler_class (wrapped_info info) = RpcHandlerWrapper (handler_class info)"
  "rpc_type (wrapped_info info) = rpc_type info"
  "fully_qualified_name (wrapped_info info) = fully_qualified_name info"
  by (simp_all add: wrapped_info_def)

lemma wrapped_rpc_fields [simp]:
  "method_index (wrapped_rpc x) = method_index x"
  "server_completion_queue (wrapped_rpc x) = server_completion_queue x"
  "event_queue (wrapped_rpc x) = event_queue x"
  "rpc_handler_info (wrapped_rpc x) = wrapped_info (rpc_handler_info x)"
  "service (wrapped_rpc x) = service x"
  "request (wrapped_rpc x) = request x"
  "response (wrapped_rpc x) = response x"
  "handler (wrapped_rpc x) = handler x"
  "server_async_response_writer (wrapped_rpc x) = server_async_response_writer x"
  "server_async_reader (wrapped_rpc x) = server_async_reader x"
  "server_async_reader_writer (wrapped_rpc x) = server_async_reader_writer x"
  "server_async_writer (wrapped_rpc x) = server_async_writer x"
  "send_queue (wrapped_rpc x) = send_queue x"
  by (simp_all add: wrapped_rpc_def)

lemma wrapped_rpc_updates [simp]:
  "(wrapped_rpc x)\<lparr>send_queue := its\<rparr> = wrapped_rpc (x\<lparr>send_queue := its\<rparr>)"
  "(wrapped_rpc x)\<lparr>response := m\<rparr> = wrapped_rpc (x\<lparr>response := m\<rparr>)"
  "(wrapped_rpc x)\<lparr>request := a\<rparr> = wrapped_rpc (x\<lparr>request := a\<rparr>)"
  "(wrapped_rpc x)\<lparr>handler := h\<rparr> = wrapped_rpc (x\<lparr>handler := h\<rparr>)"
  "(wrapped_rpc x)\<lparr>event_queue := q\<rparr> = wrapped_rpc (x\<lparr>event_queue := q\<rparr>)"
  by (simp_all add: wrapped_rpc_def)

lemma wrapped_service_fields [simp]:
  "rpc_handler_infos (wrapped_service s) = wrapped_infos (rpc_handler_infos s)"
  "active_rpcs (wrapped_service s) = active_rpcs s"
  "shutting_down (wrapped_service s) = shutting_down s"
  "(wrapped_service s)\<lparr>active_rpcs := a\<rparr> = wrapped_service (s\<lparr>active_rpcs := a\<rparr>)"
  "(wrapped_service s)\<lparr>shutting_down := b\<rparr> = wrapped_service (s\<lparr>shutting_down := b\<rparr>)"
  by (simp_all add: wrapped_service_def)

lemma wrapped_world_fields [simp]:
  "heap (wrapped_world es w) r = map_option wrapped_rpc (heap w r)"
  "next_addr (wrapped_world es w) = next_addr w"
  "services (wrapped_world es w) s = wrapped_service (services w s)"
  "holders (wrapped_world es w) = holders w"
  "num_event_threads (wrapped_world es w) = num_event_threads w"
  "current_event_queue_id (wrapped_world es w) = current_event_queue_id w"
  "event_queues (wrapped_world es w) = event_queues w"
  "exec_context (wrapped_world es w) = (exec_context w, reports es)"
  "calls (wrapped_world es w) = calls w"
  "outstanding (wrapped_world es w) = outstanding w"
  "started (wrapped_world es w) = started w"
  by (simp_all add: wrapped_world_def)

lemma wrapped_world_updates [simp]:
  "(wrapped_world es w)\<lparr>event_queues := Q\<rparr> = wrapped_world es (w\<lparr>event_queues := Q\<rparr>)"
  "(wrapped_world es w)\<lparr>current_event_queue_id := i\<rparr> = wrapped_world es (w\<lparr>current_event_queue_id := i\<rparr>)"
  "(wrapped_world es w)\<lparr>holders := hs\<rparr> = wrapped_world es (w\<lparr>holders := hs\<rparr>)"
  "(wrapped_world es w)\<lparr>calls := cs, outstanding := os\<rparr> = wrapped_world es (w\<lparr>calls := cs, outstanding := os\<rparr>)"
  "(wrapped_world es w)\<lparr>exec_context := (c, reports es')\<rparr> = wrapped_world es' (w\<lparr>exec_context := c\<rparr>)"
  by (simp_all add: wrapped_world_def)

lemma wrapped_put_rpc [simp]: "put_rpc r (wrapped_rpc x) (wrapped_world es w) = wrapped_world es (put_rpc r x w)"
  by (auto simp: put_rpc_def wrapped_world_def)

lemma event_callback_reports [simp]: "event_callback event (c, reports es) = (c, reports (es @ [event]))"
  by (simp add: event_callback_def reports_def queue_defs)

section \<open>Operations that call no handler\<close>

text \<open>An operation commutes with wrapping when it gives the wrapped result, or the same error.\<close>

abbreviation wrapped_result ::
  "RpcHandlerEvent list \<Rightarrow> ('m, 'h, 'c) world result \<Rightarrow> ('m, 'h, 'c wrapped_context) world result" where
  "wrapped_result es \<equiv> map_sum id (wrapped_world es)"

lemma map_sum_bind [simp]: "map_sum id f (bind_r m g) = bind_r m (\<lambda>a. map_sum id f (g a))"
  by (cases m) simp_all

lemma map_sum_check [simp]: "map_sum id f (check b msg k) = check b msg (map_sum id f k)"
  by (simp add: check_def)

lemma GetRpcEvent_wrapped [simp]: "GetRpcEvent event (wrapped_rpc x) = GetRpcEvent event x"
  by (cases event) (simp_all add: wrapped_rpc_def)

lemma put_event_wrapped [simp]: "put_event event e (wrapped_rpc x) = wrapped_rpc (put_event event e x)"
  by (cases event) (simp_all add: wrapped_rpc_def)

lemma pending_wrapped [simp]:
  "IsRpcEventPending event (wrapped_rpc x) = IsRpcEventPending event x"
  "IsAnyEventPending (wrapped_rpc x) = IsAnyEventPending x"
  by (simp_all add: IsAnyEventPending_def IsRpcEventPending_def GetRpcEventState_def)

lemma interfaces_wrapped [simp]:
  "streaming_interface (wrapped_rpc x) = streaming_interface x"
  "async_reader_interface (wrapped_rpc x) = async_reader_interface x"
  "async_writer_interface (wrapped_rpc x) = async_writer_interface x"
  by (simp_all add: streaming_interface_def async_reader_interface_def async_writer_interface_def)

lemma get_rpc_wrapped [simp]: "get_rpc r (wrapped_world es w) = map_sum id wrapped_rpc (get_rpc r w)"
  by (cases "heap w r") (simp_all add: get_rpc_def)

lemmas access_defs = with_rpc_def upd_rpc_def bind_r_assoc

lemma SetRpcEventState_wrapped [simp]:
  "SetRpcEventState r event b (wrapped_world es w) = wrapped_result es (SetRpcEventState r event b w)"
  by (simp add: SetRpcEventState_def access_defs)

lemma grpc_issue_wrapped [simp]:
  "grpc_issue r call event (wrapped_world es w) = wrapped_result es (grpc_issue r call event w)"
  by (simp add: grpc_issue_def access_defs)

lemma push_event_wrapped [simp]:
  "push_event q e (wrapped_world es w) = wrapped_result es (push_event q e w)"
  by (simp add: push_event_def split: option.split)

lemma Rpc_GetWeakPtr_wrapped [simp]: "Rpc_GetWeakPtr r (wrapped_world es w) = Rpc_GetWeakPtr r w"
  by (simp add: Rpc_GetWeakPtr_def)

lemma sends_wrapped [simp]:
  "Rpc_Write r m (wrapped_world es w) = wrapped_result es (Rpc_Write r m w)"
  "Rpc_Finish r status (wrapped_world es w) = wrapped_result es (Rpc_Finish r status w)"
  by (simp_all add: Rpc_Write_def Rpc_Finish_def EnqueueMessage_def push_write_needed_def access_defs)

lemma run_actions_wrapped [simp]:
  "run_actions r acts (wrapped_world es w) = wrapped_result es (run_actions r acts w)"
proof -
  have "do_action r act (wrapped_world es w) = wrapped_result es (do_action r act w)" for act and w :: "('a, 'b, 'c) world"
    by (cases act) simp_all
  then show ?thesis unfolding run_actions_def by (induction acts arbitrary: w) simp_all
qed

lemma SendUnaryFinish_wrapped [simp]:
  "SendUnaryFinish r s status m (wrapped_world es w) = wrapped_result es (SendUnaryFinish r s status m w)"
  by (simp add: SendUnaryFinish_def split: option.split)

lemma PerformFinish_wrapped [simp]:
  "PerformFinish r m status (wrapped_world es w) = wrapped_result es (PerformFinish r m status w)"
  unfolding PerformFinish_def
  by (simp add: access_defs) (intro bind_r_ext; simp add: access_defs split: RpcType.split)

lemma PerformWrite_wrapped [simp]:
  "PerformWrite r m status (wrapped_world es w) = wrapped_result es (PerformWrite r m status w)"
  by (simp add: PerformWrite_def access_defs)

lemma HandleSendQueue_wrapped [simp]:
  "HandleSendQueue r (wrapped_world es w) = wrapped_result es (HandleSendQueue r w)"
  unfolding HandleSendQueue_def
  by (simp add: access_defs, rule bind_r_ext)
    (auto simp: access_defs intro!: bind_r_ext split: list.split)

lemma RequestNextMethodInvocation_wrapped [simp]:
  "RequestNextMethodInvocation r (wrapped_world es w) = wrapped_result es (RequestNextMethodInvocation r w)"
  unfolding RequestNextMethodInvocation_def
  by (simp add: access_defs) (intro bind_r_ext; simp add: Let_def split: RpcType.split)

lemma SelectNextEventQueueRoundRobin_wrapped [simp]:
  "SelectNextEventQueueRoundRobin (wrapped_world es w) =
   map_sum id (map_prod id (wrapped_world es)) (SelectNextEventQueueRoundRobin w)"
  by (simp add: SelectNextEventQueueRoundRobin_def Let_def)

lemma set_active_wrapped [simp]: "set_active s a (wrapped_world es w) = wrapped_world es (set_active s a w)"
  by (auto simp: set_active_def wrapped_world_def)

lemma remove_rpc_wrapped [simp]: "remove_rpc s r (wrapped_world es w) = wrapped_result es (remove_rpc s r w)"
  by (auto simp: remove_rpc_def set_active_def wrapped_world_def split: prod.split)

lemma new_Rpc_wrapped [simp]:
  "new_Rpc r i cq q (wrapped_info info) s = wrapped_rpc (new_Rpc r i cq q info s)"
  by (simp add: new_Rpc_def InitializeReadersAndWriters_def wrapped_rpc_def split: RpcType.split)

lemma Clone_wrapped [simp]: "Clone r (wrapped_rpc x) = wrapped_rpc (Clone r x)"
  by (simp add: Clone_def)

lemma add_rpc_wrapped:
  assumes "\<And>r. mk' r = wrapped_rpc (mk r)"
  shows "add_rpc s mk' (wrapped_world es w) = map_sum id (map_prod id (wrapped_world es)) (add_rpc s mk w)"
  unfolding add_rpc_def Let_def using assms
  by (auto simp: set_active_def wrapped_world_def intro!: bind_r_ext)

lemma RemoveIfNotPending_wrapped [simp]:
  "RemoveIfNotPending s r (wrapped_world es w) = wrapped_result es (RemoveIfNotPending s r w)"
  unfolding RemoveIfNotPending_def by (simp add: access_defs) (intro bind_r_ext; simp)

section \<open>Operations that call the handler\<close>

text \<open>Which reports a call makes is known before it; only their number depends on the state.\<close>

definition same_types :: "('m, 'h, 'c) world \<Rightarrow> ('m, 'h, 'c) world \<Rightarrow> bool" where
  "same_types w w' \<longleftrightarrow>
     (\<forall>r. map_option (\<lambda>x. rpc_type (rpc_handler_info x)) (heap w' r) =
          map_option (\<lambda>x. rpc_type (rpc_handler_info x)) (heap w r))"

interpretation st: progress_measure same_types
  by unfold_locales (simp_all add: same_types_def)

lemma upd_rpc_types:
  "(\<And>x. rpc_handler_info (f x) = rpc_handler_info x) \<Longrightarrow> st.advances (upd_rpc r f)"
  by (rule st.advances_I) (auto simp: upd_rpc_def with_rpc_def get_rpc_def same_types_def split: option.splits)

lemma sends_types [simp]: "st.advances (Rpc_Write r m)" "st.advances (Rpc_Finish r status)"
proof -
  have "st.advances (push_write_needed r)"
    by (rule st.advances_I)
      (auto simp: push_write_needed_def with_rpc_def push_event_def same_types_def bind_r_Inr_iff split: option.splits)
  then show "st.advances (Rpc_Write r m)" "st.advances (Rpc_Finish r status)"
    unfolding Rpc_Write_def Rpc_Finish_def EnqueueMessage_def
    by (auto intro!: st.advances_block upd_rpc_types)
qed

lemma run_actions_types: "st.advances (run_actions r acts)"
  unfolding run_actions_def
proof (rule st.advances_block)
  fix cmd assume "cmd \<in> set (map (do_action r) acts)"
  then obtain act where "cmd = do_action r act" by auto
  then show "st.advances cmd"
    by (cases act) (auto intro!: st.advances_I simp: bind_r_Inr_iff st.before_refl)
qed

lemma context_types: "st.advances (\<lambda>w. Inr (w\<lparr>exec_context := c\<rparr>))"
  by (rule st.advances_I) (auto simp: same_types_def)

lemma call_handler_types: "st.advances (call_handler r f)"
proof (rule st.advances_I)
  fix w w' assume "call_handler r f w = Inr w'"
  then obtain x h0 where x: "(case f x h0 (exec_context w) of (h, c, acts) \<Rightarrow> block
      [upd_rpc r (\<lambda>x. x\<lparr>handler := Some h\<rparr>), (\<lambda>w. Inr (w\<lparr>exec_context := c\<rparr>)), run_actions r acts] w) = Inr w'"
    by (auto simp only: call_handler_def with_rpc_def bind_r_Inr_iff)
  obtain h c acts where "f x h0 (exec_context w) = (h, c, acts)" by (rule prod_cases3)
  with x have "block [upd_rpc r (\<lambda>x. x\<lparr>handler := Some h\<rparr>), (\<lambda>w. Inr (w\<lparr>exec_context := c\<rparr>)),
      run_actions r acts] w = Inr w'" by simp
  moreover have "st.advances (block [upd_rpc r (\<lambda>x. x\<lparr>handler := Some h\<rparr>), (\<lambda>w. Inr (w\<lparr>exec_context := c\<rparr>)),
      run_actions r acts])"
    by (auto intro!: st.advances_block upd_rpc_types context_types run_actions_types)
  ultimately show "same_types w w'" by (rule st.advances_D [rotated])
qed

lemma call_handler_wrapped:
  assumes "\<And>x h c. f' (wrapped_rpc x) h (c, reports es) = (case f x h c of (h', c', acts) \<Rightarrow> (h', (c', reports es'), acts))"
  shows "call_handler r f' (wrapped_world es w) = wrapped_result es' (call_handler r f w)"
  unfolding call_handler_def using assms
  by (simp add: access_defs) (auto simp: access_defs intro!: bind_r_ext split: prod.split)

lemma handler_calls_wrapped [simp]:
  "OnRequest r (wrapped_world es w) = wrapped_result (es @ [ON_REQUEST]) (OnRequest r w)"
  "OnReadsDone r (wrapped_world es w) = wrapped_result (es @ [ON_READS_DONE]) (OnReadsDone r w)"
  "OnFinish r (wrapped_world es w) = wrapped_result (es @ [ON_FINISH]) (OnFinish r w)"
  unfolding OnRequest_def OnReadsDone_def OnFinish_def
  by (rule call_handler_wrapped; simp add: RpcHandlerWrapper_def then_report_def)+

text \<open>A method with a single request hands it over at once, and then says that no more will come.\<close>

definition single_request :: "addr \<Rightarrow> ('m, 'h, 'c) world \<Rightarrow> RpcHandlerEvent list" where
  "single_request r w =
     (case heap w r of
        Some x \<Rightarrow> if rpc_type (rpc_handler_info x) \<in> {NORMAL_RPC, SERVER_STREAMING}
                  then [ON_REQUEST, ON_READS_DONE] else []
      | None \<Rightarrow> [])"

lemma single_request_same: "same_types w w' \<Longrightarrow> single_request r w' = single_request r w"
  unfolding same_types_def single_request_def
  by (drule spec [of _ r], cases "heap w r"; cases "heap w' r") simp_all

lemma RequestStreamingReadIfNeeded_wrapped:
  "RequestStreamingReadIfNeeded r (wrapped_world es w) =
   wrapped_result (es @ single_request r w) (RequestStreamingReadIfNeeded r w)"
proof (cases "heap w r")
  case None
  then show ?thesis by (simp add: RequestStreamingReadIfNeeded_def access_defs get_rpc_def Let_def)
next
  case (Some x)
  then have "get_rpc r w = Inr x" by (simp add: get_rpc_def)
  with Some show ?thesis
    by (cases "rpc_type (rpc_handler_info x)")
      (simp_all add: RequestStreamingReadIfNeeded_def access_defs single_request_def Let_def)
qed

text \<open>The part of \<open>OnConnection\<close> that instantiates the handler.\<close>

definition instantiate :: "addr \<Rightarrow> ('m, 'h, 'c) wcmd" where
  "instantiate r = with_rpc r (\<lambda>x w.
     case handler x of
       Some _ \<Rightarrow> Inr w
     | None \<Rightarrow>
        (case hc_Initialize (handler_class (rpc_handler_info x)) (exec_context w) of
           (h, c, acts) \<Rightarrow> block
             [(\<lambda>w. Inr (w\<lparr>exec_context := c\<rparr>)), run_actions r acts,
              upd_rpc r (\<lambda>x. x\<lparr>handler := Some h\<rparr>)] w))"

lemma instantiate_wrapped [simp]: "instantiate r (wrapped_world es w) = wrapped_result es (instantiate r w)"
  unfolding instantiate_def
  by (simp add: access_defs, rule bind_r_ext)
    (auto simp: access_defs RpcHandlerWrapper_def intro!: bind_r_ext split: option.split prod.split)

lemma instantiate_types: "st.advances (instantiate r)"
proof (rule st.advances_I)
  fix w w' assume i: "instantiate r w = Inr w'"
  then obtain x where x: "heap w r = Some x" by (cases "heap w r") (auto simp: instantiate_def)
  obtain h c acts where "hc_Initialize (handler_class (rpc_handler_info x)) (exec_context w) = (h, c, acts)"
    by (rule prod_cases3)
  with i x consider "w' = w" | "block [(\<lambda>w. Inr (w\<lparr>exec_context := c\<rparr>)), run_actions r acts,
      upd_rpc r (\<lambda>x. x\<lparr>handler := Some h\<rparr>)] w = Inr w'"
    by (cases "handler x") (auto simp: instantiate_def)
  then show "same_types w w'"
    by cases (auto simp: st.before_refl simp del: block.simps intro!: st.advances_D [OF st.advances_block]
      upd_rpc_types context_types run_actions_types)
qed

lemma OnConnection_wrapped:
  "OnConnection r (wrapped_world es w) = wrapped_result (es @ single_request r w) (OnConnection r w)"
proof -
  have eq: "OnConnection r w = bind_r (instantiate r w) (RequestStreamingReadIfNeeded r)" for w :: "('x, 'y, 'z) world"
    by (simp add: OnConnection_def instantiate_def fun_eq_iff block_single)
  show ?thesis unfolding eq
    by (auto simp: RequestStreamingReadIfNeeded_wrapped intro!: bind_r_ext
      dest!: st.advances_D [OF instantiate_types] single_request_same [of _ _ r])
qed

section \<open>Handling an event\<close>

fun event_reports :: "string \<Rightarrow> Event \<Rightarrow> addr \<Rightarrow> bool \<Rightarrow> ('m, 'h, 'c) world \<Rightarrow> RpcHandlerEvent list" where
  "event_reports s NEW_CONNECTION r ok w =
     (if shutting_down (services w s) \<or> \<not> ok then [] else single_request r w)"
| "event_reports s READ r ok w = (if ok then ON_REQUEST # single_request r w else [ON_READS_DONE])"
| "event_reports s FINISH r ok w = [ON_FINISH]"
| "event_reports s _ r ok w = []"

lemma HandleRead_wrapped:
  "HandleRead s r ok (wrapped_world es w) = wrapped_result (es @ event_reports s READ r ok w) (HandleRead s r ok w)"
proof -
  have "single_request r a = single_request r w" if "OnRequest r w = Inr a" for a
    using that unfolding OnRequest_def by (rule single_request_same [OF st.advances_D [OF call_handler_types]])
  then show ?thesis
    by (cases ok) (auto simp: HandleRead_def RequestStreamingReadIfNeeded_wrapped intro!: bind_r_ext)
qed

lemma HandleNewConnection_wrapped:
  "HandleNewConnection s r ok (wrapped_world es w) =
   wrapped_result (es @ event_reports s NEW_CONNECTION r ok w) (HandleNewConnection s r ok w)"
  by (simp add: HandleNewConnection_def OnConnection_wrapped case_prod_unfold add_rpc_wrapped SetEventQueue_def)

lemma HandleEvent_wrapped:
  "HandleEvent s event r ok (wrapped_world es w) =
   wrapped_result (es @ event_reports s event r ok w) (HandleEvent s event r ok w)"
  by (cases event) (simp_all add: HandleRead_wrapped HandleNewConnection_wrapped HandleWrite_def HandleFinish_def
    HandleDone_def)

text \<open>What an event of a queue, a step and a run report.\<close>

fun handle_reports :: "event_ptr \<Rightarrow> ('m, 'h, 'c) world \<Rightarrow> RpcHandlerEvent list" where
  "handle_reports (CqEvent r event) w =
     (case bind_r (get_rpc r w) (\<lambda>x. bind_r (GetRpcEvent event x) (\<lambda>e. Inr (x, e))) of
        Inr (x, e) \<Rightarrow> event_reports (service x) (cqe_event e) (cqe_rpc_ptr e) (cqe_ok e) w
      | Inl _ \<Rightarrow> [])"
| "handle_reports (InternalEvent event r) w =
     (case heap w r of Some x \<Rightarrow> event_reports (service x) event r True w | None \<Rightarrow> [])"

fun step_reports :: "'m label \<Rightarrow> ('m, 'h, 'c) world \<Rightarrow> RpcHandlerEvent list" where
  "step_reports (Dispatch q) w =
     (case deque (event_queues w q) of [] \<Rightarrow> [] | (e, _) # _ \<Rightarrow> handle_reports e w)"
| "step_reports _ w = []"

fun run_reports :: "'m label list \<Rightarrow> ('m, 'h, 'c) world \<Rightarrow> RpcHandlerEvent list" where
  "run_reports [] w = []"
| "run_reports (l # ls) w =
     step_reports l w @ (case exec l w of Inr w' \<Rightarrow> run_reports ls w' | Inl _ \<Rightarrow> [])"

lemma event_reports_frame:
  "same_types w w' \<Longrightarrow> services w' = services w \<Longrightarrow> event_reports s event r ok w' = event_reports s event r ok w"
  by (cases event) (simp_all add: single_request_same)

lemma release_wrapped [simp]: "release r (wrapped_world es w) = wrapped_world es (release r w)"
proof -
  have "owned r (wrapped_world es w) = owned r w"
    by (simp add: owned_def split: option.split)
  then show ?thesis by (auto simp: release_def Let_def wrapped_world_def)
qed

lemma hold_wrapped [simp]: "hold r (wrapped_world es w) = wrapped_world es (hold r w)"
  by (simp add: hold_def)

lemma CompletionQueueRpcEvent_Handle_wrapped:
  "CompletionQueueRpcEvent_Handle r event (wrapped_world es w) =
   wrapped_result (es @ handle_reports (CqEvent r event) w) (CompletionQueueRpcEvent_Handle r event w)"
proof (cases "heap w r")
  case (Some x)
  show ?thesis
  proof (cases "GetRpcEvent event x")
    case (Inr e)
    let ?x = "put_event event (e\<lparr>cqe_pending := False\<rparr>) x"
    have info: "rpc_handler_info ?x = rpc_handler_info x" "service ?x = service x"
      by (cases event; simp)+
    have e: "GetRpcEvent event ?x = Inr (e\<lparr>cqe_pending := False\<rparr>)"
      using Inr by (cases event) auto
    have "event_reports s ev p ok (put_rpc r ?x w) = event_reports s ev p ok w" for s ev p ok
      using Some info by (intro event_reports_frame) (auto simp: same_types_def)
    then show ?thesis using Some Inr e info
      by (simp add: CompletionQueueRpcEvent_Handle_def SetRpcEventState_def access_defs get_rpc_def HandleEvent_wrapped)
  qed (simp add: Some CompletionQueueRpcEvent_Handle_def SetRpcEventState_def access_defs get_rpc_def)
qed (simp add: CompletionQueueRpcEvent_Handle_def SetRpcEventState_def access_defs get_rpc_def)

lemma InternalRpcEvent_Handle_wrapped:
  "InternalRpcEvent_Handle event r (wrapped_world es w) =
   wrapped_result (es @ handle_reports (InternalEvent event r) w) (InternalRpcEvent_Handle event r w)"
proof -
  have "event_reports s event r True (hold r w) = event_reports s event r True w" for s
    by (rule event_reports_frame) (simp_all add: same_types_def hold_def)
  then show ?thesis
    by (cases "heap w r") (simp_all add: InternalRpcEvent_Handle_def access_defs get_rpc_def HandleEvent_wrapped hold_def
      flip: hold_wrapped)
qed

lemma RunEventQueue_step_wrapped:
  "RunEventQueue_step q (wrapped_world es w) = wrapped_result (es @ step_reports (Dispatch q) w) (RunEventQueue_step q w)"
proof (cases "deque (event_queues w q)")
  case (Cons e ds)
  let ?w = "w\<lparr>event_queues := (event_queues w)(q := (event_queues w q)\<lparr>deque := ds\<rparr>)\<rparr>"
  have reports: "handle_reports (fst e) ?w = handle_reports (fst e) w"
    by (cases "fst e") (simp_all add: get_rpc_def event_reports_frame same_types_def split: sum.split option.split)
  have "Handle (fst e) (wrapped_world es ?w) = wrapped_result (es @ handle_reports (fst e) ?w) (Handle (fst e) ?w)"
    by (cases "fst e") (simp_all only: Handle.simps CompletionQueueRpcEvent_Handle_wrapped InternalRpcEvent_Handle_wrapped)
  with Cons reports show ?thesis
    by (simp add: RunEventQueue_step_def PopWithTimeout_def case_prod_unfold)
qed (simp add: RunEventQueue_step_def PopWithTimeout_def)

lemma RunCompletionQueue_step_wrapped [simp]:
  "RunCompletionQueue_step r event ok (wrapped_world es w) = wrapped_result es (RunCompletionQueue_step r event ok w)"
  by (simp add: RunCompletionQueue_step_def PushToEventQueue_def access_defs)

lemma grpc_announce_wrapped [simp]:
  "grpc_announce r event ok m (wrapped_world es w) = wrapped_world es (grpc_announce r event ok m w)"
  by (auto simp: grpc_announce_def receives_request_def wrapped_world_def split: option.split)

lemma StopServing_wrapped [simp]: "StopServing s (wrapped_world es w) = wrapped_result es (StopServing s w)"
  by (auto simp: StopServing_def wrapped_world_def)

lemma exec_wrapped: "exec l (wrapped_world es w) = wrapped_result (es @ step_reports l w) (exec l w)"
  by (cases l) (simp_all add: RunEventQueue_step_wrapped Writer_lock_def Writer_Write_def Writer_WritesDone_def
    Writer_Finish_def access_defs)

lemma enabled_wrapped: "enabled l (wrapped_world es w) \<longleftrightarrow> enabled l w"
  by (cases l) (simp_all split: option.split)

text \<open>The same on runs, with all reports of the run.\<close>

lemma run_wrapped:
  "run ls (wrapped_world es w) = map_option (wrapped_result (es @ run_reports ls w)) (run ls w)"
proof (induction ls arbitrary: es w)
  case (Cons l ls)
  have "exec l (wrapped_world es w) = wrapped_result (es @ step_reports l w) (exec l w)" by (rule exec_wrapped)
  with Cons show ?case by (cases "exec l w") (simp_all add: run_def enabled_wrapped)
qed (simp add: run_def)

end
