(* ===== verification/Type_Traits.thy ===== *)
theory Type_Traits
  imports Server_Facts Math_Service
begin

text \<open>
  The compile-time functions of \<open>src/async_grpc/type_traits.h\<close> and \<open>rpc_service_method_traits.h\<close>, which
  turn the signature a user writes for a method into its message types and its kind of streaming. A
  C++ type is a message with its descriptor, another type, or \<open>Stream\<close> of a type; a signature
  that fails a static assertion gives \<open>None\<close>. With \<open>CheckHandlerCompatibility\<close> they make sure that a
  handler has the signature of the service definition.
\<close>

section \<open>Traits\<close>

datatype 'm cpp_type = MessageType "'m Descriptor" | Stream "'m cpp_type" | OtherType string

fun StripStream :: "'m cpp_type \<Rightarrow> 'm cpp_type" where
  "StripStream (Stream t) = t"
| "StripStream t = t"

fun RpcType_value :: "'m cpp_type \<Rightarrow> 'm cpp_type \<Rightarrow> RpcType" where
  "RpcType_value (Stream incoming) (Stream outgoing) = BIDI_STREAMING"
| "RpcType_value (Stream incoming) outgoing = CLIENT_STREAMING"
| "RpcType_value incoming (Stream outgoing) = SERVER_STREAMING"
| "RpcType_value incoming outgoing = NORMAL_RPC"

record 'm RpcServiceMethodConcept =
  concept_MethodName :: "string option"
  IncomingType :: "'m cpp_type option"
  OutgoingType :: "'m cpp_type option"

definition DEFINE_HANDLER_SIGNATURE :: "'m cpp_type \<Rightarrow> 'm cpp_type \<Rightarrow> string \<Rightarrow> 'm RpcServiceMethodConcept" where
  "DEFINE_HANDLER_SIGNATURE incomingType outgoingType methodName =
     \<lparr>concept_MethodName = Some methodName, IncomingType = Some incomingType, OutgoingType = Some outgoingType\<rparr>"

record 'm RpcServiceMethodTraits =
  traits_MethodName :: string
  traits_RequestType :: "'m Descriptor"
  traits_ResponseType :: "'m Descriptor"
  traits_StreamType :: RpcType

definition message_of :: "'m cpp_type \<Rightarrow> 'm Descriptor option" where
  "message_of t = (case t of MessageType d \<Rightarrow> Some d | _ \<Rightarrow> None)"

definition traits_of :: "'m RpcServiceMethodConcept \<Rightarrow> 'm RpcServiceMethodTraits option" where
  "traits_of c =
     (case (concept_MethodName c, IncomingType c, OutgoingType c) of
        (Some name, Some incoming, Some outgoing) \<Rightarrow>
          (case (message_of (StripStream incoming), message_of (StripStream outgoing)) of
             (Some req, Some resp) \<Rightarrow>
               Some \<lparr>traits_MethodName = name, traits_RequestType = req, traits_ResponseType = resp,
                     traits_StreamType = RpcType_value incoming outgoing\<rparr>
           | _ \<Rightarrow> None)
      | _ \<Rightarrow> None)"

text \<open>A handler class for a method, as \<open>RegisterHandler\<close> sees it.\<close>

definition handler_type ::
  "'m RpcServiceMethodTraits \<Rightarrow> ('m, 'h, 'c) HandlerClass \<Rightarrow> ('m, 'h, 'c) RpcHandlerType" where
  "handler_type tr impl =
     \<lparr>MethodName = traits_MethodName tr, RequestType = traits_RequestType tr,
      ResponseType = traits_ResponseType tr, StreamType = traits_StreamType tr, HandlerImpl = impl\<rparr>"

section \<open>The signatures of the test service\<close>

definition math_type :: "string \<Rightarrow> int cpp_type" where
  "math_type name = MessageType (message_descriptor name)"

definition GetSumMethod :: "int RpcServiceMethodConcept" where
  "GetSumMethod = \<lparr>concept_MethodName = Some ''/async_grpc.proto.Math/GetSum'',
     IncomingType = Some (Stream (math_type ''GetSumRequest'')), OutgoingType = Some (math_type ''GetSumResponse'')\<rparr>"

definition GetRunningSumMethod :: "int RpcServiceMethodConcept" where
  "GetRunningSumMethod = \<lparr>concept_MethodName = Some ''/async_grpc.proto.Math/GetRunningSum'',
     IncomingType = Some (Stream (math_type ''GetSumRequest'')),
     OutgoingType = Some (Stream (math_type ''GetSumResponse''))\<rparr>"

definition GetSquareMethod :: "int RpcServiceMethodConcept" where
  "GetSquareMethod = \<lparr>concept_MethodName = Some ''/async_grpc.proto.Math/GetSquare'',
     IncomingType = Some (math_type ''GetSquareRequest''), OutgoingType = Some (math_type ''GetSquareResponse'')\<rparr>"

definition GetEchoMethod :: "int RpcServiceMethodConcept" where
  "GetEchoMethod = \<lparr>concept_MethodName = Some ''/async_grpc.proto.Math/GetEcho'',
     IncomingType = Some (math_type ''GetEchoRequest''), OutgoingType = Some (math_type ''GetEchoResponse'')\<rparr>"

definition GetSequenceMethod :: "int RpcServiceMethodConcept" where
  "GetSequenceMethod = \<lparr>concept_MethodName = Some ''/async_grpc.proto.Math/GetSequence'',
     IncomingType = Some (math_type ''GetSequenceRequest''),
     OutgoingType = Some (Stream (math_type ''GetSequenceResponse''))\<rparr>"

lemmas math_signatures = GetSumMethod_def GetRunningSumMethod_def GetSquareMethod_def
  GetEchoMethod_def GetSequenceMethod_def math_type_def

text \<open>The macro gives the signature that the tests write out.\<close>

lemma GetSquare_signature:
  "DEFINE_HANDLER_SIGNATURE (math_type ''GetSquareRequest'') (math_type ''GetSquareResponse'')
     ''/async_grpc.proto.Math/GetSquare'' = GetSquareMethod"
  by (simp add: DEFINE_HANDLER_SIGNATURE_def GetSquareMethod_def)

text \<open>The handler types of \<open>Math_Service\<close> are those the traits give.\<close>

lemma math_handler_types:
  "map_option (\<lambda>tr. handler_type tr GetSumHandler) (traits_of GetSumMethod) = Some GetSum"
  "map_option (\<lambda>tr. handler_type tr GetRunningSumHandler) (traits_of GetRunningSumMethod) = Some GetRunningSum"
  "map_option (\<lambda>tr. handler_type tr GetSquareHandler) (traits_of GetSquareMethod) = Some GetSquare"
  "map_option (\<lambda>tr. handler_type tr GetEchoHandler) (traits_of GetEchoMethod) = Some GetEcho"
  "map_option (\<lambda>tr. handler_type tr GetSequenceHandler) (traits_of GetSequenceMethod) = Some GetSequence"
  by (simp_all add: traits_of_def math_signatures message_of_def handler_type_def
      GetSum_def GetRunningSum_def GetSquare_def GetEcho_def GetSequence_def math_method_def)

section \<open>What the traits say of a signature\<close>

definition wrap :: "bool \<Rightarrow> 'm Descriptor \<Rightarrow> 'm cpp_type" where
  "wrap streaming d = (if streaming then Stream (MessageType d) else MessageType d)"

lemma wrap_inject [simp]: "wrap b d = wrap b' d' \<longleftrightarrow> b = b' \<and> d = d'"
  by (auto simp: wrap_def)

lemma message_of_StripStream [simp]: "message_of (StripStream (wrap b d)) = Some d"
  by (simp add: wrap_def message_of_def)

lemma message_of_StripStream_eq:
  assumes "message_of (StripStream t) = Some d" obtains b where "t = wrap b d"
  using assms that [of True] that [of False]
  by (cases t rule: StripStream.cases) (auto simp: message_of_def wrap_def split: cpp_type.splits)

lemma streams_of_RpcType_value [simp]: "streams_of (RpcType_value (wrap cs req) (wrap ss resp)) = (cs, ss)"
  by (simp add: wrap_def streams_of_def)

lemma traits_of_concept:
  assumes "traits_of c = Some tr"
  obtains cs ss where "concept_MethodName c = Some (traits_MethodName tr)"
    "IncomingType c = Some (wrap cs (traits_RequestType tr))"
    "OutgoingType c = Some (wrap ss (traits_ResponseType tr))"
    "streams_of (traits_StreamType tr) = (cs, ss)"
proof -
  from assms obtain incoming outgoing where c: "concept_MethodName c = Some (traits_MethodName tr)"
    "IncomingType c = Some incoming" "OutgoingType c = Some outgoing"
    "message_of (StripStream incoming) = Some (traits_RequestType tr)"
    "message_of (StripStream outgoing) = Some (traits_ResponseType tr)"
    "traits_StreamType tr = RpcType_value incoming outgoing"
    by (auto simp: traits_of_def split: option.splits)
  from c(4) obtain cs where cs: "incoming = wrap cs (traits_RequestType tr)" by (rule message_of_StripStream_eq)
  from c(5) obtain ss where ss: "outgoing = wrap ss (traits_ResponseType tr)" by (rule message_of_StripStream_eq)
  from c cs ss that [of cs ss] show thesis by simp
qed

section \<open>Properties\<close>

text \<open>C32. A handler is accepted for a method exactly if the signature its author wrote is the signature in the
  service definition: for every concept that compiles, the check that \<open>RegisterHandler\<close> makes with the
  derived types succeeds exactly if the pool knows the method, the incoming type is the method's
  input message, wrapped in \<open>Stream\<close> exactly if the method streams requests, and the same for the outgoing
  type and responses.\<close>

theorem handler_signature_checked:
  assumes "traits_of c = Some tr"
  shows "CheckHandlerCompatibility pool (handler_type tr impl) s m = Inr () \<longleftrightarrow>
    (\<exists>svc d req resp. pool s = Some svc \<and> svc m = Some d \<and>
       IncomingType c = Some (wrap (client_streaming d) req) \<and> full_name req = full_name (input_type d) \<and>
       OutgoingType c = Some (wrap (server_streaming d) resp) \<and> full_name resp = full_name (output_type d))"
  using assms
  by (rule traits_of_concept) (auto simp: CheckHandlerCompatibility_iff handler_type_def)

theorem handler_signature_checked_witness:
  "\<exists>tr. traits_of GetSumMethod = Some tr \<and>
     CheckHandlerCompatibility math_pool (handler_type tr GetSumHandler) ''async_grpc.proto.Math'' ''GetSum'' = Inr () \<and>
     CheckHandlerCompatibility math_pool (handler_type tr GetSumHandler) ''async_grpc.proto.Math'' ''GetSquare'' \<noteq> Inr ()"
proof -
  obtain tr where tr: "traits_of GetSumMethod = Some tr"
    by (simp add: traits_of_def math_signatures message_of_def)
  have w: "IncomingType GetSumMethod = Some (wrap True (message_descriptor ''GetSumRequest''))"
    "OutgoingType GetSumMethod = Some (wrap False (message_descriptor ''GetSumResponse''))"
    by (simp_all add: math_signatures wrap_def)
  have "CheckHandlerCompatibility math_pool (handler_type tr GetSumHandler) ''async_grpc.proto.Math'' ''GetSum'' = Inr ()"
    unfolding handler_signature_checked [OF tr] by (simp add: w math_pool_def descriptor_of_def)
  moreover have "CheckHandlerCompatibility math_pool (handler_type tr GetSumHandler) ''async_grpc.proto.Math'' ''GetSquare''
    \<noteq> Inr ()"
    unfolding handler_signature_checked [OF tr] by (simp add: w math_pool_def descriptor_of_def)
  ultimately show ?thesis using tr by blast
qed

end
