(* ===== verification/Handler_Test.thy ===== *)
theory Handler_Test
  imports Handler_Wrapper Type_Traits Server_Measure Math_Runs
begin

text \<open>
  \<open>RpcHandlerTestServer\<close> of \<open>src/async_grpc/testing/rpc_handler_test_server.h\<close>: a server with one wrapped
  handler and a client of it. Each of its calls makes a call on the client, and then takes one
  report from the wrapper's queue and checks that it is the expected one.

  The form of the client is a template argument, so the calls take the client's method as a function;
  they also take the steps that the threads of the server make before the report is taken.
\<close>

section \<open>Construction\<close>

definition new_Options :: "nat \<Rightarrow> nat \<Rightarrow> string \<Rightarrow> Options" where
  "new_Options n_grpc n_event address = default_Options
     \<lparr>opt_num_grpc_threads := Some n_grpc, opt_num_event_threads := Some n_event,
      server_address := address\<rparr>"

definition kServerAddress :: string where
  "kServerAddress = ''localhost:50051''"

definition GetRpcHandlerInfo ::
  "'m RpcServiceMethodTraits \<Rightarrow> ('m, 'h, 'c) HandlerClass \<Rightarrow> string \<Rightarrow> ('m, 'h, 'c wrapped_context) RpcHandlerInfo" where
  "GetRpcHandlerInfo tr impl method_full_name =
     \<lparr>request_descriptor = traits_RequestType tr, response_descriptor = traits_ResponseType tr,
      handler_class = RpcHandlerWrapper impl, rpc_type = traits_StreamType tr,
      fully_qualified_name = method_full_name\<rparr>"

record ('m, 'h, 'c, 'k) RpcHandlerTestServer =
  test_server :: "('m, 'h, 'c wrapped_context) Server"
  test_client :: 'k

text \<open>A server for one method, with one thread of each kind, set up and started.\<close>

definition start_single ::
  "string \<Rightarrow> (string \<Rightarrow> ('m, 'h, 'c) RpcHandlerInfo) \<Rightarrow> 'c \<Rightarrow> ('m, 'h, 'c) Server result" where
  "start_single method_full_name info c =
     bind_r (new_Server c (new_Options 1 1 kServerAddress)) (\<lambda>sv.
     bind_r (ParseMethodFullName method_full_name) (\<lambda>(service_full_name, method_name).
       block [AddService service_full_name [(method_name, info method_full_name)],
              SetExecutionContext c, Start] sv))"

definition new_RpcHandlerTestServer ::
  "'m RpcServiceMethodTraits \<Rightarrow> ('m, 'h, 'c) HandlerClass \<Rightarrow> 'c \<Rightarrow> 'k \<Rightarrow> ('m, 'h, 'c, 'k) RpcHandlerTestServer result" where
  "new_RpcHandlerTestServer tr impl c k =
     bind_r (start_single (traits_MethodName tr) (GetRpcHandlerInfo tr impl) (c, new_queue)) (\<lambda>sv.
       Inr \<lparr>test_server = sv, test_client = k\<rparr>)"

section \<open>Driving the handler\<close>

text \<open>\<open>None\<close>: the threads cannot take these steps, or the call still waits after them.\<close>

definition WaitForHandlerCompletion ::
  "RpcHandlerEvent \<Rightarrow> ('m, 'h, 'c, 'k) RpcHandlerTestServer \<Rightarrow> ('m, 'h, 'c, 'k) RpcHandlerTestServer result option" where
  "WaitForHandlerCompletion event t =
     (case exec_context (state (test_server t)) of (c, q) \<Rightarrow>
      case Pop q of
        None \<Rightarrow> None
      | Some (e, q') \<Rightarrow> Some (check (e = event) ''rpc_handler_event_queue_.Pop() == event''
          (Inr (t\<lparr>test_server := (test_server t)\<lparr>state := (state (test_server t))\<lparr>exec_context := (c, q')\<rparr>\<rparr>\<rparr>))))"

definition threads_run ::
  "'m label list \<Rightarrow> ('m, 'h, 'c, 'k) RpcHandlerTestServer \<Rightarrow> ('m, 'h, 'c, 'k) RpcHandlerTestServer result option" where
  "threads_run ls t = map_option (map_sum id (\<lambda>w. t\<lparr>test_server := (test_server t)\<lparr>state := w\<rparr>\<rparr>))
     (run ls (state (test_server t)))"

definition call_and_wait ::
  "('k \<Rightarrow> 'r \<times> 'k) \<Rightarrow> RpcHandlerEvent \<Rightarrow> 'm label list \<Rightarrow> ('m, 'h, 'c, 'k) RpcHandlerTestServer \<Rightarrow>
   ('r \<times> ('m, 'h, 'c, 'k) RpcHandlerTestServer) result option" where
  "call_and_wait call event ls t =
     (case call (test_client t) of (r, k) \<Rightarrow>
      case threads_run ls (t\<lparr>test_client := k\<rparr>) of
        None \<Rightarrow> None
      | Some (Inl e) \<Rightarrow> Some (Inl e)
      | Some (Inr t) \<Rightarrow> map_option (map_sum id (Pair r)) (WaitForHandlerCompletion event t))"

text \<open>The Boolean of the last two says whether the expectation of the test was met.\<close>

definition SendWrite where
  "SendWrite client_write = call_and_wait client_write ON_REQUEST"

definition SendWritesDone where
  "SendWritesDone client_writes_done = call_and_wait client_writes_done ON_READS_DONE"

definition SendFinish where
  "SendFinish client_finish =
     call_and_wait (\<lambda>k. case client_finish k of (status, k) \<Rightarrow> (status_ok status, k)) ON_FINISH"

definition RpcHandlerTestServer_destroy ::
  "'m shutdown_step list \<Rightarrow> ('m, 'h, 'c, 'k) RpcHandlerTestServer \<Rightarrow> unit result option" where
  "RpcHandlerTestServer_destroy steps t =
     map_option (\<lambda>res. bind_r res Server_destroy) (Shutdown steps (test_server t))"

section \<open>The server under test\<close>

definition wrapped_server :: "('m, 'h, 'c) Server \<Rightarrow> ('m, 'h, 'c wrapped_context) Server" where
  "wrapped_server sv =
     \<lparr>sv_options = sv_options sv, sv_shutting_down = sv_shutting_down sv, grpc_server = grpc_server sv,
      registered = registered sv, cq_threads = cq_threads sv, event_threads = event_threads sv,
      sv_services = sv_services sv, state = wrapped_world [] (state sv)\<rparr>"

lemma GetRpcHandlerInfo_wrapped:
  "GetRpcHandlerInfo tr impl (traits_MethodName tr) = wrapped_info (handler_info (handler_type tr impl))"
  by (simp add: GetRpcHandlerInfo_def wrapped_info_def handler_info_def handler_type_def)

lemma reports_Nil: "reports [] = new_queue"
  by (simp add: reports_def queue_defs)

lemma new_Server_wrapped:
  "new_Server (c, new_queue) opts = map_sum id wrapped_server (new_Server c opts)"
  by (auto simp: new_Server_def wrapped_server_def initial_world_def wrapped_world_def reports_Nil new_Service_def
    wrapped_service_def wrapped_infos_def split: option.split)

lemma AddService_wrapped:
  "AddService s (wrapped_infos infos) (wrapped_server sv) = map_sum id wrapped_server (AddService s infos sv)"
  by (auto simp: AddService_def wrapped_server_def wrapped_world_def wrapped_service_def new_Service_def
    wrapped_infos_def check_def split: prod.split)

lemma SetExecutionContext_wrapped:
  "SetExecutionContext (c, new_queue) (wrapped_server sv) = map_sum id wrapped_server (SetExecutionContext c sv)"
  by (simp add: SetExecutionContext_def wrapped_server_def wrapped_world_def reports_Nil)

lemma StartServing_one_wrapped:
  "StartServing_one s i (wrapped_info info) cq (wrapped_world es w) = wrapped_result es (StartServing_one s i info cq w)"
  by (simp add: StartServing_one_def case_prod_unfold add_rpc_wrapped)

lemma StartServing_wrapped:
  "StartServing s cqs (wrapped_world es w) = wrapped_result es (StartServing s cqs w)"
proof -
  have block: "block (map (StartServing_one s i (wrapped_info info)) cqs) (wrapped_world es w) =
      wrapped_result es (block (map (StartServing_one s i info) cqs) w)" for i info and w :: "('a, 'b, 'c) world"
    by (induction cqs arbitrary: w) (simp_all add: StartServing_one_wrapped)
  have "StartServing_methods s cqs i (wrapped_infos infos) (wrapped_world es w) =
      wrapped_result es (StartServing_methods s cqs i infos w)" for i infos and w :: "('a, 'b, 'c) world"
    by (induction infos arbitrary: i w) (auto simp: wrapped_infos_def block)
  then show ?thesis by (simp add: StartServing_def)
qed

lemma Start_wrapped: "Start (wrapped_server sv) = map_sum id wrapped_server (Start sv)"
proof -
  have "block (map (\<lambda>s. StartServing s cqs) ss) (wrapped_world [] w) =
      wrapped_result [] (block (map (\<lambda>s. StartServing s cqs) ss) w)" for cqs ss and w :: "('a, 'b, 'c) world"
    by (induction ss arbitrary: w) (simp_all add: StartServing_wrapped)
  then show ?thesis
    by (simp add: Start_def on_state_def Start_threads_def wrapped_server_def bind_r_assoc)
qed

lemma AddService_one_wrapped:
  "AddService s [(m, wrapped_info info)] (wrapped_server sv) = map_sum id wrapped_server (AddService s [(m, info)] sv)"
  using AddService_wrapped [of s "[(m, info)]"] by (simp add: wrapped_infos_def)

lemma start_single_wrapped:
  "start_single name (\<lambda>n. wrapped_info (info n)) (c, new_queue) =
   map_sum id wrapped_server (start_single name info c)"
  by (simp add: start_single_def new_Server_wrapped case_prod_unfold AddService_one_wrapped
    SetExecutionContext_wrapped Start_wrapped)

text \<open>The same server, without the wrapper.\<close>

abbreviation start_under_test ::
  "'m RpcServiceMethodTraits \<Rightarrow> ('m, 'h, 'c) HandlerClass \<Rightarrow> 'c \<Rightarrow> ('m, 'h, 'c) Server result" where
  "start_under_test tr impl \<equiv> start_single (traits_MethodName tr) (\<lambda>_. handler_info (handler_type tr impl))"

lemma new_RpcHandlerTestServer_eq:
  "new_RpcHandlerTestServer tr impl c k =
   map_sum id (\<lambda>sv. \<lparr>test_server = wrapped_server sv, test_client = k\<rparr>) (start_under_test tr impl c)"
proof -
  have "start_single (traits_MethodName tr) (GetRpcHandlerInfo tr impl) (c, new_queue) =
      start_single (traits_MethodName tr) (\<lambda>_. wrapped_info (handler_info (handler_type tr impl))) (c, new_queue)"
    by (simp add: start_single_def GetRpcHandlerInfo_wrapped cong: if_cong)
  then show ?thesis
    by (cases "start_under_test tr impl c") (simp_all add: new_RpcHandlerTestServer_def start_single_wrapped)
qed

section \<open>Methods with a single request\<close>

text \<open>What a method with a single request can report: pairs of \<open>ON_REQUEST\<close> and \<open>ON_READS_DONE\<close>, and ends.\<close>

fun paired :: "RpcHandlerEvent list \<Rightarrow> bool" where
  "paired [] = True"
| "paired (ON_REQUEST # ON_READS_DONE # es) = paired es"
| "paired (ON_FINISH # es) = paired es"
| "paired _ = False"

lemma paired_append: "paired xs \<Longrightarrow> paired ys \<Longrightarrow> paired (xs @ ys)"
  by (induction xs rule: paired.induct) simp_all

lemma paired_ON_REQUEST: "paired (ON_REQUEST # es) \<Longrightarrow> \<exists>es'. es = ON_READS_DONE # es'"
  by (cases "ON_REQUEST # es" rule: paired.cases) simp_all

definition single_requests :: "('m, 'h, 'c) world \<Rightarrow> bool" where
  "single_requests w \<longleftrightarrow> (\<forall>r x. heap w r = Some x \<longrightarrow> \<not> reads_stream x)"

lemma single_requests_step: "single_requests w \<Longrightarrow> exec l w = Inr w' \<Longrightarrow> single_requests w'"
  using inh.advances_D [OF inh.advances_exec]
  unfolding single_requests_def inherits_def reads_stream_def by metis

lemma event_reports_paired: "event \<noteq> READ \<Longrightarrow> paired (event_reports s event r ok w)"
  by (cases event) (simp_all add: single_request_def split: option.split)

lemma step_reports_paired:
  assumes inv: "server_inv w" and single: "single_requests w"
  shows "paired (step_reports l w)"
proof (cases l)
  case (Dispatch q)
  show ?thesis
  proof (cases "deque (event_queues w q)")
    case (Cons e ts)
    show ?thesis
    proof (cases e)
      case (Pair p a)
      show ?thesis
      proof (cases p)
        case (CqEvent r ev)
        with Cons Pair have q: "deque (event_queues w q) = (CqEvent r ev, a) # ts" by simp
        from inv_pop_completion [OF inv q] obtain x where x: "heap w r = Some x" "pend ev x" by blast
        from inv_rpc [OF inv [unfolded server_inv_def] x(1)] have "well_built r x" "pend READ x \<longrightarrow> reads_stream x"
          by (simp_all add: rpc_ok_def)
        moreover from this single x have ev: "ev \<noteq> READ" by (auto simp: single_requests_def)
        moreover obtain e where "GetRpcEvent ev x = Inr e" using x(2) by (cases ev) (auto simp: pend.simps)
        ultimately show ?thesis using Dispatch q x
          by (simp add: get_rpc_def well_built_def event_reports_paired)
      next
        case (InternalEvent ev r)
        with Cons Pair have "(InternalEvent ev r, a) \<in> set (deque (event_queues w q))" by simp
        with inv have "entry_ok {} w (InternalEvent ev r, a)"
          unfolding server_inv_def inv_except_def by (blast intro: shared_entry)
        then show ?thesis using Dispatch Cons Pair InternalEvent by (simp split: option.split)
      qed
    qed
  qed (simp add: Dispatch)
qed simp_all

lemma run_reports_paired:
  assumes "server_inv w" "single_requests w" "run_of exec allowed ls w = Some res"
  shows "paired (run_reports ls w)"
  using assms
proof (induction ls arbitrary: w)
  case (Cons l ls)
  then have "allowed l w" by (auto split: if_splits)
  with srv.step_inv Cons.prems(1) obtain w' where w': "exec l w = Inr w'" "server_inv w'" by blast
  with Cons single_requests_step [OF Cons.prems(2) w'(1)] have "paired (run_reports ls w')"
    by (auto split: if_splits)
  with step_reports_paired [OF Cons.prems(1,2)] w' show ?case by (simp add: paired_append)
qed simp

lemma start_single_serves:
  assumes "start_single name info c = Inr sv"
  obtains s m where "serves c \<lparr>options = new_Options 1 1 kServerAddress, rpc_handlers = [(s, [(m, info name)])]\<rparr> (state sv)"
    "builder_ready \<lparr>options = new_Options 1 1 kServerAddress, rpc_handlers = [(s, [(m, info name)])]\<rparr>"
proof -
  from assms obtain sv0 s m sv1 sv2 where
    new: "new_Server c (new_Options 1 1 kServerAddress) = Inr sv0" and add: "AddService s [(m, info name)] sv0 = Inr sv1"
    and ctxt: "SetExecutionContext c sv1 = Inr sv2" and start: "Start sv2 = Inr sv"
    by (auto simp: start_single_def bind_r_Inr_iff)
  let ?b = "\<lparr>options = new_Options 1 1 kServerAddress, rpc_handlers = [(s, [(m, info name)])]\<rparr>"
  have ready: "builder_ready ?b"
    by (simp add: builder_ready_def builder_ok_def map_ok_Cons new_Options_def)
  from new add have b: "Build c ?b = Inr sv1" by (simp add: Build_def)
  have "sv2 = sv1"
    using ctxt Build_eq [of ?b 1 1 c] b
    by (auto simp: SetExecutionContext_def check_def new_Options_def map_ok_Cons built_world_def initial_world_def
      split: if_splits)
  with b start have "serves c ?b (state sv)" by (auto intro: serves.start)
  with ready show thesis by (rule that [rotated])
qed

lemma start_single_infos:
  assumes "start_single name info c = Inr sv" and "heap (state sv) r = Some x"
  shows "rpc_handler_info x = info name"
proof -
  from assms(1) obtain s m where "ParseMethodFullName name = Inr (s, m)"
    by (auto simp: start_single_def bind_r_Inr_iff)
  with assms show ?thesis
    by (cases "rpc_type (info name)")
      (auto simp: start_single_def new_Server_def new_Options_def AddService_def initial_world_def
        SetExecutionContext_def Start_def on_state_def StartServing_def StartServing_one_def
        Start_threads_def bind_r_Inr_iff step_defs new_rpc_defs split: if_splits)
qed

section \<open>Properties\<close>


text \<open>After the first \<open>SendWrite\<close> of a test of such a method the next report is \<open>ON_READS_DONE\<close>.\<close>

lemma wait_Pop:
  assumes "state (test_server t) = wrapped_world (e # es) w"
  shows "WaitForHandlerCompletion event t = Some (check (e = event) ''rpc_handler_event_queue_.Pop() == event''
    (Inr (t\<lparr>test_server := (test_server t)\<lparr>state := wrapped_world es w\<rparr>\<rparr>)))"
proof -
  have "Pop (reports (e # es)) = Some (e, reports es)" by (simp add: reports_def queue_defs)
  then show ?thesis using assms by (simp add: WaitForHandlerCompletion_def)
qed

lemma wait_Nil: "state (test_server t) = wrapped_world [] w \<Longrightarrow> WaitForHandlerCompletion event t = None"
  by (simp add: WaitForHandlerCompletion_def reports_def queue_defs)

lemma allowed_wrapped: "allowed l (wrapped_world es w) \<longleftrightarrow> allowed l w"
proof -
  have "orderly l (wrapped_world es w) \<longleftrightarrow> orderly l w"
    by (cases l) (auto simp: wrapped_rpc_def split: list.split event_ptr.split option.split)
  then show ?thesis by (simp add: allowed_def enabled_wrapped)
qed

lemma run_allowed_wrapped:
  "run_of exec allowed ls (wrapped_world es w) = None \<longleftrightarrow> run_of exec allowed ls w = None"
proof (induction ls arbitrary: es w)
  case (Cons l ls)
  then show ?case by (cases "exec l w") (auto simp: allowed_wrapped exec_wrapped split: if_splits)
qed simp

lemma call_and_wait_wrapped:
  assumes "state (test_server t) = wrapped_world es w" and "run ls w = Some (Inr w')"
    and "es @ run_reports ls w = e # es'"
  shows "call_and_wait call event ls t =
    Some (check (e = event) ''rpc_handler_event_queue_.Pop() == event'' (Inr (fst (call (test_client t)),
      t\<lparr>test_server := (test_server t)\<lparr>state := wrapped_world es' w'\<rparr>, test_client := snd (call (test_client t))\<rparr>)))"
  using assms run_wrapped [of ls es w]
  by (simp add: call_and_wait_def threads_run_def case_prod_unfold wait_Pop [of _ e es' w'] check_def)

lemma first_write_single:
  assumes "traits_StreamType tr \<in> {NORMAL_RPC, SERVER_STREAMING}"
    and "new_RpcHandlerTestServer tr impl c k = Inr t"
    and "run_of exec allowed ls (state (test_server t)) \<noteq> None"
    and "SendWrite wr ls t = Some (Inr (b, t'))"
  obtains es w where "state (test_server t') = wrapped_world (ON_READS_DONE # es) w"
proof -
  from assms(2) obtain sv where sv: "start_under_test tr impl c = Inr sv" and t: "test_server t = wrapped_server sv"
    by (auto simp: new_RpcHandlerTestServer_eq map_sum_Inr)
  have state: "state (test_server t) = wrapped_world [] (state sv)" using t by (simp add: wrapped_server_def)
  from start_single_serves [OF sv] have inv: "server_inv (state sv)" by (metis serves_inv)
  from start_single_infos [OF sv] assms(1) have single: "single_requests (state sv)"
    by (auto simp: single_requests_def reads_stream_def handler_info_def handler_type_def)
  from assms(3) state obtain res where "run_of exec allowed ls (state sv) = Some res"
    by (simp only: run_allowed_wrapped) blast
  with run_reports_paired [OF inv single] have p: "paired (run_reports ls (state sv))" by blast
  have r: "run ls (state (test_server t)) = map_option (wrapped_result (run_reports ls (state sv))) (run ls (state sv))"
    using run_wrapped [of ls "[]"] state by simp
  from assms(4) r obtain w' where w': "run ls (state sv) = Some (Inr w')"
    by (auto simp: SendWrite_def call_and_wait_def threads_run_def map_sum_Inr split: option.splits sum.splits prod.splits)
  show thesis
  proof (cases "run_reports ls (state sv)")
    case Nil
    with assms(4) r w' show ?thesis
      by (auto simp: SendWrite_def call_and_wait_def threads_run_def wait_Nil split: prod.splits)
  next
    case (Cons e es)
    with assms(4) call_and_wait_wrapped [OF state w', of e es wr ON_REQUEST] have "e = ON_REQUEST"
      and t': "state (test_server t') = wrapped_world es w'"
      by (auto simp: SendWrite_def check_def split: if_splits)
    with p Cons paired_ON_REQUEST show ?thesis by (metis that)
  qed
qed

text \<open>C40. The test server cannot drive a handler with a single request beyond its first \<open>SendWrite\<close>: for a unary
  or server streaming method, the server hands over the request and the end of the requests in one
  step, so that the wrapper reports \<open>ON_REQUEST\<close> and \<open>ON_READS_DONE\<close>, and \<open>SendWrite\<close> takes only the first. Once
  a \<open>SendWrite\<close> has returned, whatever the threads do, the next \<open>SendWrite\<close> or \<open>SendFinish\<close> fails its check.\<close>

theorem single_request_test_fails:
  assumes "traits_StreamType tr \<in> {NORMAL_RPC, SERVER_STREAMING}"
    and "new_RpcHandlerTestServer tr impl c k = Inr t"
    and "run_of exec allowed ls (state (test_server t)) \<noteq> None"
    and "SendWrite wr ls t = Some (Inr (b, t'))"
    and "run ls' (state (test_server t')) = Some (Inr w')"
  shows "SendWrite wr' ls' t' = Some (Inl (CheckFailed ''rpc_handler_event_queue_.Pop() == event'')) \<and>
    SendFinish finish ls' t' = Some (Inl (CheckFailed ''rpc_handler_event_queue_.Pop() == event''))"
proof -
  from assms(1-4) obtain es w where t': "state (test_server t') = wrapped_world (ON_READS_DONE # es) w"
    by (rule first_write_single)
  with assms(5) run_wrapped [of ls' "ON_READS_DONE # es" w] obtain w1 where "run ls' w = Some (Inr w1)"
    by (auto simp: map_sum_Inr)
  then show ?thesis
    by (simp add: SendWrite_def SendFinish_def call_and_wait_wrapped [OF t', of _ _ ON_READS_DONE "es @ run_reports ls' w"])
qed

definition square_traits :: "int RpcServiceMethodTraits" where
  "square_traits = \<lparr>traits_MethodName = ''/async_grpc.proto.Math/GetSquare'',
     traits_RequestType = message_descriptor ''GetSquareRequest'',
     traits_ResponseType = message_descriptor ''GetSquareResponse'', traits_StreamType = NORMAL_RPC\<rparr>"

definition one_call :: "int label list" where
  "one_call = [Announce 0 NEW_CONNECTION True 3, Dispatch 0]"

lemma square_traits_of: "traits_of GetSquareMethod = Some square_traits"
  by (simp add: traits_of_def math_signatures message_of_def square_traits_def)

lemma square_parsed: "ParseMethodFullName ''/async_grpc.proto.Math/GetSquare'' = Inr (''async_grpc.proto.Math'', ''GetSquare'')"
  by (simp add: ParseMethodFullName_def)

lemmas thread_defs = EventQueueThread_Start_def CompletionQueueThread_Start_def new_EventQueueThread_def
  new_CompletionQueueThread_def

lemma square_started:
  "\<exists>sv w. start_under_test square_traits GetSquareHandler [] = Inr sv \<and>
     run_of exec allowed one_call (state sv) = Some (Inr w) \<and> run_reports one_call (state sv) = [ON_REQUEST, ON_READS_DONE]"
  by (simp add: start_single_def new_Server_def new_Options_def AddService_def initial_world_def square_parsed
    SetExecutionContext_def Start_def on_state_def StartServing_def StartServing_one_def square_traits_def
    Start_threads_def thread_defs step_defs new_rpc_defs handler_info_def handler_type_def one_call_def
    allowed_def single_request_def GetSquareHandler_def plain_handler_def new_ActiveRpcs_def)

theorem single_request_test_fails_witness:
  "\<exists>t t'. new_RpcHandlerTestServer square_traits GetSquareHandler [] () = Inr t \<and>
     SendWrite (Pair True) one_call t = Some (Inr (True, t')) \<and>
     SendWrite (Pair True) [] t' = Some (Inl (CheckFailed ''rpc_handler_event_queue_.Pop() == event''))"
proof -
  obtain sv w where sv: "start_under_test square_traits GetSquareHandler [] = Inr sv"
    "run_of exec allowed one_call (state sv) = Some (Inr w)"
    "run_reports one_call (state sv) = [ON_REQUEST, ON_READS_DONE]"
    using square_started by blast
  let ?t = "\<lparr>test_server = wrapped_server sv, test_client = ()\<rparr>"
  have t: "new_RpcHandlerTestServer square_traits GetSquareHandler [] () = Inr ?t"
    by (simp add: new_RpcHandlerTestServer_eq sv(1))
  have state: "state (test_server ?t) = wrapped_world [] (state sv)" by (simp add: wrapped_server_def)
  have run: "run one_call (state sv) = Some (Inr w)"
    unfolding run_def by (rule run_of_weaken [OF sv(2)]) (simp add: allowed_def)
  have ok: "run_of exec allowed one_call (state (test_server ?t)) \<noteq> None"
    unfolding state by (simp add: run_allowed_wrapped sv(2))
  from call_and_wait_wrapped [OF state run, of ON_REQUEST "[ON_READS_DONE]" "Pair True" ON_REQUEST] obtain t' where
    t': "SendWrite (Pair True) one_call ?t = Some (Inr (True, t'))"
    by (simp add: SendWrite_def sv(3))
  have "SendWrite (Pair True) [] t' = Some (Inl (CheckFailed ''rpc_handler_event_queue_.Pop() == event''))"
    by (rule single_request_test_fails [THEN conjunct1, OF _ t ok t']) (simp_all add: square_traits_def run_def)
  with t t' show ?thesis by blast
qed

end
